(* ===== verification/Prelude.thy ===== *)
theory Prelude
  imports Main "HOL-Library.Word"
begin

text \<open>
  Shared vocabulary of the development: the Rust integer types, results as sums, the
  theorem collections the component theories extend, and generic facts on lists and
  results that several of them use.

  A Rust \<open>Result<T, E>\<close> is the sum type \<open>'e + 't\<close>, with \<open>Inl\<close> for \<open>Err\<close> and
  \<open>Inr\<close> for \<open>Ok\<close>.  A Rust \<open>String\<close>, \<open>&str\<close> or \<open>PathBuf\<close> is the list of its
  UTF-8 bytes, as a HOL \<open>string\<close> (a HOL \<open>char\<close> is one byte).
\<close>

section \<open>Types\<close>

type_synonym u8 = "8 word"
type_synonym u16 = "16 word"
type_synonym u32 = "32 word"
type_synonym u64 = "64 word"

section \<open>Theorem collections\<close>

named_theorems wf_intros \<open>preservation of the slot invariant by each step\<close>
named_theorems frame_simps \<open>fields an operation leaves alone\<close>
named_theorems spec_simps \<open>equations of the abstract specifications\<close>

section \<open>Results\<close>

definition map_err :: "('e \<Rightarrow> 'f) \<Rightarrow> 'e + 'a \<Rightarrow> 'f + 'a" where
  "map_err f r = (case r of Inl e \<Rightarrow> Inl (f e) | Inr x \<Rightarrow> Inr x)"

lemma map_err_simps [simp]:
  "map_err f (Inl e) = Inl (f e)"
  "map_err f (Inr x) = Inr x"
  by (simp_all add: map_err_def)

lemma map_err_eq_Inr_iff [simp]: "map_err f r = Inr x \<longleftrightarrow> r = Inr x"
  by (cases r) simp_all

lemma map_err_eq_Inl_iff: "map_err f r = Inl e \<longleftrightarrow> (\<exists>e'. r = Inl e' \<and> e = f e')"
  by (cases r) auto

definition ok_or :: "'e \<Rightarrow> 'a option \<Rightarrow> 'e + 'a" where
  "ok_or e x = (case x of None \<Rightarrow> Inl e | Some y \<Rightarrow> Inr y)"

lemma ok_or_simps [simp]:
  "ok_or e None = Inl e"
  "ok_or e (Some x) = Inr x"
  by (simp_all add: ok_or_def)

lemma ok_or_eq_Inr_iff [simp]: "ok_or e x = Inr y \<longleftrightarrow> x = Some y"
  by (cases x) simp_all

definition is_ok :: "'e + 'a \<Rightarrow> bool" where
  "is_ok r = (case r of Inl _ \<Rightarrow> False | Inr _ \<Rightarrow> True)"

lemma is_ok_simps [simp]:
  "is_ok (Inl e) = False"
  "is_ok (Inr x) = True"
  by (simp_all add: is_ok_def)

section \<open>Saturating arithmetic\<close>

text \<open>\<open>u64::saturating_add\<close>, \<open>saturating_sub\<close> and \<open>saturating_mul\<close>.\<close>

definition sat_add :: "u64 \<Rightarrow> u64 \<Rightarrow> u64" where
  "sat_add a b = of_nat (min (2 ^ 64 - 1) (unat a + unat b))"

definition sat_sub :: "u64 \<Rightarrow> u64 \<Rightarrow> u64" where
  "sat_sub a b = of_nat (unat a - unat b)"

definition sat_mul :: "u64 \<Rightarrow> u64 \<Rightarrow> u64" where
  "sat_mul a b = of_nat (min (2 ^ 64 - 1) (unat a * unat b))"

lemma unat_of_nat_le_max: "n \<le> 2 ^ 64 - 1 \<Longrightarrow> unat (of_nat n :: u64) = n"
  by (simp add: unat_of_nat)

lemma unat_u64_less: "unat (a :: u64) < 2 ^ 64"
  using unsigned_less [of a, where ?'a = nat] by simp

lemma unat_sat_add [simp]: "unat (sat_add a b) = min (2 ^ 64 - 1) (unat a + unat b)"
  unfolding sat_add_def by (rule unat_of_nat_le_max) simp

lemma unat_sat_mul [simp]: "unat (sat_mul a b) = min (2 ^ 64 - 1) (unat a * unat b)"
  unfolding sat_mul_def by (rule unat_of_nat_le_max) simp

lemma unat_sat_sub [simp]: "unat (sat_sub a b) = unat a - unat b"
  unfolding sat_sub_def using unat_u64_less [of a] by (intro unat_of_nat_le_max) simp

section \<open>Lists\<close>

lemma find_SomeD: "find P xs = Some x \<Longrightarrow> P x \<and> x \<in> set xs"
  by (induction xs) (auto split: if_splits)

lemma find_None_iff_all: "find P xs = None \<longleftrightarrow> (\<forall>x \<in> set xs. \<not> P x)"
  by (induction xs) auto

lemma find_Some_first:
  "find P xs = Some x \<Longrightarrow> \<exists>i < length xs. xs ! i = x \<and> P x \<and> (\<forall>j < i. \<not> P (xs ! j))"
  by (simp add: find_Some_iff) auto

lemma list_all_update:
  "list_all P xs \<Longrightarrow> P y \<Longrightarrow> list_all P (xs[i := y])"
  by (auto simp: list_all_iff dest: set_update_subset_insert [THEN subsetD])

lemma list_all_nth: "list_all P xs \<Longrightarrow> i < length xs \<Longrightarrow> P (xs ! i)"
  by (simp add: list_all_length)

lemma list_all_butlast: "list_all P xs \<Longrightarrow> list_all P (butlast xs)"
  by (auto simp: list_all_iff dest: in_set_butlastD)

lemma list_all2_backward: "list_all2 P xs ys \<Longrightarrow> y \<in> set ys \<Longrightarrow> \<exists>x \<in> set xs. P x y"
  by (induction rule: list_all2_induct) auto

text \<open>A word counter never returns to its value after one increment.\<close>

lemma word_plus_one_neq [simp]: "(g :: u64) + 1 \<noteq> g" "g \<noteq> (g :: u64) + 1"
  by auto

end
