(* ===== verification/RustStr.thy ===== *)
theory RustStr
  imports Prelude
begin

text \<open>
  The parts of Rust's standard library that the daemon's text handling rests on, over
  UTF-8 byte strings: trimming and splitting at Unicode white space, ASCII lower-casing,
  \<open>lines\<close>, \<open>split_once\<close>, \<open>rfind\<close>, integer parsing with its three errors,
  decimal and two-digit hexadecimal formatting, \<open>String::from_utf8_lossy\<close>, and the
  path operations \<open>join\<close>, \<open>is_absolute\<close> and \<open>extension\<close> on Unix paths.

  White space is matched by the UTF-8 encodings of the 25 code points with the Unicode
  property White_Space.  On valid UTF-8 the leading byte of an encoding occurs at a
  character boundary only, so matching bytes is matching characters.
\<close>

section \<open>Bytes\<close>

definition byte :: "char \<Rightarrow> nat" where
  "byte c = of_char c"

definition chr :: "nat \<Rightarrow> char" where
  "chr n = char_of n"

lemma byte_chr [simp]: "n < 256 \<Longrightarrow> byte (chr n) = n"
  by (simp add: byte_def chr_def)

lemma chr_byte [simp]: "chr (byte c) = c"
  by (simp add: byte_def chr_def)

lemma byte_less [simp]: "byte c < 256"
  using of_char_mod_256 [of c, where ?'a = nat] unfolding byte_def
  by (metis mod_less_divisor zero_less_numeral)

section \<open>Prefixes, suffixes and search\<close>

definition starts_with :: "string \<Rightarrow> string \<Rightarrow> bool" where
  "starts_with s p = (take (length p) s = p)"

definition ends_with :: "string \<Rightarrow> string \<Rightarrow> bool" where
  "ends_with s p = (length p \<le> length s \<and> drop (length s - length p) s = p)"

fun contains :: "string \<Rightarrow> string \<Rightarrow> bool" where
  "contains [] p = (p = [])"
| "contains (c # cs) p = (starts_with (c # cs) p \<or> contains cs p)"

text \<open>\<open>split_once(c)\<close>: the parts before and after the first \<open>c\<close>.\<close>

fun split_once :: "char \<Rightarrow> string \<Rightarrow> (string \<times> string) option" where
  "split_once d [] = None"
| "split_once d (c # cs) =
     (if c = d then Some ([], cs)
      else map_option (\<lambda>(a, b). (c # a, b)) (split_once d cs))"

text \<open>\<open>rfind(c)\<close>: the byte index of the last \<open>c\<close>.\<close>

fun rfind_from :: "nat \<Rightarrow> char \<Rightarrow> string \<Rightarrow> nat option" where
  "rfind_from i d [] = None"
| "rfind_from i d (c # cs) =
     (case rfind_from (Suc i) d cs of
        Some j \<Rightarrow> Some j
      | None \<Rightarrow> if c = d then Some i else None)"

definition rfind :: "char \<Rightarrow> string \<Rightarrow> nat option" where
  "rfind d s = rfind_from 0 d s"

section \<open>White space\<close>

definition white_space :: "string list" where
  "white_space =
     map (\<lambda>b. [chr b]) [9, 10, 11, 12, 13, 32]
     @ map (\<lambda>b. [chr 194, chr b]) [133, 160]
     @ [[chr 225, chr 154, chr 128]]
     @ map (\<lambda>b. [chr 226, chr 128, chr b])
         [128, 129, 130, 131, 132, 133, 134, 135, 136, 137, 138, 168, 169, 175]
     @ [[chr 226, chr 129, chr 159], [chr 227, chr 128, chr 128]]"

lemma white_space_nonempty: "w \<in> set white_space \<Longrightarrow> w \<noteq> []"
  by (auto simp: white_space_def)

definition ws_head :: "string \<Rightarrow> nat" where
  "ws_head s = (case find (starts_with s) white_space of None \<Rightarrow> 0 | Some w \<Rightarrow> length w)"

definition ws_last :: "string \<Rightarrow> nat" where
  "ws_last s = (case find (ends_with s) white_space of None \<Rightarrow> 0 | Some w \<Rightarrow> length w)"

lemma ws_last_le: "ws_last s \<le> length s"
  by (auto simp: ws_last_def ends_with_def dest: find_SomeD split: option.splits)

lemma ws_last_shrinks: "ws_last s \<noteq> 0 \<Longrightarrow> length s - ws_last s < length s"
  using ws_last_le [of s] by linarith

function trim_start :: "string \<Rightarrow> string" where
  "trim_start s = (if ws_head s = 0 \<or> s = [] then s else trim_start (drop (ws_head s) s))"
  by pat_completeness auto
termination
  by (relation "measure length") auto

function trim_end :: "string \<Rightarrow> string" where
  "trim_end s =
     (if ws_last s = 0 then s else trim_end (take (length s - ws_last s) s))"
  by pat_completeness auto
termination
  by (relation "measure length") (auto intro: ws_last_shrinks)

declare trim_start.simps [simp del] trim_end.simps [simp del]

definition trim :: "string \<Rightarrow> string" where
  "trim s = trim_end (trim_start s)"

text \<open>\<open>split_whitespace\<close>: the maximal runs without white space, in order.\<close>

function split_ws :: "string \<Rightarrow> string \<Rightarrow> string list" where
  "split_ws acc s =
     (case s of
        [] \<Rightarrow> (if acc = [] then [] else [rev acc])
      | c # cs \<Rightarrow>
          if ws_head s = 0 then split_ws (c # acc) cs
          else (if acc = [] then [] else [rev acc]) @ split_ws [] (drop (ws_head s) s))"
  by pat_completeness auto
termination
  by (relation "measure (\<lambda>(acc, s). length s)") auto

declare split_ws.simps [simp del]

definition split_whitespace :: "string \<Rightarrow> string list" where
  "split_whitespace s = split_ws [] s"

section \<open>Lines\<close>

text \<open>
  \<open>str::lines\<close>: split after each line feed; a line loses its line feed and then one
  carriage return before it.  A last line without line feed keeps its carriage return.
\<close>

definition strip_cr :: "string \<Rightarrow> string" where
  "strip_cr l = (if l \<noteq> [] \<and> last l = chr 13 then butlast l else l)"

fun lines_from :: "string \<Rightarrow> string \<Rightarrow> string list" where
  "lines_from acc [] = (if acc = [] then [] else [rev acc])"
| "lines_from acc (c # cs) =
     (if c = chr 10 then strip_cr (rev acc) # lines_from [] cs else lines_from (c # acc) cs)"

definition str_lines :: "string \<Rightarrow> string list" where
  "str_lines s = lines_from [] s"

section \<open>Case\<close>

definition to_ascii_lower :: "char \<Rightarrow> char" where
  "to_ascii_lower c = (if 65 \<le> byte c \<and> byte c \<le> 90 then chr (byte c + 32) else c)"

definition to_ascii_lowercase :: "string \<Rightarrow> string" where
  "to_ascii_lowercase s = map to_ascii_lower s"

section \<open>Numbers as text\<close>

definition digit_char :: "nat \<Rightarrow> char" where
  "digit_char d = chr (48 + d)"

fun show_nat :: "nat \<Rightarrow> string" where
  "show_nat n = (if n < 10 then [digit_char n] else show_nat (n div 10) @ [digit_char (n mod 10)])"

declare show_nat.simps [simp del]

definition hex_digit :: "nat \<Rightarrow> char" where
  "hex_digit d = (if d < 10 then chr (48 + d) else chr (87 + d))"

definition hex02 :: "u8 \<Rightarrow> string" where
  "hex02 b = [hex_digit (unat b div 16), hex_digit (unat b mod 16)]"

definition quoted :: "string \<Rightarrow> string" where
  "quoted s = [chr 39] @ s @ [chr 39]"

datatype int_error = Int_empty | Int_invalid_digit | Int_pos_overflow

fun int_error_display :: "int_error \<Rightarrow> string" where
  "int_error_display Int_empty = ''cannot parse integer from empty string''"
| "int_error_display Int_invalid_digit = ''invalid digit found in string''"
| "int_error_display Int_pos_overflow = ''number too large to fit in target type''"

definition digit_val :: "char \<Rightarrow> nat option" where
  "digit_val c = (if 48 \<le> byte c \<and> byte c \<le> 57 then Some (byte c - 48) else None)"

fun parse_digits :: "nat \<Rightarrow> nat \<Rightarrow> string \<Rightarrow> int_error + nat" where
  "parse_digits mx acc [] = Inr acc"
| "parse_digits mx acc (c # cs) =
     (case digit_val c of
        None \<Rightarrow> Inl Int_invalid_digit
      | Some d \<Rightarrow>
          if mx < acc * 10 + d then Inl Int_pos_overflow
          else parse_digits mx (acc * 10 + d) cs)"

text \<open>
  \<open>from_str\<close> of an unsigned type: a leading plus is dropped unless it is the whole
  text, a minus is an invalid digit.
\<close>

definition parse_uint :: "nat \<Rightarrow> string \<Rightarrow> int_error + nat" where
  "parse_uint mx s =
     (case s of
        [] \<Rightarrow> Inl Int_empty
      | c # cs \<Rightarrow>
          if cs = [] \<and> (c = CHR ''+'' \<or> c = CHR ''-'') then Inl Int_invalid_digit
          else if c = CHR ''+'' then parse_digits mx 0 cs
          else parse_digits mx 0 s)"

definition parse_u64 :: "string \<Rightarrow> int_error + u64" where
  "parse_u64 s = map_sum id of_nat (parse_uint (2 ^ 64 - 1) s)"

definition parse_u32 :: "string \<Rightarrow> int_error + u32" where
  "parse_u32 s = map_sum id of_nat (parse_uint (2 ^ 32 - 1) s)"

section \<open>Lossy UTF-8 decoding\<close>

text \<open>
  \<open>String::from_utf8_lossy\<close>: valid sequences are kept, each maximal invalid prefix of a
  sequence becomes U+FFFD.  \<open>utf8_step\<close> reads one sequence at the head of a non-empty
  byte string and gives the number of bytes it spans and whether they are valid; a missing
  byte reads as 0, which continues nothing.
\<close>

definition byte_at :: "string \<Rightarrow> nat \<Rightarrow> nat" where
  "byte_at s i = (if i < length s then byte (s ! i) else 0)"

definition cont_byte :: "nat \<Rightarrow> bool" where
  "cont_byte b = (128 \<le> b \<and> b \<le> 191)"

definition second_ok :: "nat \<Rightarrow> nat \<Rightarrow> bool" where
  "second_ok b0 b1 =
     (if b0 = 224 then 160 \<le> b1 \<and> b1 \<le> 191
      else if b0 = 237 then 128 \<le> b1 \<and> b1 \<le> 159
      else if b0 = 240 then 144 \<le> b1 \<and> b1 \<le> 191
      else if b0 = 244 then 128 \<le> b1 \<and> b1 \<le> 143
      else cont_byte b1)"

definition utf8_width :: "nat \<Rightarrow> nat" where
  "utf8_width b =
     (if b < 128 then 1 else if 194 \<le> b \<and> b \<le> 223 then 2
      else if 224 \<le> b \<and> b \<le> 239 then 3 else if 240 \<le> b \<and> b \<le> 244 then 4 else 0)"

definition utf8_step :: "string \<Rightarrow> nat \<times> bool" where
  "utf8_step s =
     (let b0 = byte_at s 0; w = utf8_width b0 in
      if w = 0 then (1, False)
      else if w = 1 then (1, True)
      else if \<not> second_ok b0 (byte_at s 1) then (1, False)
      else if w = 2 then (2, True)
      else if \<not> cont_byte (byte_at s 2) then (2, False)
      else if w = 3 then (3, True)
      else if \<not> cont_byte (byte_at s 3) then (3, False)
      else (4, True))"

definition replacement :: string where
  "replacement = [chr 239, chr 191, chr 189]"

lemma utf8_step_pos: "0 < fst (utf8_step s)"
  by (simp add: utf8_step_def Let_def)

function from_utf8_lossy :: "string \<Rightarrow> string" where
  "from_utf8_lossy s =
     (if s = [] then []
      else (case utf8_step s of (n, ok) \<Rightarrow>
        (if ok then take n s else replacement) @ from_utf8_lossy (drop n s)))"
  by pat_completeness auto
termination
proof (relation "measure length", goal_cases)
  case (2 s n ok)
  then have "0 < n" using utf8_step_pos [of s] by (metis fst_conv)
  with 2 show ?case by (cases s) auto
qed simp

function utf8_valid :: "string \<Rightarrow> bool" where
  "utf8_valid s =
     (if s = [] then True
      else (case utf8_step s of (n, ok) \<Rightarrow> if ok then utf8_valid (drop n s) else False))"
  by pat_completeness auto
termination
proof (relation "measure length", goal_cases)
  case (2 s n ok)
  then have "0 < n" using utf8_step_pos [of s] by (metis fst_conv)
  with 2 show ?case by (cases s) auto
qed simp

declare from_utf8_lossy.simps [simp del] utf8_valid.simps [simp del]

text \<open>\<open>from_utf8_lossy\<close> is the identity on valid text.\<close>

lemma from_utf8_lossy_valid: "utf8_valid s \<Longrightarrow> from_utf8_lossy s = s"
proof (induction s rule: from_utf8_lossy.induct)
  case (1 s)
  show ?case
  proof (cases "s = []")
    case True
    then show ?thesis by (simp add: from_utf8_lossy.simps)
  next
    case False
    obtain n ok where st: "utf8_step s = (n, ok)" by fastforce
    with "1.prems" False have "ok" and "utf8_valid (drop n s)"
      by (simp_all add: utf8_valid.simps [of s] split: if_splits)
    with "1.IH" [OF False] st False show ?thesis
      by (simp add: from_utf8_lossy.simps [of s])
  qed
qed

section \<open>Unix paths\<close>

definition path_is_absolute :: "string \<Rightarrow> bool" where
  "path_is_absolute p = starts_with p ''/''"

definition path_join :: "string \<Rightarrow> string \<Rightarrow> string" where
  "path_join base rel =
     (if path_is_absolute rel then rel
      else if base = [] \<or> last base = CHR ''/'' then base @ rel
      else base @ ''/'' @ rel)"

fun split_on :: "char \<Rightarrow> string \<Rightarrow> string list" where
  "split_on d [] = [[]]"
| "split_on d (c # cs) =
     (if c = d then [] # split_on d cs
      else (case split_on d cs of [] \<Rightarrow> [[c]] | p # ps \<Rightarrow> (c # p) # ps))"

text \<open>
  \<open>Path::file_name\<close>: the last component, where empty and \<open>.\<close> components do not count
  and \<open>..\<close> is no file name.  \<open>Path::extension\<close>: what follows its last dot, unless
  nothing precedes that dot.
\<close>

definition path_file_name :: "string \<Rightarrow> string option" where
  "path_file_name p =
     (let cs = filter (\<lambda>c. c \<noteq> [] \<and> c \<noteq> ''.'') (split_on (CHR ''/'') p) in
      if cs = [] \<or> last cs = ''..'' then None else Some (last cs))"

definition path_extension :: "string \<Rightarrow> string option" where
  "path_extension p =
     (case path_file_name p of
        None \<Rightarrow> None
      | Some f \<Rightarrow>
          (case rfind (CHR ''.'') f of
             None \<Rightarrow> None
           | Some i \<Rightarrow> if i = 0 then None else Some (drop (Suc i) f)))"

section \<open>Facts\<close>

lemma byte_at_ascii: "byte c < 128 \<Longrightarrow> utf8_step (c # s) = (1, True)"
  by (simp add: utf8_step_def byte_at_def utf8_width_def)

text \<open>Decimal digits parse back to the number they print.\<close>

lemma digit_val_digit_char: "d < 10 \<Longrightarrow> digit_val (digit_char d) = Some d"
  by (simp add: digit_val_def digit_char_def)

lemma parse_digits_append:
  "parse_digits mx acc (xs @ ys) =
     (case parse_digits mx acc xs of Inl e \<Rightarrow> Inl e | Inr n \<Rightarrow> parse_digits mx n ys)"
  by (induction xs arbitrary: acc) (auto split: option.splits)

lemma parse_digits_show_nat: "n \<le> mx \<Longrightarrow> parse_digits mx 0 (show_nat n) = Inr n"
proof (induction n rule: show_nat.induct)
  case (1 n)
  show ?case
  proof (cases "n < 10")
    case True
    with "1.prems" show ?thesis
      by (simp add: show_nat.simps [of n] digit_val_digit_char)
  next
    case False
    from "1.prems" have "n div 10 \<le> mx" by (meson div_le_dividend le_trans)
    with "1.IH" [OF False] have "parse_digits mx 0 (show_nat (n div 10)) = Inr (n div 10)" .
    moreover have "n div 10 * 10 + n mod 10 = n" by (rule div_mult_mod_eq)
    ultimately show ?thesis
      using False "1.prems"
      by (simp add: show_nat.simps [of n] parse_digits_append digit_val_digit_char)
  qed
qed

lemma show_nat_nonempty: "show_nat n \<noteq> []"
  by (subst show_nat.simps) simp

lemma show_nat_digits: "c \<in> set (show_nat n) \<Longrightarrow> 48 \<le> byte c \<and> byte c \<le> 57"
proof (induction n rule: show_nat.induct)
  case (1 n)
  have "n mod 10 < 10" by simp
  with 1 show ?case
    by (cases "n < 10") (auto simp: show_nat.simps [of n] digit_char_def)
qed

lemma hd_show_nat: "show_nat n = c # cs \<Longrightarrow> c \<noteq> CHR ''+'' \<and> c \<noteq> CHR ''-''"
  using show_nat_digits [of c n] by (auto simp: byte_def)

lemma parse_uint_digits:
  assumes "c \<noteq> CHR ''+''" and "c \<noteq> CHR ''-''"
  shows "parse_uint mx (c # cs) = parse_digits mx 0 (c # cs)"
  unfolding parse_uint_def list.case using assms by metis

lemma parse_show_nat: "n \<le> mx \<Longrightarrow> parse_uint mx (show_nat n) = Inr n"
proof -
  assume n: "n \<le> mx"
  obtain c cs where s: "show_nat n = c # cs"
    using show_nat_nonempty [of n] by (cases "show_nat n") auto
  from hd_show_nat [OF s] have "parse_uint mx (show_nat n) = parse_digits mx 0 (show_nat n)"
    unfolding s by (intro parse_uint_digits) blast+
  with parse_digits_show_nat [OF n] show ?thesis by simp
qed

lemma show_nat_inj: "show_nat m = show_nat n \<Longrightarrow> m = n"
  using parse_digits_show_nat [of m "max m n"] parse_digits_show_nat [of n "max m n"]
  by (metis max.cobounded1 max.cobounded2 sum.inject(2))

lemma show_nat_inject [simp]: "show_nat m = show_nat n \<longleftrightarrow> m = n"
  by (auto dest: show_nat_inj)

lemma parse_digits_bound: "parse_digits mx acc s = Inr n \<Longrightarrow> acc \<le> mx \<Longrightarrow> n \<le> mx"
proof (induction s arbitrary: acc)
  case (Cons c s)
  from Cons.prems(1) obtain d where "acc * 10 + d \<le> mx" "parse_digits mx (acc * 10 + d) s = Inr n"
    by (auto split: option.splits if_splits simp: not_less)
  with Cons.IH show ?case by blast
qed simp

lemma parse_uint_bound: "parse_uint mx s = Inr n \<Longrightarrow> n \<le> mx"
  unfolding parse_uint_def
  by (auto simp del: parse_digits.simps split: list.splits if_splits dest!: parse_digits_bound)

lemma to_ascii_lower_idem [simp]: "to_ascii_lower (to_ascii_lower c) = to_ascii_lower c"
  by (simp add: to_ascii_lower_def)

lemma to_ascii_lowercase_idem [simp]:
  "to_ascii_lowercase (to_ascii_lowercase s) = to_ascii_lowercase s"
  by (simp add: to_ascii_lowercase_def)

lemma hex_digit_inj: "a < 16 \<Longrightarrow> b < 16 \<Longrightarrow> hex_digit a = hex_digit b \<Longrightarrow> a = b"
proof -
  assume a: "a < 16" and b: "b < 16" and e: "hex_digit a = hex_digit b"
  have "byte (hex_digit a) = byte (hex_digit b)" by (simp add: e)
  with a b show "a = b" by (simp add: hex_digit_def split: if_splits)
qed

lemma hex02_inj: "hex02 a = hex02 b \<longleftrightarrow> a = b"
proof
  assume e: "hex02 a = hex02 b"
  have lt: "unat (x :: u8) < 256" for x
    using unsigned_less [of x, where ?'a = nat] by simp
  have "unat a div 16 < 16" "unat b div 16 < 16"
    using lt [of a] lt [of b] by linarith+
  with e have "unat a div 16 = unat b div 16"
    by (auto simp: hex02_def dest: hex_digit_inj)
  moreover from e have "unat a mod 16 = unat b mod 16"
    by (intro hex_digit_inj) (simp_all add: hex02_def)
  ultimately have "unat a = unat b" by (metis div_mult_mod_eq)
  then show "a = b" by (rule unsigned_word_eqI)
qed simp

lemma length_hex02 [simp]: "length (hex02 b) = 2"
  by (simp add: hex02_def)

end
