(* ===== verification/PoolTypes.thy ===== *)
theory PoolTypes
  imports RustStr
begin

text \<open>
  The data types of \<open>src/pool.rs\<close> and \<open>src/error.rs\<close>: slot states, the status a
  slot reports, the runtime view of a running VM, the two error types with their
  conversion and HTTP mapping, and the two routines that turn a slot status into a VM
  runtime.  Field names carry the prefixes \<open>ss_\<close> (SlotStatus), \<open>vr_\<close> (VmRuntime) and
  \<open>pr_\<close> (ProxyResponse), because record fields of different types share names in the
  source.  \<open>usize\<close> slot numbers are \<open>nat\<close>; the generation counter and the process
  id keep their widths.
\<close>

section \<open>Slot states and statuses\<close>

datatype slot_state = Empty | Booting | Occupied | Failed

record slot_status =
  ss_slot :: nat
  ss_generation :: u64
  ss_state :: slot_state
  ss_name :: "string option"
  ss_mac :: "string option"
  ss_tap :: "string option"
  ss_pid :: "u32 option"
  ss_started_at :: "string option"
  ss_last_error :: "string option"

datatype vm_state = Running

record vm_runtime =
  vr_name :: string
  vr_mac :: string
  vr_tap :: string
  vr_pid :: u32
  vr_state :: vm_state
  vr_started_at :: string

record proxy_response =
  pr_status :: u16
  pr_content_type :: "string option"
  pr_body :: string

text \<open>
  The order of a VM's life within one slot generation; \<open>Failed\<close> comes last because
  only a new generation leaves it.
\<close>

fun life_rank :: "slot_state \<Rightarrow> nat" where
  "life_rank Empty = 0"
| "life_rank Booting = 1"
| "life_rank Occupied = 2"
| "life_rank Failed = 3"

lemma life_rank_inj [simp]: "life_rank a = life_rank b \<longleftrightarrow> a = b"
  by (cases a; cases b) simp_all

instantiation slot_state :: linorder
begin

definition less_eq_slot_state :: "slot_state \<Rightarrow> slot_state \<Rightarrow> bool" where
  "less_eq_slot_state a b = (life_rank a \<le> life_rank b)"

definition less_slot_state :: "slot_state \<Rightarrow> slot_state \<Rightarrow> bool" where
  "less_slot_state a b = (life_rank a < life_rank b)"

instance
  by standard (auto simp: less_eq_slot_state_def less_slot_state_def)

end

lemmas life_order_defs = less_eq_slot_state_def less_slot_state_def

section \<open>Errors\<close>

datatype pool_error =
    InvalidTransition nat slot_state string
  | SlotNotFound nat
  | VmAlreadyRunning string
  | NoAvailableSlot
  | ChannelClosed
  | Backend string

datatype api_error =
    Validation "string option" string
  | NotFound string
  | Conflict string
  | PoolExhausted string
  | ApiBackend string

fun slot_state_debug :: "slot_state \<Rightarrow> string" where
  "slot_state_debug Empty = ''Empty''"
| "slot_state_debug Booting = ''Booting''"
| "slot_state_debug Occupied = ''Occupied''"
| "slot_state_debug Failed = ''Failed''"

definition invalid_transition_text :: "nat \<Rightarrow> slot_state \<Rightarrow> string \<Rightarrow> string" where
  "invalid_transition_text n from_state action =
     ''slot '' @ show_nat n @ '' cannot perform '' @ action @ '' from state ''
       @ slot_state_debug from_state"

fun pool_error_display :: "pool_error \<Rightarrow> string" where
  "pool_error_display (InvalidTransition n s a) = invalid_transition_text n s a"
| "pool_error_display (SlotNotFound n) = ''slot '' @ show_nat n @ '' does not exist''"
| "pool_error_display (VmAlreadyRunning v) = ''VM '' @ quoted v @ '' is already running''"
| "pool_error_display NoAvailableSlot = ''pool is exhausted''"
| "pool_error_display ChannelClosed = ''slot worker channel is closed''"
| "pool_error_display (Backend e) = ''backend request failed: '' @ e"

fun api_error_from :: "pool_error \<Rightarrow> api_error" where
  "api_error_from (SlotNotFound n) = NotFound (''slot '' @ show_nat n @ '' does not exist'')"
| "api_error_from (VmAlreadyRunning v) =
     Conflict (''VM '' @ quoted v @ '' is already running'')"
| "api_error_from NoAvailableSlot = PoolExhausted ''pool exhausted''"
| "api_error_from (InvalidTransition n s a) = Conflict (invalid_transition_text n s a)"
| "api_error_from ChannelClosed = ApiBackend ''slot worker channel is closed''"
| "api_error_from (Backend e) = ApiBackend e"

text \<open>
  \<open>into_response\<close>: the HTTP status and the fields of the JSON error object; \<open>field\<close>
  is left out of the object when it is \<open>None\<close>.
\<close>

record error_response =
  er_error :: string
  er_field :: "string option"

fun into_response :: "api_error \<Rightarrow> nat \<times> error_response" where
  "into_response (Validation f e) = (400, \<lparr>er_error = e, er_field = f\<rparr>)"
| "into_response (NotFound e) = (404, \<lparr>er_error = e, er_field = None\<rparr>)"
| "into_response (Conflict e) = (409, \<lparr>er_error = e, er_field = None\<rparr>)"
| "into_response (PoolExhausted e) = (503, \<lparr>er_error = e, er_field = None\<rparr>)"
| "into_response (ApiBackend e) = (500, \<lparr>er_error = e, er_field = None\<rparr>)"

section \<open>From a status to a runtime\<close>

definition runtime_from_slot_status :: "slot_status \<Rightarrow> vm_runtime option" where
  "runtime_from_slot_status st =
     (if ss_state st \<noteq> Occupied then None
      else case ss_name st of None \<Rightarrow> None
        | Some n \<Rightarrow> (case ss_mac st of None \<Rightarrow> None
        | Some m \<Rightarrow> (case ss_tap st of None \<Rightarrow> None
        | Some t \<Rightarrow> (case ss_pid st of None \<Rightarrow> None
        | Some p \<Rightarrow> (case ss_started_at st of None \<Rightarrow> None
        | Some a \<Rightarrow> Some \<lparr>vr_name = n, vr_mac = m, vr_tap = t, vr_pid = p,
                            vr_state = Running, vr_started_at = a\<rparr>)))))"

definition try_into_runtime :: "slot_status \<Rightarrow> pool_error + vm_runtime" where
  "try_into_runtime st =
     (if ss_state st \<noteq> Occupied
      then Inl (InvalidTransition (ss_slot st) (ss_state st) ''convert_runtime'')
      else case ss_name st of None \<Rightarrow> Inl (Backend ''missing VM name'')
        | Some n \<Rightarrow> (case ss_mac st of None \<Rightarrow> Inl (Backend ''missing MAC address'')
        | Some m \<Rightarrow> (case ss_tap st of None \<Rightarrow> Inl (Backend ''missing tap device'')
        | Some t \<Rightarrow> (case ss_pid st of None \<Rightarrow> Inl (Backend ''missing pid'')
        | Some p \<Rightarrow> (case ss_started_at st of None \<Rightarrow> Inl (Backend ''missing started_at'')
        | Some a \<Rightarrow> Inr \<lparr>vr_name = n, vr_mac = m, vr_tap = t, vr_pid = p,
                            vr_state = Running, vr_started_at = a\<rparr>)))))"

definition slot_summary_entry :: "slot_status \<Rightarrow> string" where
  "slot_summary_entry st =
     show_nat (ss_slot st) @ '':'' @ slot_state_debug (ss_state st) @ ''(''
       @ (case ss_name st of None \<Rightarrow> ''-'' | Some n \<Rightarrow> n) @ '')''"

fun join_with :: "string \<Rightarrow> string list \<Rightarrow> string" where
  "join_with sep [] = []"
| "join_with sep [x] = x"
| "join_with sep (x # y # ys) = x @ sep @ join_with sep (y # ys)"

definition format_slot_summary :: "slot_status list \<Rightarrow> string" where
  "format_slot_summary sts = join_with '','' (map slot_summary_entry sts)"

text \<open>The two conversions agree: one succeeds with a runtime exactly when the other does.\<close>

lemma try_into_runtime_iff:
  "try_into_runtime st = Inr rt \<longleftrightarrow> runtime_from_slot_status st = Some rt"
  by (simp add: try_into_runtime_def runtime_from_slot_status_def split: option.splits)

lemma runtime_from_slot_status_Some:
  assumes "runtime_from_slot_status st = Some rt"
  shows "ss_state st = Occupied" and "ss_name st = Some (vr_name rt)"
    and "ss_mac st = Some (vr_mac rt)" and "ss_tap st = Some (vr_tap rt)"
    and "ss_pid st = Some (vr_pid rt)" and "ss_started_at st = Some (vr_started_at rt)"
  using assms
  by (auto simp: runtime_from_slot_status_def split: if_splits option.splits)

lemma runtime_from_slot_status_None:
  "ss_state st \<noteq> Occupied \<Longrightarrow> runtime_from_slot_status st = None"
  by (simp add: runtime_from_slot_status_def)

end
