(* ===== verification/NetTap.thy ===== *)
theory NetTap
  imports PoolTypes
begin

text \<open>
  \<open>src/net_tap.rs\<close>: creating a TAP device and attaching it to a bridge.  The TUN/TAP
  crate and the \<open>ip\<close> program are not part of the repository; what they answer is the
  record \<open>tap_os\<close>: the text of the build error, if any, and what running
  \<open>ip link set dev NAME master BRIDGE\<close> gave (an I/O error, or the exit status, its text
  and the bytes of standard error).
\<close>

record ip_output =
  ip_success :: bool
  ip_status_text :: string
  ip_stderr :: string

record tap_os =
  tap_build :: "string \<Rightarrow> string + unit"
  ip_link_master :: "string \<Rightarrow> string \<Rightarrow> string + ip_output"

definition is_tap_exists_error :: "string \<Rightarrow> bool" where
  "is_tap_exists_error msg =
     (let m = to_ascii_lowercase msg in
      contains m ''file exists'' \<or> contains m ''already exists''
      \<or> contains m ''device or resource busy'')"

definition attach_tap_to_bridge :: "tap_os \<Rightarrow> string \<Rightarrow> string \<Rightarrow> pool_error + unit" where
  "attach_tap_to_bridge os tap bridge =
     (let failed = ''failed to attach tap interface '' @ quoted tap @ '' to bridge ''
                     @ quoted bridge @ '': '' in
      case ip_link_master os tap bridge of
        Inl err \<Rightarrow> Inl (Backend (failed @ err))
      | Inr out \<Rightarrow>
          if ip_success out then Inr ()
          else
            (let err = trim (from_utf8_lossy (ip_stderr out));
                 detail = (if err = [] then ''ip link exited with status '' @ ip_status_text out
                           else err)
             in Inl (Backend (failed @ detail))))"

definition ensure_tap_device :: "tap_os \<Rightarrow> string \<Rightarrow> string option \<Rightarrow> pool_error + unit" where
  "ensure_tap_device os tap bridge =
     (case tap_build os tap of
        Inr _ \<Rightarrow>
          (case bridge of Some b \<Rightarrow> attach_tap_to_bridge os tap b | None \<Rightarrow> Inr ())
      | Inl err \<Rightarrow>
          if is_tap_exists_error err
          then (case bridge of Some b \<Rightarrow> attach_tap_to_bridge os tap b | None \<Rightarrow> Inr ())
          else Inl (Backend (''failed to create tap interface '' @ quoted tap @ '': '' @ err)))"

lemma ensure_tap_device_error_Backend:
  "ensure_tap_device os tap bridge = Inl e \<Longrightarrow> \<exists>m. e = Backend m"
  by (auto simp: ensure_tap_device_def attach_tap_to_bridge_def Let_def
      split: sum.splits option.splits if_splits)

text \<open>Success means: the device was built or was there, and the bridge, if any, took it.\<close>

lemma ensure_tap_device_Inr_iff:
  "ensure_tap_device os tap bridge = Inr () \<longleftrightarrow>
     (case tap_build os tap of Inr _ \<Rightarrow> True | Inl err \<Rightarrow> is_tap_exists_error err) \<and>
     (case bridge of None \<Rightarrow> True
      | Some b \<Rightarrow> (case ip_link_master os tap b of Inl _ \<Rightarrow> False | Inr out \<Rightarrow> ip_success out))"
  by (auto simp: ensure_tap_device_def attach_tap_to_bridge_def Let_def
      split: sum.splits option.splits if_splits)

end
