(* ===== verification/SlotSupervisor.thy ===== *)
theory SlotSupervisor
  imports NetTap
begin

text \<open>
  \<open>src/slot_supervisor.rs\<close>: the worker task that owns one slot.  \<open>slot_runtime\<close> is
  \<open>SlotRuntime\<close> (the reported status and the child process, if any) with one ghost
  field, \<open>rt_os\<close>, the list of the operating-system calls made so far, oldest first; no
  operation reads it.  What the operating system answers is an argument of the step that
  asks: the outcome of \<open>Command::spawn\<close>, of \<open>try_wait\<close>, of killing a child, of the TAP
  set-up.  The log of calls keeps \<open>remove_file\<close> without its result, which the source only
  writes to its own log.  Logging is left out.

  \<open>supervise_iteration\<close> is one turn of the loop of \<open>supervise_slot\<close>, on a
  \<open>loop_input\<close> that resolves what the turn waits for; \<open>supervise_slot\<close> runs turns until
  one breaks.  The slot invariant \<open>slot_wf\<close>, the abstract life cycle and its refinement
  follow.
\<close>

section \<open>State\<close>

record child =
  child_id :: "u32 option"

text \<open>The result of \<open>stop_child\<close>: \<open>start_kill\<close> may fail, then \<open>wait\<close> may.\<close>

datatype stop_outcome = Stopped | Kill_failed string | Wait_failed string

datatype os_call =
    Os_unlink_socket
  | Os_spawn "u32 option"
  | Os_spawn_failed string
  | Os_stop child stop_outcome
  | Os_reaped child
  | Os_lost child
  | Os_tap string

record slot_runtime =
  rt_status :: slot_status
  rt_child :: "child option"
  rt_os :: "os_call list"

text \<open>The runtime \<open>supervise_slot\<close> starts with.\<close>

definition initial_status :: "nat \<Rightarrow> slot_status" where
  "initial_status n =
     \<lparr>ss_slot = n, ss_generation = 0, ss_state = Empty, ss_name = None, ss_mac = None,
      ss_tap = None, ss_pid = None, ss_started_at = None, ss_last_error = None\<rparr>"

definition initial_runtime :: "nat \<Rightarrow> slot_runtime" where
  "initial_runtime n = \<lparr>rt_status = initial_status n, rt_child = None, rt_os = []\<rparr>"

definition log_os :: "os_call list \<Rightarrow> slot_runtime \<Rightarrow> slot_runtime" where
  "log_os cs rt = rt\<lparr>rt_os := rt_os rt @ cs\<rparr>"

definition cleanup_api_socket :: "slot_runtime \<Rightarrow> slot_runtime" where
  "cleanup_api_socket rt = log_os [Os_unlink_socket] rt"

definition stop_child :: "stop_outcome \<Rightarrow> child \<Rightarrow> slot_runtime \<Rightarrow> slot_runtime" where
  "stop_child out c rt = log_os [Os_stop c out] rt"

section \<open>Commands\<close>

datatype slot_command =
    ReserveVm string string string
  | MarkVmBooted string
  | ReleaseVm
  | ResetVm
  | GetVmStatus

text \<open>What the operating system answers while one command is handled.\<close>

record cmd_os =
  co_tap :: tap_os
  co_stop :: stop_outcome

definition should_spawn :: "slot_state \<Rightarrow> bool" where
  "should_spawn s = (s = Empty \<or> s = Booting \<or> s = Occupied)"

definition reserve_status :: "string \<Rightarrow> string \<Rightarrow> string \<Rightarrow> slot_status \<Rightarrow> slot_status" where
  "reserve_status name mac tap st =
     st\<lparr>ss_state := Booting, ss_name := Some name, ss_mac := Some mac, ss_tap := Some tap,
        ss_generation := ss_generation st + 1, ss_last_error := None, ss_started_at := None\<rparr>"

definition vacate_status :: "slot_status \<Rightarrow> slot_status" where
  "vacate_status st =
     st\<lparr>ss_state := Empty, ss_name := None, ss_mac := None, ss_tap := None,
        ss_generation := ss_generation st + 1, ss_last_error := None, ss_started_at := None,
        ss_pid := None\<rparr>"

text \<open>
  \<open>handle_command\<close>: the answer sent back and the new runtime.  \<open>GetVmStatus\<close> has a
  channel of its own in the source, which carries a bare status; here it is an \<open>Inr\<close>.
\<close>

fun handle_command ::
  "cmd_os \<Rightarrow> string option \<Rightarrow> slot_command \<Rightarrow> slot_runtime
     \<Rightarrow> (pool_error + slot_status) \<times> slot_runtime" where
  "handle_command os bridge GetVmStatus rt = (Inr (rt_status rt), rt)"
| "handle_command os bridge (ReserveVm name mac tap) rt =
     (if ss_state (rt_status rt) = Empty then
        (case ensure_tap_device (co_tap os) tap bridge of
           Inr _ \<Rightarrow>
             (let rt' = log_os [Os_tap tap]
                          (rt\<lparr>rt_status := reserve_status name mac tap (rt_status rt)\<rparr>)
              in (Inr (rt_status rt'), rt'))
         | Inl err \<Rightarrow> (Inl err, log_os [Os_tap tap] rt))
      else
        (Inl (InvalidTransition (ss_slot (rt_status rt)) (ss_state (rt_status rt)) ''claim''), rt))"
| "handle_command os bridge (MarkVmBooted started_at) rt =
     (if ss_state (rt_status rt) = Booting then
        (let rt' = rt\<lparr>rt_status := (rt_status rt)\<lparr>ss_state := Occupied,
                                                 ss_started_at := Some started_at\<rparr>\<rparr>
         in (Inr (rt_status rt'), rt'))
      else
        (Inl (InvalidTransition (ss_slot (rt_status rt)) (ss_state (rt_status rt)) ''mark_booted''),
         rt))"
| "handle_command os bridge ReleaseVm rt =
     (if ss_state (rt_status rt) = Occupied then
        (let rt1 = rt\<lparr>rt_status := vacate_status (rt_status rt)\<rparr>;
             rt2 = (case rt_child rt1 of
                      Some c \<Rightarrow> (stop_child (co_stop os) c rt1)\<lparr>rt_child := None\<rparr>
                    | None \<Rightarrow> rt1);
             rt3 = cleanup_api_socket rt2
         in (Inr (rt_status rt3), rt3))
      else
        (Inl (InvalidTransition (ss_slot (rt_status rt)) (ss_state (rt_status rt)) ''release''), rt))"
| "handle_command os bridge ResetVm rt =
     (let rt1 = (case rt_child rt of
                   Some c \<Rightarrow> (stop_child (co_stop os) c rt)\<lparr>rt_child := None\<rparr>
                 | None \<Rightarrow> rt);
          rt2 = cleanup_api_socket rt1;
          rt3 = rt2\<lparr>rt_status := vacate_status (rt_status rt2)\<rparr>
      in (Inr (rt_status rt3), rt3))"

section \<open>The supervision loop\<close>

text \<open>\<open>Command::spawn\<close> gives the error text, or the child's id (\<open>Child::id\<close>).\<close>

definition spawn_phase :: "string + u32 option \<Rightarrow> slot_runtime \<Rightarrow> slot_runtime" where
  "spawn_phase out rt =
     (if rt_child rt = None \<and> should_spawn (ss_state (rt_status rt)) then
        (let rt1 = cleanup_api_socket rt in
         case out of
           Inr pid \<Rightarrow>
             log_os [Os_spawn pid]
               (rt1\<lparr>rt_status := (rt_status rt1)\<lparr>ss_pid := pid, ss_last_error := None\<rparr>,
                    rt_child := Some \<lparr>child_id = pid\<rparr>\<rparr>)
         | Inl err \<Rightarrow>
             log_os [Os_spawn_failed err]
               (rt1\<lparr>rt_status := (rt_status rt1)\<lparr>ss_state := Failed, ss_last_error := Some err,
                                                ss_pid := None\<rparr>\<rparr>))
      else rt)"

text \<open>\<open>try_wait\<close>: the child runs, has exited, or cannot be polled.\<close>

datatype wait_outcome = Still_running | Exited | Wait_error string

definition poll_phase :: "wait_outcome \<Rightarrow> slot_runtime \<Rightarrow> slot_runtime" where
  "poll_phase out rt =
     (case rt_child rt of
        None \<Rightarrow> rt
      | Some c \<Rightarrow>
          (case out of
             Exited \<Rightarrow>
               (let rt1 = log_os [Os_reaped c]
                            (rt\<lparr>rt_child := None, rt_status := (rt_status rt)\<lparr>ss_pid := None\<rparr>\<rparr>);
                    rt2 = cleanup_api_socket rt1
                in case ss_state (rt_status rt2) of
                     Empty \<Rightarrow> rt2
                   | Booting \<Rightarrow> rt2\<lparr>rt_status := vacate_status (rt_status rt2)\<rparr>
                   | Occupied \<Rightarrow> rt2\<lparr>rt_status := vacate_status (rt_status rt2)\<rparr>
                   | Failed \<Rightarrow> rt2)
           | Still_running \<Rightarrow> rt
           | Wait_error err \<Rightarrow>
               cleanup_api_socket
                 (log_os [Os_lost c]
                   (rt\<lparr>rt_child := None,
                       rt_status := (rt_status rt)\<lparr>ss_pid := None, ss_state := Failed,
                                                  ss_last_error := Some err\<rparr>\<rparr>))))"

text \<open>The commands \<open>try_recv\<close> drains, with the answers given, in order.\<close>

fun drain_commands ::
  "string option \<Rightarrow> (cmd_os \<times> slot_command) list \<Rightarrow> slot_runtime
     \<Rightarrow> (pool_error + slot_status) list \<times> slot_runtime" where
  "drain_commands bridge [] rt = ([], rt)"
| "drain_commands bridge ((os, cmd) # cs) rt =
     (case handle_command os bridge cmd rt of (r, rt1) \<Rightarrow>
        (case drain_commands bridge cs rt1 of (rs, rt2) \<Rightarrow> (r # rs, rt2)))"

definition stop_worker :: "stop_outcome \<Rightarrow> slot_runtime \<Rightarrow> slot_runtime" where
  "stop_worker out rt =
     cleanup_api_socket (case rt_child rt of Some c \<Rightarrow> stop_child out c rt | None \<Rightarrow> rt)"

text \<open>
  What ends the \<open>select!\<close>: the shutdown channel changed (its sender gone, or a value), a
  command, a closed command channel, or the 200 ms timer.
\<close>

datatype select_outcome =
    Sel_shutdown_closed
  | Sel_shutdown_value bool
  | Sel_command cmd_os slot_command
  | Sel_channel_closed
  | Sel_timeout

record loop_input =
  li_shutdown :: bool
  li_spawn :: "string + u32 option"
  li_drained :: "(cmd_os \<times> slot_command) list"
  li_wait :: wait_outcome
  li_select :: select_outcome
  li_stop :: stop_outcome

record loop_result =
  lr_runtime :: slot_runtime
  lr_answers :: "(pool_error + slot_status) list"
  lr_break :: bool

definition supervise_iteration ::
  "string option \<Rightarrow> loop_input \<Rightarrow> slot_runtime \<Rightarrow> loop_result" where
  "supervise_iteration bridge li rt =
     (if li_shutdown li
      then \<lparr>lr_runtime = stop_worker (li_stop li) rt, lr_answers = [], lr_break = True\<rparr>
      else
        (let rt1 = spawn_phase (li_spawn li) rt in
         case drain_commands bridge (li_drained li) rt1 of (rs, rt2) \<Rightarrow>
           (let rt3 = poll_phase (li_wait li) rt2 in
            case li_select li of
              Sel_shutdown_closed \<Rightarrow>
                \<lparr>lr_runtime = stop_worker (li_stop li) rt3, lr_answers = rs, lr_break = True\<rparr>
            | Sel_shutdown_value v \<Rightarrow>
                if v
                then \<lparr>lr_runtime = stop_worker (li_stop li) rt3, lr_answers = rs, lr_break = True\<rparr>
                else \<lparr>lr_runtime = rt3, lr_answers = rs, lr_break = False\<rparr>
            | Sel_command os cmd \<Rightarrow>
                (case handle_command os bridge cmd rt3 of (r, rt4) \<Rightarrow>
                   \<lparr>lr_runtime = rt4, lr_answers = rs @ [r], lr_break = False\<rparr>)
            | Sel_channel_closed \<Rightarrow>
                \<lparr>lr_runtime = stop_worker (li_stop li) rt3, lr_answers = rs, lr_break = True\<rparr>
            | Sel_timeout \<Rightarrow> \<lparr>lr_runtime = rt3, lr_answers = rs, lr_break = False\<rparr>)))"

text \<open>
  \<open>supervise_slot\<close> on a finite list of turns: the last runtime and whether the loop has
  ended within them.
\<close>

fun supervise_slot ::
  "string option \<Rightarrow> loop_input list \<Rightarrow> slot_runtime \<Rightarrow> slot_runtime \<times> bool" where
  "supervise_slot bridge [] rt = (rt, False)"
| "supervise_slot bridge (li # lis) rt =
     (let res = supervise_iteration bridge li rt in
      if lr_break res then (lr_runtime res, True)
      else supervise_slot bridge lis (lr_runtime res))"

end
