(* ===== verification/SlotInvariant.thy ===== *)
theory SlotInvariant
  imports SlotSupervisor
begin

text \<open>
  What every slot worker keeps.  \<open>slot_invariant\<close> is the interface: a predicate that the
  starting runtime satisfies and that spawning, polling, each command and the final stop
  preserve; what a whole turn and a whole run of the supervision loop preserve is proved
  once inside it.  The interpretations are the well-formedness of a slot (which fields are
  set in which state, and that the reported pid is the child's) and the slot number.

  \<open>slot_event\<close> names the atomic steps of a worker; a turn of the loop is a list of them.
\<close>

section \<open>Atomic events of a worker\<close>

datatype slot_event =
    Ev_spawn "string + u32 option"
  | Ev_poll wait_outcome
  | Ev_command cmd_os slot_command

fun slot_step :: "string option \<Rightarrow> slot_event \<Rightarrow> slot_runtime \<Rightarrow> slot_runtime" where
  "slot_step bridge (Ev_spawn out) rt = spawn_phase out rt"
| "slot_step bridge (Ev_poll out) rt = poll_phase out rt"
| "slot_step bridge (Ev_command os cmd) rt = snd (handle_command os bridge cmd rt)"

fun slot_run :: "string option \<Rightarrow> slot_event list \<Rightarrow> slot_runtime \<Rightarrow> slot_runtime" where
  "slot_run bridge [] rt = rt"
| "slot_run bridge (e # es) rt = slot_run bridge es (slot_step bridge e rt)"

lemma slot_run_append:
  "slot_run bridge (es @ fs) rt = slot_run bridge fs (slot_run bridge es rt)"
  by (induction es arbitrary: rt) simp_all

text \<open>The events of one turn that does not break, in the order of the loop body.\<close>

definition turn_events :: "loop_input \<Rightarrow> slot_event list" where
  "turn_events li =
     [Ev_spawn (li_spawn li)] @ map (\<lambda>(os, cmd). Ev_command os cmd) (li_drained li)
       @ [Ev_poll (li_wait li)]
       @ (case li_select li of Sel_command os cmd \<Rightarrow> [Ev_command os cmd] | _ \<Rightarrow> [])"

lemma drain_commands_run:
  "snd (drain_commands bridge cs rt) = slot_run bridge (map (\<lambda>(os, cmd). Ev_command os cmd) cs) rt"
  by (induction cs arbitrary: rt) (auto simp: case_prod_beta)

lemma drain_commands_length: "length (fst (drain_commands bridge cs rt)) = length cs"
  by (induction cs arbitrary: rt) (auto simp: case_prod_beta)

text \<open>A turn that goes on is exactly the run of its events.\<close>

lemma supervise_iteration_run:
  "\<not> lr_break (supervise_iteration bridge li rt) \<Longrightarrow>
   lr_runtime (supervise_iteration bridge li rt) = slot_run bridge (turn_events li) rt"
  using drain_commands_run [of bridge "li_drained li" "spawn_phase (li_spawn li) rt"]
  by (auto simp: supervise_iteration_def turn_events_def Let_def slot_run_append
      split: prod.splits select_outcome.splits if_splits)

lemma supervise_iteration_break:
  "lr_break (supervise_iteration bridge li rt) \<longleftrightarrow>
     li_shutdown li \<or> li_select li = Sel_shutdown_closed
     \<or> li_select li = Sel_shutdown_value True \<or> li_select li = Sel_channel_closed"
  by (auto simp: supervise_iteration_def Let_def split: prod.splits select_outcome.splits)

section \<open>The invariant interface\<close>

locale slot_invariant =
  fixes I :: "nat \<Rightarrow> slot_runtime \<Rightarrow> bool"
  assumes inv_init: "I n (initial_runtime n)"
    and inv_spawn: "I n rt \<Longrightarrow> I n (spawn_phase out rt)"
    and inv_poll: "I n rt \<Longrightarrow> I n (poll_phase w rt)"
    and inv_command: "I n rt \<Longrightarrow> I n (snd (handle_command os bridge cmd rt))"
    and inv_stop: "I n rt \<Longrightarrow> I n (stop_worker so rt)"
begin

lemma inv_step: "I n rt \<Longrightarrow> I n (slot_step bridge e rt)"
  by (cases e) (simp_all add: inv_spawn inv_poll inv_command)

lemma inv_run: "I n rt \<Longrightarrow> I n (slot_run bridge es rt)"
  by (induction es arbitrary: rt) (simp_all add: inv_step)

lemma inv_drain: "I n rt \<Longrightarrow> I n (snd (drain_commands bridge cs rt))"
  by (simp add: drain_commands_run inv_run)

lemma inv_iteration:
  assumes "I n rt"
  shows "I n (lr_runtime (supervise_iteration bridge li rt))"
proof -
  have "I n (snd (drain_commands bridge (li_drained li) (spawn_phase (li_spawn li) rt)))"
    using assms by (intro inv_drain inv_spawn)
  then have polled: "I n (poll_phase (li_wait li)
      (snd (drain_commands bridge (li_drained li) (spawn_phase (li_spawn li) rt))))"
    by (rule inv_poll)
  show ?thesis
    using assms polled inv_stop inv_command [OF polled]
    by (auto simp: supervise_iteration_def Let_def split: prod.splits select_outcome.splits)
      (metis snd_conv)+
qed

lemma inv_supervise: "I n rt \<Longrightarrow> I n (fst (supervise_slot bridge lis rt))"
  by (induction lis arbitrary: rt) (simp_all add: Let_def inv_iteration)

end

section \<open>Well-formed slots\<close>

definition child_matches :: "slot_runtime \<Rightarrow> bool" where
  "child_matches rt =
     (ss_pid (rt_status rt) = (case rt_child rt of None \<Rightarrow> None | Some c \<Rightarrow> child_id c))"

definition identity_unset :: "slot_status \<Rightarrow> bool" where
  "identity_unset st = (ss_name st = None \<and> ss_mac st = None \<and> ss_tap st = None)"

definition identity_set :: "slot_status \<Rightarrow> bool" where
  "identity_set st = (ss_name st \<noteq> None \<and> ss_mac st \<noteq> None \<and> ss_tap st \<noteq> None)"

definition status_wf :: "slot_status \<Rightarrow> bool" where
  "status_wf st =
     (case ss_state st of
        Empty \<Rightarrow> identity_unset st \<and> ss_started_at st = None \<and> ss_last_error st = None
      | Booting \<Rightarrow> identity_set st \<and> ss_started_at st = None \<and> ss_last_error st = None
      | Occupied \<Rightarrow> identity_set st \<and> ss_started_at st \<noteq> None \<and> ss_last_error st = None
      | Failed \<Rightarrow> (identity_set st \<or> identity_unset st \<and> ss_started_at st = None)
                   \<and> ss_last_error st \<noteq> None)"

definition slot_wf :: "slot_runtime \<Rightarrow> bool" where
  "slot_wf rt =
     (status_wf (rt_status rt) \<and> child_matches rt
      \<and> (ss_state (rt_status rt) = Failed \<longrightarrow> rt_child rt = None))"

lemmas slot_wf_defs =
  slot_wf_def status_wf_def child_matches_def identity_set_def identity_unset_def

lemmas slot_op_defs =
  log_os_def cleanup_api_socket_def stop_child_def stop_worker_def should_spawn_def
  reserve_status_def vacate_status_def initial_runtime_def initial_status_def

lemma slot_wf_initial [wf_intros]: "slot_wf (initial_runtime n)"
  by (simp add: slot_wf_defs slot_op_defs)

lemma slot_wf_spawn [wf_intros]: "slot_wf rt \<Longrightarrow> slot_wf (spawn_phase out rt)"
  by (cases "ss_state (rt_status rt)")
    (auto simp: spawn_phase_def slot_wf_defs slot_op_defs Let_def split: sum.splits)

lemma slot_wf_poll [wf_intros]: "slot_wf rt \<Longrightarrow> slot_wf (poll_phase w rt)"
  by (cases "ss_state (rt_status rt)")
    (auto simp: poll_phase_def slot_wf_defs slot_op_defs Let_def
      split: wait_outcome.splits option.splits)

lemma slot_wf_command [wf_intros]: "slot_wf rt \<Longrightarrow> slot_wf (snd (handle_command os bridge cmd rt))"
  by (cases cmd; cases "ss_state (rt_status rt)")
    (auto simp: slot_wf_defs slot_op_defs Let_def split: sum.splits option.splits)

lemma slot_wf_stop [wf_intros]: "slot_wf rt \<Longrightarrow> slot_wf (stop_worker out rt)"
  by (auto simp: slot_wf_defs slot_op_defs split: option.splits slot_state.splits)

interpretation wf: slot_invariant "\<lambda>n. slot_wf"
  by unfold_locales (rule wf_intros; assumption?)+

text \<open>The slot number never changes.\<close>

lemma spawn_phase_slot [frame_simps]:
  "ss_slot (rt_status (spawn_phase out rt)) = ss_slot (rt_status rt)"
  by (auto simp: spawn_phase_def slot_op_defs Let_def split: sum.splits)

lemma poll_phase_slot [frame_simps]:
  "ss_slot (rt_status (poll_phase w rt)) = ss_slot (rt_status rt)"
  by (auto simp: poll_phase_def slot_op_defs Let_def
      split: wait_outcome.splits option.splits slot_state.splits)

lemma handle_command_slot [frame_simps]:
  "ss_slot (rt_status (snd (handle_command os bridge cmd rt))) = ss_slot (rt_status rt)"
  by (cases cmd) (auto simp: slot_op_defs Let_def split: sum.splits option.splits)

lemma stop_worker_status [frame_simps]: "rt_status (stop_worker out rt) = rt_status rt"
  by (auto simp: slot_op_defs split: option.splits)

definition slot_numbered :: "nat \<Rightarrow> slot_runtime \<Rightarrow> bool" where
  "slot_numbered n rt = (ss_slot (rt_status rt) = n)"

interpretation num: slot_invariant slot_numbered
  by unfold_locales (simp_all add: slot_numbered_def frame_simps initial_runtime_def initial_status_def)

end
