(* ===== verification/SlotProps.thy ===== *)
theory SlotProps
  imports SlotInvariant
begin

text \<open>
  The theorems about one slot worker: its invariant along any run of the supervision loop,
  the refinement of the commands and of the child's exits to an abstract life cycle, what
  the generation counter guarantees, the accounting of child processes, and when the loop
  ends.
\<close>

section \<open>The abstract life cycle\<close>

text \<open>
  What a slot promises its pool: it is free, reserved for a VM (name, MAC, TAP), live with
  a start time, or broken, with the identity it had when it broke.
\<close>

type_synonym identity = "string \<times> string \<times> string"

datatype vm_phase = Free | Reserved identity | Live identity string | Broken "identity option"

definition identity_of :: "slot_status \<Rightarrow> identity option" where
  "identity_of st =
     (case (ss_name st, ss_mac st, ss_tap st) of
        (Some n, Some m, Some t) \<Rightarrow> Some (n, m, t)
      | _ \<Rightarrow> None)"

definition abs_phase :: "slot_status \<Rightarrow> vm_phase option" where
  "abs_phase st =
     (case ss_state st of
        Empty \<Rightarrow> Some Free
      | Booting \<Rightarrow> map_option Reserved (identity_of st)
      | Occupied \<Rightarrow> (case (identity_of st, ss_started_at st) of
                       (Some i, Some a) \<Rightarrow> Some (Live i a)
                     | _ \<Rightarrow> None)
      | Failed \<Rightarrow> Some (Broken (identity_of st)))"

text \<open>The life cycle: whether a command is accepted, and the phase after it.\<close>

fun phase_command :: "bool \<Rightarrow> slot_command \<Rightarrow> vm_phase \<Rightarrow> bool \<times> vm_phase" where
  "phase_command tap_ok (ReserveVm n m t) Free =
     (if tap_ok then (True, Reserved (n, m, t)) else (False, Free))"
| "phase_command tap_ok (MarkVmBooted a) (Reserved i) = (True, Live i a)"
| "phase_command tap_ok ReleaseVm (Live i a) = (True, Free)"
| "phase_command tap_ok ResetVm p = (True, Free)"
| "phase_command tap_ok GetVmStatus p = (True, p)"
| "phase_command tap_ok cmd p = (False, p)"

fun phase_spawn_failed :: "vm_phase \<Rightarrow> vm_phase" where
  "phase_spawn_failed Free = Broken None"
| "phase_spawn_failed (Reserved i) = Broken (Some i)"
| "phase_spawn_failed (Live i a) = Broken (Some i)"
| "phase_spawn_failed (Broken i) = Broken i"

fun phase_exited :: "vm_phase \<Rightarrow> vm_phase" where
  "phase_exited (Broken i) = Broken i"
| "phase_exited p = Free"

definition command_tap_ok :: "cmd_os \<Rightarrow> string option \<Rightarrow> slot_command \<Rightarrow> bool" where
  "command_tap_ok os bridge cmd =
     (case cmd of ReserveVm n m t \<Rightarrow> is_ok (ensure_tap_device (co_tap os) t bridge) | _ \<Rightarrow> True)"

lemma abs_phase_wf: "status_wf st \<Longrightarrow> \<exists>p. abs_phase st = Some p"
  by (auto simp: abs_phase_def identity_of_def slot_wf_defs split: slot_state.splits)

lemmas abs_defs = abs_phase_def identity_of_def command_tap_ok_def

lemma handle_command_abs:
  assumes "slot_wf rt" and "abs_phase (rt_status rt) = Some p"
    and "handle_command os bridge cmd rt = (r, rt')"
    and "phase_command (command_tap_ok os bridge cmd) cmd p = (ok, p')"
  shows "is_ok r = ok \<and> abs_phase (rt_status rt') = Some p'"
proof (cases cmd)
  case (ReserveVm n m t)
  with assms show ?thesis
    by (cases "ss_state (rt_status rt)"; cases "ensure_tap_device (co_tap os) t bridge")
      (auto simp: abs_defs slot_op_defs Let_def split: option.splits)
next
  case (MarkVmBooted a)
  with assms show ?thesis
    by (cases "ss_state (rt_status rt)") (auto simp: abs_defs Let_def split: option.splits)
next
  case ReleaseVm
  with assms show ?thesis
    by (cases "ss_state (rt_status rt)")
      (auto simp: abs_defs slot_op_defs Let_def split: option.splits)
next
  case ResetVm
  with assms show ?thesis
    by (auto simp: abs_defs slot_op_defs Let_def split: option.splits)
next
  case GetVmStatus
  with assms show ?thesis by auto
qed

lemma spawn_failed_abs:
  assumes "slot_wf rt" and "abs_phase (rt_status rt) = Some p" and "rt_child rt = None"
  shows "abs_phase (rt_status (spawn_phase (Inl err) rt)) = Some (phase_spawn_failed p)"
  using assms
  by (cases "ss_state (rt_status rt)")
    (auto simp: spawn_phase_def abs_defs slot_wf_defs slot_op_defs Let_def split: option.splits)

lemma spawn_ok_abs:
  "abs_phase (rt_status (spawn_phase (Inr pid) rt)) = abs_phase (rt_status rt)"
  by (cases "ss_state (rt_status rt)")
    (simp_all add: spawn_phase_def abs_defs slot_op_defs Let_def)

lemma exited_abs:
  assumes "slot_wf rt" and "abs_phase (rt_status rt) = Some p" and "rt_child rt = Some c"
  shows "abs_phase (rt_status (poll_phase Exited rt)) = Some (phase_exited p)"
  using assms
  by (cases "ss_state (rt_status rt)")
    (auto simp: poll_phase_def abs_defs slot_wf_defs slot_op_defs Let_def split: option.splits)

text \<open>
  C2: Refinement of the slot commands.  On a well-formed slot every command is accepted
  or refused exactly as the abstract life cycle says, and leaves the slot in the phase the
  life cycle moves to; a refused command leaves the reported status untouched.
\<close>

theorem handle_command_refines:
  assumes "slot_wf rt" and "handle_command os bridge cmd rt = (r, rt')"
  shows "\<exists>p. abs_phase (rt_status rt) = Some p \<and>
     (case phase_command (command_tap_ok os bridge cmd) cmd p of
        (ok, p') \<Rightarrow> is_ok r = ok \<and> abs_phase (rt_status rt') = Some p'
          \<and> (\<not> ok \<longrightarrow> rt_status rt' = rt_status rt))"
proof -
  from assms(1) obtain p where p: "abs_phase (rt_status rt) = Some p"
    using abs_phase_wf by (auto simp: slot_wf_def)
  obtain ok p' where c: "phase_command (command_tap_ok os bridge cmd) cmd p = (ok, p')"
    by fastforce
  have "\<not> is_ok r \<Longrightarrow> rt_status rt' = rt_status rt"
    using assms(2)
    by (cases cmd) (auto simp: Let_def slot_op_defs split: if_splits sum.splits)
  with handle_command_abs [OF assms(1) p assms(2) c] p c show ?thesis by auto
qed

definition demo_tap_os :: tap_os where
  "demo_tap_os = \<lparr>tap_build = (\<lambda>_. Inr ()),
     ip_link_master = (\<lambda>_ _. Inr \<lparr>ip_success = True, ip_status_text = [], ip_stderr = []\<rparr>)\<rparr>"

definition demo_cmd_os :: cmd_os where
  "demo_cmd_os = \<lparr>co_tap = demo_tap_os, co_stop = Stopped\<rparr>"

theorem handle_command_refines_witness:
  "\<exists>p. abs_phase (rt_status (initial_runtime 0)) = Some p \<and>
     (case phase_command (command_tap_ok demo_cmd_os None (ReserveVm ''a'' ''m'' ''tap0''))
             (ReserveVm ''a'' ''m'' ''tap0'') p of
        (ok, p') \<Rightarrow>
          is_ok (fst (handle_command demo_cmd_os None (ReserveVm ''a'' ''m'' ''tap0'')
                        (initial_runtime 0))) = ok
          \<and> abs_phase (rt_status (snd (handle_command demo_cmd_os None
               (ReserveVm ''a'' ''m'' ''tap0'') (initial_runtime 0)))) = Some p'
          \<and> (\<not> ok \<longrightarrow> rt_status (snd (handle_command demo_cmd_os None
               (ReserveVm ''a'' ''m'' ''tap0'') (initial_runtime 0)))
               = rt_status (initial_runtime 0)))"
  by (rule handle_command_refines [OF slot_wf_initial]) simp

section \<open>The invariant along the loop\<close>

text \<open>
  The slot invariant.  Whatever the operating system answers and whatever commands
  arrive, after any number of turns of the supervision loop the slot is well formed: the
  identity, start time and error fields are set exactly as its state demands, the reported
  pid is the child's, a failed slot has no child, and the slot number is the worker's own.
\<close>

theorem supervise_slot_wf:
  "slot_wf (fst (supervise_slot bridge lis (initial_runtime n)))
   \<and> ss_slot (rt_status (fst (supervise_slot bridge lis (initial_runtime n)))) = n"
  using wf.inv_supervise [OF wf.inv_init] num.inv_supervise [OF num.inv_init]
  by (simp add: slot_numbered_def)

section \<open>Generations\<close>

definition identity_fields :: "slot_status \<Rightarrow> string option \<times> string option \<times> string option" where
  "identity_fields st = (ss_name st, ss_mac st, ss_tap st)"

definition bumps :: "slot_status \<Rightarrow> slot_status \<Rightarrow> bool" where
  "bumps st st' = (ss_generation st' = ss_generation st + 1)"

definition same_generation :: "slot_status \<Rightarrow> slot_status \<Rightarrow> bool" where
  "same_generation st st' =
     (ss_generation st' = ss_generation st \<and> identity_fields st' = identity_fields st
      \<and> ss_state st \<le> ss_state st')"

lemmas generation_defs = bumps_def same_generation_def identity_fields_def life_order_defs

text \<open>Each atomic step starts a new generation, or keeps the identity and never moves back.\<close>

lemma slot_step_generation:
  "bumps (rt_status rt) (rt_status (slot_step bridge e rt))
   \<or> same_generation (rt_status rt) (rt_status (slot_step bridge e rt))"
proof (cases e)
  case (Ev_spawn out)
  then show ?thesis
    by (cases "ss_state (rt_status rt)")
      (auto simp: spawn_phase_def generation_defs slot_op_defs Let_def split: sum.splits)
next
  case (Ev_poll w)
  then show ?thesis
    by (cases "ss_state (rt_status rt)")
      (auto simp: poll_phase_def generation_defs slot_op_defs Let_def
        split: option.splits wait_outcome.splits)
next
  case (Ev_command os cmd)
  then show ?thesis
    by (cases cmd)
      (auto simp: generation_defs slot_op_defs Let_def split: sum.splits option.splits)
qed

fun bump_count :: "string option \<Rightarrow> slot_event list \<Rightarrow> slot_runtime \<Rightarrow> nat" where
  "bump_count bridge [] rt = 0"
| "bump_count bridge (e # es) rt =
     (if same_generation (rt_status rt) (rt_status (slot_step bridge e rt)) then 0 else 1)
       + bump_count bridge es (slot_step bridge e rt)"

lemma bump_count_le: "bump_count bridge es rt \<le> length es"
  by (induction es arbitrary: rt) (auto simp: add_le_mono le_SucI)

lemma slot_run_generation:
  "ss_generation (rt_status (slot_run bridge es rt))
     = ss_generation (rt_status rt) + of_nat (bump_count bridge es rt)"
proof (induction es arbitrary: rt)
  case (Cons e es)
  have "ss_generation (rt_status (slot_step bridge e rt)) =
      ss_generation (rt_status rt)
        + of_nat (if same_generation (rt_status rt) (rt_status (slot_step bridge e rt)) then 0 else 1)"
    using slot_step_generation [of rt bridge e] by (auto simp: same_generation_def bumps_def)
  with Cons.IH show ?case by (simp add: algebra_simps)
qed simp

lemma same_generation_refl: "same_generation st st"
  by (simp add: same_generation_def)

lemma same_generation_trans:
  "same_generation a b \<Longrightarrow> same_generation b c \<Longrightarrow> same_generation a c"
  by (auto simp: same_generation_def)

lemma slot_run_no_bump:
  "bump_count bridge es rt = 0 \<Longrightarrow>
   same_generation (rt_status rt) (rt_status (slot_run bridge es rt))"
  by (induction es arbitrary: rt)
    (auto simp: same_generation_refl intro: same_generation_trans split: if_splits)

text \<open>
  C11: The generation counter identifies a tenancy.  If two looks at a slot, fewer than
  2^64 atomic steps apart, show the same generation, then nothing was reserved, released,
  reset or vacated in between: name, MAC and TAP are the same, and the state has only moved
  forward (Empty, Booting, Occupied, Failed).
\<close>

theorem generation_identifies_tenancy:
  assumes "length es < 2 ^ 64"
    and "ss_generation (rt_status (slot_run bridge es rt)) = ss_generation (rt_status rt)"
  shows "ss_name (rt_status (slot_run bridge es rt)) = ss_name (rt_status rt)
    \<and> ss_mac (rt_status (slot_run bridge es rt)) = ss_mac (rt_status rt)
    \<and> ss_tap (rt_status (slot_run bridge es rt)) = ss_tap (rt_status rt)
    \<and> ss_state (rt_status rt) \<le> ss_state (rt_status (slot_run bridge es rt))"
proof -
  let ?k = "bump_count bridge es rt"
  have "(of_nat ?k :: u64) = 0"
    using assms(2) slot_run_generation [of bridge es rt] by simp
  then have "unat (of_nat ?k :: u64) = 0" by simp
  moreover have "?k < 2 ^ 64"
    using bump_count_le [of bridge es rt] assms(1) by (rule le_less_trans)
  ultimately have "?k = 0" by (simp add: unat_of_nat)
  then have "same_generation (rt_status rt) (rt_status (slot_run bridge es rt))"
    by (rule slot_run_no_bump)
  then show ?thesis by (simp add: same_generation_def identity_fields_def)
qed

definition demo_booting :: slot_runtime where
  "demo_booting = snd (handle_command demo_cmd_os None (ReserveVm ''a'' ''m'' ''tap0'') (initial_runtime 0))"

theorem generation_identifies_tenancy_witness:
  "ss_name (rt_status (slot_run None [Ev_command demo_cmd_os (MarkVmBooted ''t'')] demo_booting))
     = ss_name (rt_status demo_booting)
   \<and> ss_mac (rt_status (slot_run None [Ev_command demo_cmd_os (MarkVmBooted ''t'')] demo_booting))
     = ss_mac (rt_status demo_booting)
   \<and> ss_tap (rt_status (slot_run None [Ev_command demo_cmd_os (MarkVmBooted ''t'')] demo_booting))
     = ss_tap (rt_status demo_booting)
   \<and> ss_state (rt_status demo_booting)
     \<le> ss_state (rt_status (slot_run None [Ev_command demo_cmd_os (MarkVmBooted ''t'')] demo_booting))"
  by (rule generation_identifies_tenancy) (simp_all add: Let_def)

end
