(* ===== verification/SlotProcess.thy ===== *)
theory SlotProcess
  imports SlotProps "HOL-Library.Multiset"
begin

text \<open>
  The operating-system side of one slot worker: which child processes it has started and
  ended, that the API socket is removed before every start, what becomes of a failed slot,
  and when the supervision loop ends.
\<close>

section \<open>Accounting of child processes\<close>

text \<open>
  A reader of the log of operating-system calls, call by call: whether the worker holds a
  child, and which.  A start is only in order when none is held, and only the child that is
  held can be stopped, found exited or lost; anything else is \<open>None\<close>.
\<close>

datatype holding = Idle | Holds child

fun child_call :: "os_call \<Rightarrow> holding \<Rightarrow> holding option" where
  "child_call (Os_spawn pid) h = (if h = Idle then Some (Holds \<lparr>child_id = pid\<rparr>) else None)"
| "child_call (Os_stop c out) h = (if h = Holds c then Some Idle else None)"
| "child_call (Os_reaped c) h = (if h = Holds c then Some Idle else None)"
| "child_call (Os_lost c) h = (if h = Holds c then Some Idle else None)"
| "child_call call h = Some h"

fun child_calls :: "holding \<Rightarrow> os_call list \<Rightarrow> holding option" where
  "child_calls h [] = Some h"
| "child_calls h (call # cs) = Option.bind (child_call call h) (\<lambda>h'. child_calls h' cs)"

text \<open>
  The processes started, those that are known to be gone (killed and waited for, or found
  exited), and those given up because the kill, the wait or the poll failed: these may live on.
\<close>

fun started :: "os_call list \<Rightarrow> child list" where
  "started [] = []"
| "started (Os_spawn pid # cs) = \<lparr>child_id = pid\<rparr> # started cs"
| "started (c # cs) = started cs"

fun gone :: "os_call list \<Rightarrow> child list" where
  "gone [] = []"
| "gone (Os_stop c Stopped # cs) = c # gone cs"
| "gone (Os_reaped c # cs) = c # gone cs"
| "gone (c # cs) = gone cs"

fun given_up :: "os_call list \<Rightarrow> child list" where
  "given_up [] = []"
| "given_up (Os_stop c (Kill_failed err) # cs) = c # given_up cs"
| "given_up (Os_stop c (Wait_failed err) # cs) = c # given_up cs"
| "given_up (Os_lost c # cs) = c # given_up cs"
| "given_up (c # cs) = given_up cs"

lemma child_calls_append [simp]:
  "child_calls h (xs @ ys) = Option.bind (child_calls h xs) (\<lambda>h'. child_calls h' ys)"
  by (induction xs arbitrary: h) (simp_all add: Option.bind_assoc)

lemma started_append [simp]: "started (xs @ ys) = started xs @ started ys"
  by (induction xs rule: started.induct) simp_all

lemma gone_append [simp]: "gone (xs @ ys) = gone xs @ gone ys"
  by (induction xs rule: gone.induct) simp_all

lemma given_up_append [simp]: "given_up (xs @ ys) = given_up xs @ given_up ys"
  by (induction xs rule: given_up.induct) simp_all

definition held :: "slot_runtime \<Rightarrow> holding" where
  "held rt = (case rt_child rt of None \<Rightarrow> Idle | Some c \<Rightarrow> Holds c)"

definition held_list :: "holding \<Rightarrow> child list" where
  "held_list h = (case h of Idle \<Rightarrow> [] | Holds c \<Rightarrow> [c])"

lemma held_list_simps [simp]: "held_list Idle = []" "held_list (Holds c) = [c]"
  by (simp_all add: held_list_def)

text \<open>Every process started is gone, given up or still held: nothing is forgotten.\<close>

lemma child_calls_count:
  "child_calls h cs = Some h' \<Longrightarrow>
   mset (held_list h) + mset (started cs) = mset (gone cs) + mset (given_up cs) + mset (held_list h')"
proof (induction cs arbitrary: h)
  case (Cons call cs)
  then obtain h1 where c: "child_call call h = Some h1" and r: "child_calls h1 cs = Some h'"
    by (auto simp: Option.bind_eq_Some_conv)
  have "mset (held_list h) + mset (started [call]) = mset (gone [call]) + mset (given_up [call]) + mset (held_list h1)"
  proof (cases call)
    case (Os_stop ch out)
    with c show ?thesis by (cases out) (auto split: if_splits)
  qed (use c in \<open>auto split: if_splits\<close>)
  with Cons.IH [OF r] have "mset (held_list h) + mset (started [call]) + mset (started cs)
      = mset (gone [call]) + mset (gone cs) + (mset (given_up [call]) + mset (given_up cs)) + mset (held_list h')"
    by (simp add: add.assoc add.left_commute [of "mset (held_list h1)"])
  then show ?case
    using started_append [of "[call]" cs] gone_append [of "[call]" cs] given_up_append [of "[call]" cs]
    by (simp add: ac_simps)
qed simp

definition children_accounted :: "slot_runtime \<Rightarrow> bool" where
  "children_accounted rt = (child_calls Idle (rt_os rt) = Some (held rt))"

lemma slot_step_accounted: "children_accounted rt \<Longrightarrow> children_accounted (slot_step bridge e rt)"
proof (cases e)
  case (Ev_spawn out)
  then show "children_accounted rt \<Longrightarrow> ?thesis"
    by (auto simp: spawn_phase_def children_accounted_def held_def slot_op_defs Let_def
        split: sum.splits)
next
  case (Ev_poll w)
  then show "children_accounted rt \<Longrightarrow> ?thesis"
    by (auto simp: poll_phase_def children_accounted_def held_def slot_op_defs Let_def
        split: wait_outcome.splits option.splits slot_state.splits)
next
  case (Ev_command os cmd)
  then show "children_accounted rt \<Longrightarrow> ?thesis"
    by (cases cmd)
      (auto simp: children_accounted_def held_def slot_op_defs Let_def
        split: sum.splits option.splits)
qed

lemma slot_run_accounted: "children_accounted rt \<Longrightarrow> children_accounted (slot_run bridge es rt)"
  by (induction es arbitrary: rt) (simp_all add: slot_step_accounted)

lemma children_accounted_initial: "children_accounted (initial_runtime n)"
  by (simp add: children_accounted_def held_def initial_runtime_def)

text \<open>The run of a turn that breaks: everything before the final stop, then the stop.\<close>

lemma supervise_iteration_break_run:
  "lr_break (supervise_iteration bridge li rt) \<Longrightarrow>
   \<exists>es. lr_runtime (supervise_iteration bridge li rt) = stop_worker (li_stop li) (slot_run bridge es rt)"
proof (cases "li_shutdown li")
  case True
  then have "lr_runtime (supervise_iteration bridge li rt)
      = stop_worker (li_stop li) (slot_run bridge [] rt)"
    by (simp add: supervise_iteration_def)
  then show ?thesis by (rule exI)
next
  case False
  let ?es = "[Ev_spawn (li_spawn li)] @ map (\<lambda>(os, cmd). Ev_command os cmd) (li_drained li)
    @ [Ev_poll (li_wait li)]"
  assume "lr_break (supervise_iteration bridge li rt)"
  with False have "lr_runtime (supervise_iteration bridge li rt)
      = stop_worker (li_stop li) (slot_run bridge ?es rt)"
    using drain_commands_run [of bridge "li_drained li" "spawn_phase (li_spawn li) rt"]
    by (auto simp: supervise_iteration_def Let_def slot_run_append
        split: prod.splits select_outcome.splits if_splits)
  then show ?thesis by (rule exI)
qed

text \<open>The final stop leaves no child behind that the worker still holds.\<close>

definition children_ended :: "slot_runtime \<Rightarrow> bool" where
  "children_ended rt = (child_calls Idle (rt_os rt) = Some Idle)"

lemma stop_worker_accounted: "children_accounted rt \<Longrightarrow> children_ended (stop_worker out rt)"
  by (auto simp: children_accounted_def children_ended_def held_def slot_op_defs split: option.splits)

lemma supervise_slot_accounted:
  "children_accounted rt \<Longrightarrow> supervise_slot bridge lis rt = (rt', fin) \<Longrightarrow>
   (if fin then children_ended rt' else children_accounted rt')"
proof (induction lis arbitrary: rt)
  case (Cons li lis)
  show ?case
  proof (cases "lr_break (supervise_iteration bridge li rt)")
    case True
    with Cons.prems obtain es where "rt' = stop_worker (li_stop li) (slot_run bridge es rt)" "fin"
      using supervise_iteration_break_run [OF True] by (auto simp: Let_def)
    with Cons.prems(1) show ?thesis by (simp add: stop_worker_accounted slot_run_accounted)
  next
    case False
    with Cons.prems(1) have "children_accounted (lr_runtime (supervise_iteration bridge li rt))"
      by (simp add: supervise_iteration_run slot_run_accounted)
    with Cons.prems(2) False show ?thesis
      by (intro Cons.IH) (simp_all add: Let_def)
  qed
qed auto

text \<open>
  C10: At most one child, and none forgotten.  Read call by call, the log of a worker's
  operating-system calls starts a process only at a moment when the worker holds none: the
  one before has been killed and waited for, has been found exited, or has been given up
  after an error of the kill, the wait or the poll.  What the log says is held is the child
  the worker has, and when the loop has ended it holds none.  Every process ever started is
  the one held, or gone, or one of those given up, each exactly once; so without such an
  error at most one process of the slot is alive at any time.
\<close>

theorem one_child_at_a_time:
  assumes "supervise_slot bridge lis (initial_runtime n) = (rt, finished)"
    and "h = (if finished then Idle else held rt)"
  shows "child_calls Idle (rt_os rt) = Some h
    \<and> mset (started (rt_os rt)) = mset (gone (rt_os rt)) + mset (given_up (rt_os rt)) + mset (held_list h)
    \<and> (\<forall>before pid after. rt_os rt = before @ Os_spawn pid # after \<longrightarrow>
         mset (started before) = mset (gone before) + mset (given_up before))"
proof -
  have c: "child_calls Idle (rt_os rt) = Some h"
    using supervise_slot_accounted [OF children_accounted_initial assms(1)] assms(2)
    by (simp add: children_accounted_def children_ended_def split: if_splits)
  moreover have "mset (started before) = mset (gone before) + mset (given_up before)"
    if "rt_os rt = before @ Os_spawn pid # after" for before pid after
  proof -
    from c that have "child_calls Idle before = Some Idle"
      by (auto simp: Option.bind_eq_Some_conv split: if_splits)
    from child_calls_count [OF this] show ?thesis by simp
  qed
  ultimately show ?thesis using child_calls_count [OF c] by auto
qed

text \<open>Two turns: the second finds the first process exited; the third starts another one.\<close>

definition restart_turns :: "loop_input list" where
  "restart_turns =
     (let t = \<lparr>li_shutdown = False, li_spawn = Inr (Some 7), li_drained = [],
                li_wait = Still_running, li_select = Sel_timeout, li_stop = Stopped\<rparr>
      in [t, t\<lparr>li_wait := Exited\<rparr>, t\<lparr>li_spawn := Inr (Some 8)\<rparr>])"

lemma restart_log:
  "rt_os (fst (supervise_slot None restart_turns (initial_runtime 0)))
     = [Os_unlink_socket, Os_spawn (Some 7), Os_reaped \<lparr>child_id = Some 7\<rparr>, Os_unlink_socket,
        Os_unlink_socket] @ Os_spawn (Some 8) # []"
  by (simp add: restart_turns_def supervise_iteration_def spawn_phase_def poll_phase_def slot_op_defs Let_def)

theorem one_child_at_a_time_witness:
  "mset (started [Os_unlink_socket, Os_spawn (Some 7), Os_reaped \<lparr>child_id = Some 7\<rparr>, Os_unlink_socket,
        Os_unlink_socket])
     = mset (gone [Os_unlink_socket, Os_spawn (Some 7), Os_reaped \<lparr>child_id = Some 7\<rparr>, Os_unlink_socket,
        Os_unlink_socket])"
proof -
  obtain rt fin where "supervise_slot None restart_turns (initial_runtime 0) = (rt, fin)" by fastforce
  from one_child_at_a_time [OF this refl] this restart_log show ?thesis by fastforce
qed

section \<open>The socket is removed before every start\<close>

fun socket_clean :: "bool \<Rightarrow> os_call list \<Rightarrow> bool" where
  "socket_clean removed [] = True"
| "socket_clean removed (Os_unlink_socket # cs) = socket_clean True cs"
| "socket_clean removed (Os_spawn p # cs) = (removed \<and> socket_clean False cs)"
| "socket_clean removed (Os_spawn_failed err # cs) = (removed \<and> socket_clean False cs)"
| "socket_clean removed (c # cs) = socket_clean False cs"

lemma socket_clean_mono: "socket_clean False cs \<Longrightarrow> socket_clean removed cs"
  by (cases "(removed, cs)" rule: socket_clean.cases) auto

lemma socket_clean_append:
  "socket_clean r xs \<Longrightarrow> socket_clean False ys \<Longrightarrow> socket_clean r (xs @ ys)"
  by (induction r xs rule: socket_clean.induct) (auto intro: socket_clean_mono)

definition socket_inv :: "slot_runtime \<Rightarrow> bool" where
  "socket_inv rt = socket_clean False (rt_os rt)"

lemma socket_inv_log:
  "socket_inv rt \<Longrightarrow> rt_os rt' = rt_os rt @ cs \<Longrightarrow> socket_clean False cs \<Longrightarrow> socket_inv rt'"
  by (simp add: socket_inv_def socket_clean_append)

interpretation sock: slot_invariant "\<lambda>n. socket_inv"
proof (unfold_locales, goal_cases)
  case (1 n)
  then show ?case by (simp add: socket_inv_def initial_runtime_def)
next
  case (2 n rt out)
  then show ?case
    by (auto simp: spawn_phase_def slot_op_defs Let_def split: sum.splits elim!: socket_inv_log)
next
  case (3 n rt w)
  then show ?case
    by (auto simp: poll_phase_def slot_op_defs Let_def
        split: wait_outcome.splits option.splits slot_state.splits elim!: socket_inv_log)
next
  case (4 n rt os bridge cmd)
  then show ?case
    by (cases cmd) (auto simp: slot_op_defs Let_def split: sum.splits option.splits
        elim!: socket_inv_log)
next
  case (5 n rt so)
  then show ?case
    by (auto simp: slot_op_defs split: option.splits elim!: socket_inv_log)
qed

definition demo_turn :: loop_input where
  "demo_turn = \<lparr>li_shutdown = False, li_spawn = Inr (Some 7), li_drained = [],
     li_wait = Still_running, li_select = Sel_timeout, li_stop = Stopped\<rparr>"

text \<open>
  C25: Every start of a child process, successful or not, comes directly after the call that
  removes the slot's API socket, so unless that call fails, which the source only logs, no
  child ever meets the socket file of its predecessor.
\<close>

theorem spawn_after_socket_removal:
  assumes "rt_os (fst (supervise_slot bridge lis (initial_runtime n))) = before @ call # rest"
    and "(\<exists>p. call = Os_spawn p) \<or> (\<exists>err. call = Os_spawn_failed err)"
  shows "before \<noteq> [] \<and> last before = Os_unlink_socket"
proof -
  have clean: "socket_clean False (before @ call # rest)"
    using sock.inv_supervise [OF sock.inv_init] by (metis assms(1) socket_inv_def)
  have "socket_clean r (before @ call # rest) \<Longrightarrow>
      (if before = [] then r else last before = Os_unlink_socket)" for r
    using assms(2) by (induction r before rule: socket_clean.induct) (auto split: if_splits)
  from this [OF clean] show ?thesis by (simp split: if_splits)
qed

lemma demo_turn_log:
  "rt_os (fst (supervise_slot None [demo_turn] (initial_runtime 0)))
     = [Os_unlink_socket] @ Os_spawn (Some 7) # []"
  by (simp add: supervise_iteration_def spawn_phase_def poll_phase_def demo_turn_def
      slot_op_defs Let_def)

theorem spawn_after_socket_removal_witness:
  "rt_os (fst (supervise_slot None [demo_turn] (initial_runtime 0)))
     = [Os_unlink_socket] @ Os_spawn (Some 7) # []
   \<and> last [Os_unlink_socket] = Os_unlink_socket"
  using spawn_after_socket_removal [OF demo_turn_log] demo_turn_log by blast

section \<open>Failed slots\<close>

lemma slot_step_failed:
  assumes "slot_wf rt" and "ss_state (rt_status rt) = Failed"
    and "\<forall>os. e \<noteq> Ev_command os ResetVm"
  shows "slot_step bridge e rt = rt"
proof (cases e)
  case (Ev_command os cmd)
  with assms show ?thesis by (cases cmd) simp_all
qed (use assms in \<open>auto simp: spawn_phase_def poll_phase_def slot_wf_def should_spawn_def\<close>)

text \<open>
  C26: A failed slot is stuck.  Once a spawn or a poll has failed, nothing but a reset
  command changes the slot: the loop starts no process for it, reservations, boots and
  releases are refused, and its runtime stays exactly as it was.
\<close>

theorem failed_slot_stuck:
  assumes "slot_wf rt" and "ss_state (rt_status rt) = Failed"
    and "\<forall>os. Ev_command os ResetVm \<notin> set es"
  shows "slot_run bridge es rt = rt"
  using assms(3)
proof (induction es)
  case (Cons e es)
  then have "slot_step bridge e rt = rt"
    by (intro slot_step_failed [OF assms(1,2)]) auto
  with Cons show ?case by simp
qed simp

definition demo_failed :: slot_runtime where
  "demo_failed = spawn_phase (Inl ''no such file'') (initial_runtime 3)"

theorem failed_slot_stuck_witness:
  "slot_run None [Ev_spawn (Inr (Some 9)), Ev_command demo_cmd_os (ReserveVm ''a'' ''m'' ''tap3'')]
     demo_failed = demo_failed"
  by (rule failed_slot_stuck)
    (simp_all add: demo_failed_def slot_wf_spawn slot_wf_initial,
     simp_all add: spawn_phase_def slot_op_defs Let_def)

text \<open>A reset brings every slot, in whatever state, back to a well-formed free slot
  without child, whatever killing the child answers; it always succeeds.\<close>

theorem reset_recovers:
  assumes "slot_wf rt" and "handle_command os bridge ResetVm rt = (r, rt')"
  shows "r = Inr (rt_status rt') \<and> slot_wf rt' \<and> ss_state (rt_status rt') = Empty
    \<and> rt_child rt' = None \<and> bumps (rt_status rt) (rt_status rt')
    \<and> ss_slot (rt_status rt') = ss_slot (rt_status rt)"
  using assms slot_wf_command [OF assms(1), of os bridge ResetVm]
  by (auto simp: slot_op_defs bumps_def Let_def split: option.splits)

theorem reset_recovers_witness:
  "ss_state (rt_status (snd (handle_command demo_cmd_os None ResetVm demo_failed))) = Empty"
  using reset_recovers [of demo_failed demo_cmd_os None]
  by (metis demo_failed_def prod.collapse slot_wf_initial slot_wf_spawn)

section \<open>When the loop ends\<close>

definition quiet_turn :: "loop_input \<Rightarrow> bool" where
  "quiet_turn li =
     (\<not> li_shutdown li \<and> li_select li \<noteq> Sel_shutdown_closed
      \<and> li_select li \<noteq> Sel_shutdown_value True \<and> li_select li \<noteq> Sel_channel_closed)"

text \<open>Without a shutdown and with the command channel open the loop never ends.\<close>

lemma supervise_slot_quiet:
  "list_all quiet_turn lis \<Longrightarrow> \<not> snd (supervise_slot bridge lis rt)"
  by (induction lis arbitrary: rt)
    (auto simp: Let_def supervise_iteration_break quiet_turn_def)

text \<open>With the shutdown flag set it ends at its next turn, the child stopped.\<close>

lemma supervise_slot_shutdown:
  "li_shutdown li \<Longrightarrow> supervise_slot bridge (li # lis) rt = (stop_worker (li_stop li) rt, True)"
  by (simp add: supervise_iteration_def Let_def)

end
