(* ===== verification/ChClient.thy ===== *)
theory ChClient
  imports PoolTypes
begin

text \<open>
  \<open>src/ch_client.rs\<close>: one HTTP request over a Unix socket.  The sockets, hyper and the
  \<open>http\<close> crate are outside the repository: their answers are the record \<open>transport\<close>
  (error texts on the left).  What the file itself decides is modelled: the order of the
  steps, the request it builds, and how the response is read.
\<close>

datatype http_method = Method_GET | Method_PUT | Method_POST | Method_DELETE

record http_request =
  hq_method :: http_method
  hq_uri :: string
  hq_headers :: "(string \<times> string) list"
  hq_body :: string

record raw_response =
  rw_status :: u16
  rw_content_type :: "string option"
  rw_body :: "string + string"

record transport =
  tr_connect :: "string \<Rightarrow> string + unit"
  tr_handshake :: "string + unit"
  tr_build :: "http_request \<Rightarrow> string + unit"
  tr_send :: "string \<Rightarrow> http_request \<Rightarrow> string + raw_response"
  tr_header_str :: "string \<Rightarrow> string option"

definition build_request ::
  "http_method \<Rightarrow> string \<Rightarrow> string \<Rightarrow> string option \<Rightarrow> http_request" where
  "build_request method path body content_type =
     \<lparr>hq_method = method,
      hq_uri = (if path = [] then ''/'' else path),
      hq_headers = [(''host'', ''localhost''), (''connection'', ''close'')]
        @ (case content_type of Some v \<Rightarrow> [(''content-type'', v)] | None \<Rightarrow> []),
      hq_body = body\<rparr>"

definition response_to_proxy_response ::
  "transport \<Rightarrow> raw_response \<Rightarrow> string + proxy_response" where
  "response_to_proxy_response T r =
     (let status = rw_status r;
          content_type = Option.bind (rw_content_type r) (tr_header_str T)
      in case rw_body r of
           Inl err \<Rightarrow> Inl err
         | Inr body \<Rightarrow>
             Inr \<lparr>pr_status = status, pr_content_type = content_type, pr_body = body\<rparr>)"

definition send_unix_http_request ::
  "transport \<Rightarrow> string \<Rightarrow> http_method \<Rightarrow> string \<Rightarrow> string \<Rightarrow> string option
     \<Rightarrow> string + proxy_response" where
  "send_unix_http_request T socket method path body content_type =
     (case tr_connect T socket of
        Inl err \<Rightarrow> Inl err
      | Inr _ \<Rightarrow>
          (case tr_handshake T of
             Inl err \<Rightarrow> Inl err
           | Inr _ \<Rightarrow>
               (let request = build_request method path body content_type in
                case tr_build T request of
                  Inl err \<Rightarrow> Inl err
                | Inr _ \<Rightarrow>
                    (case tr_send T socket request of
                       Inl err \<Rightarrow> Inl err
                     | Inr response \<Rightarrow> response_to_proxy_response T response))))"

lemma send_unix_http_request_Inr:
  "send_unix_http_request T socket method path body ct = Inr resp \<longleftrightarrow>
     tr_connect T socket = Inr () \<and> tr_handshake T = Inr ()
     \<and> tr_build T (build_request method path body ct) = Inr ()
     \<and> (\<exists>raw. tr_send T socket (build_request method path body ct) = Inr raw
          \<and> response_to_proxy_response T raw = Inr resp)"
  by (auto simp: send_unix_http_request_def Let_def split: sum.splits)

lemma build_request_uri_nonempty: "hq_uri (build_request m p b ct) \<noteq> []"
  by (simp add: build_request_def)

end
