(* ===== verification/Pool.thy ===== *)
theory Pool
  imports SlotProcess ChClient
begin

text \<open>
  \<open>src/pool.rs\<close>: the pool of slots.  \<open>process_pool\<close> is \<open>ProcessPool\<close>, its slot handles
  holding the worker's runtime in place of the two ends of its channel.

  The pool's operations are asynchronous: at each \<open>await\<close> other tasks run.  An operation
  is therefore a function on a \<open>pool_world\<close> (the pool, the number of awaits so far, a
  clock in milliseconds, the lock the running task holds, a log) under a \<open>pool_env\<close>, which
  says for every await what the other tasks do meanwhile (\<open>pool_action\<close>s) and what the
  operating system and the VMs answer.  A theorem for all environments is a theorem for all
  interleavings.  What others can do depends on the lock: workers run always, the
  operations that take \<open>&self\<close> need that no writer holds the lock, allocation needs that
  nobody else holds it.
\<close>

section \<open>The pool\<close>

declare handle_command.simps [simp del]

record slot_handle =
  h_runtime :: slot_runtime
  h_alive :: bool
  h_program :: string
  h_args :: "string list"
  h_bridge :: "string option"
  h_socket :: string

record process_pool =
  pp_shutdown :: bool
  pp_slots :: "slot_handle list"
  pp_vm_path :: string
  pp_program :: string
  pp_args :: "string list"
  pp_bridge :: "string option"
  pp_min :: nat
  pp_max :: nat
  pp_cooldown :: nat
  pp_last_scale_down :: "nat option"

definition socket_name :: "nat \<Rightarrow> string" where
  "socket_name n = ''vmm'' @ show_nat n @ ''.sock''"

definition initialize_slot ::
  "nat \<Rightarrow> string \<Rightarrow> string list \<Rightarrow> string option \<Rightarrow> string \<Rightarrow> slot_handle" where
  "initialize_slot n program args bridge vm_path =
     (let api_socket = path_join vm_path (socket_name n) in
      \<lparr>h_runtime = initial_runtime n, h_alive = True, h_program = program,
       h_args = args @ [''--api-socket'', api_socket], h_bridge = bridge,
       h_socket = api_socket\<rparr>)"

definition pool_spawn ::
  "nat \<Rightarrow> nat \<Rightarrow> nat \<Rightarrow> string \<Rightarrow> string list \<Rightarrow> string option \<Rightarrow> string
     \<Rightarrow> string + process_pool" where
  "pool_spawn min_size max_size cooldown program args bridge vm_path =
     (if max_size < min_size then
        Inl (''max_pool_size ('' @ show_nat max_size @ '') must be >= min_pool_size (''
             @ show_nat min_size @ '')'')
      else
        Inr \<lparr>pp_shutdown = False,
             pp_slots = map (\<lambda>n. initialize_slot n program args bridge vm_path) [0..<min_size],
             pp_vm_path = vm_path, pp_program = program, pp_args = args, pp_bridge = bridge,
             pp_min = min_size, pp_max = max_size, pp_cooldown = cooldown,
             pp_last_scale_down = None\<rparr>)"

definition extend_slots :: "nat \<Rightarrow> process_pool \<Rightarrow> process_pool" where
  "extend_slots additional p =
     (let current = length (pp_slots p) in
      p\<lparr>pp_slots := pp_slots p
          @ map (\<lambda>n. initialize_slot n (pp_program p) (pp_args p) (pp_bridge p) (pp_vm_path p))
              [current..<current + additional]\<rparr>)"

definition vm_socket_path :: "nat \<Rightarrow> process_pool \<Rightarrow> string" where
  "vm_socket_path n p = path_join (pp_vm_path p) (socket_name n)"

definition tap_name :: "nat \<Rightarrow> string" where
  "tap_name n = ''tap'' @ show_nat n"

definition slot_rt :: "process_pool \<Rightarrow> nat \<Rightarrow> slot_runtime" where
  "slot_rt p i = h_runtime (pp_slots p ! i)"

definition slot_st :: "process_pool \<Rightarrow> nat \<Rightarrow> slot_status" where
  "slot_st p i = rt_status (slot_rt p i)"

definition pool_size :: "process_pool \<Rightarrow> nat" where
  "pool_size p = length (pp_slots p)"

text \<open>Changing the runtime of one live worker; a worker that has ended does nothing.\<close>

definition on_slot :: "nat \<Rightarrow> (slot_runtime \<Rightarrow> slot_runtime) \<Rightarrow> process_pool \<Rightarrow> process_pool" where
  "on_slot i f p =
     (if i < length (pp_slots p) \<and> h_alive (pp_slots p ! i)
      then p\<lparr>pp_slots := (pp_slots p)[i := (pp_slots p ! i)\<lparr>h_runtime := f (slot_rt p i)\<rparr>]\<rparr>
      else p)"

definition name_used :: "string \<Rightarrow> process_pool \<Rightarrow> bool" where
  "name_used n p = list_ex (\<lambda>h. ss_name (rt_status (h_runtime h)) = Some n) (pp_slots p)"

section \<open>What other tasks do\<close>

text \<open>
  The atomic actions on the pool: a worker's spawn or poll, a worker ending after the
  shutdown flag, a status command of another request, the reservation and the extension
  another request's allocation makes, and the autoscaler's removal of the last slot.
\<close>

datatype pool_action =
    Act_spawn nat "string + u32 option"
  | Act_poll nat wait_outcome
  | Act_exit nat stop_outcome
  | Act_command nat cmd_os slot_command
  | Act_reserve nat cmd_os string string
  | Act_extend
  | Act_pop nat

fun is_reserve :: "slot_command \<Rightarrow> bool" where
  "is_reserve (ReserveVm n m t) = True"
| "is_reserve cmd = False"

fun apply_action :: "pool_action \<Rightarrow> process_pool \<Rightarrow> process_pool" where
  "apply_action (Act_spawn i out) p = on_slot i (spawn_phase out) p"
| "apply_action (Act_poll i out) p = on_slot i (poll_phase out) p"
| "apply_action (Act_exit i out) p =
     (if pp_shutdown p \<and> i < length (pp_slots p) \<and> h_alive (pp_slots p ! i)
      then p\<lparr>pp_slots := (pp_slots p)[i := (pp_slots p ! i)
               \<lparr>h_runtime := stop_worker out (slot_rt p i), h_alive := False\<rparr>]\<rparr>
      else p)"
| "apply_action (Act_command i os cmd) p =
     (if is_reserve cmd then p
      else on_slot i (\<lambda>rt. snd (handle_command os (h_bridge (pp_slots p ! i)) cmd rt)) p)"
| "apply_action (Act_reserve i os name mac) p =
     (if name_used name p then p
      else on_slot i
             (\<lambda>rt. snd (handle_command os (h_bridge (pp_slots p ! i))
                          (ReserveVm name mac (tap_name i)) rt)) p)"
| "apply_action Act_extend p =
     (if length (pp_slots p) < pp_max p then extend_slots 1 p else p)"
| "apply_action (Act_pop now) p =
     (if pp_min p < length (pp_slots p)
         \<and> ss_state (rt_status (h_runtime (last (pp_slots p)))) = Empty
      then p\<lparr>pp_slots := butlast (pp_slots p), pp_last_scale_down := Some now\<rparr> else p)"

datatype lock_mode = Unlocked | Read_held | Write_held

text \<open>
  What others can do at an await, under the lock the running task holds.  \<open>Act_pop\<close> is not
  among it: the autoscaler never gives the write lock back once it has removed a slot (see
  \<open>PoolScale\<close>), so it concerns a task only when that task waits for the lock.  There,
  \<open>pe_autoscales\<close> says whether the autoscaler gets the lock first, and \<open>scaling_down\<close> whether
  its tick then removes the last slot; a task that waits behind such a tick waits for ever
  (\<open>lock_as\<close> in \<open>PoolFacade\<close> and \<open>call_outcome\<close> in \<open>Api\<close>).
\<close>

fun permitted :: "lock_mode \<Rightarrow> pool_action \<Rightarrow> bool" where
  "permitted l (Act_spawn i out) = True"
| "permitted l (Act_poll i out) = True"
| "permitted l (Act_exit i out) = True"
| "permitted l (Act_command i os cmd) = (l \<noteq> Write_held)"
| "permitted l (Act_reserve i os name mac) = (l = Unlocked)"
| "permitted l Act_extend = (l = Unlocked)"
| "permitted l (Act_pop now) = False"

fun apply_actions :: "pool_action list \<Rightarrow> process_pool \<Rightarrow> process_pool" where
  "apply_actions [] p = p"
| "apply_actions (a # as) p = apply_actions as (apply_action a p)"

definition scaling_down :: "nat \<Rightarrow> process_pool \<Rightarrow> bool" where
  "scaling_down now p =
     (pp_min p < length (pp_slots p) \<and> \<not> pp_shutdown p \<and> h_alive (last (pp_slots p))
      \<and> ss_state (rt_status (h_runtime (last (pp_slots p)))) = Empty
      \<and> (case pp_last_scale_down p of Some t \<Rightarrow> pp_cooldown p \<le> now - t | None \<Rightarrow> True))"

record pool_env =
  pe_actions :: "nat \<Rightarrow> pool_action list"
  pe_autoscales :: "nat \<Rightarrow> bool"
  pe_cmd_os :: "nat \<Rightarrow> cmd_os"
  pe_transport :: "nat \<Rightarrow> transport"
  pe_delay :: "nat \<Rightarrow> nat"

datatype log_entry =
    Log_command nat slot_command
  | Log_request nat http_method string
  | Log_answer nat "pool_error + proxy_response"
  | Log_lock lock_mode bool
  | Log_occupancy string nat nat nat nat nat
  | Log_warning string pool_error

record pool_world =
  pw_pool :: process_pool
  pw_step :: nat
  pw_clock :: nat
  pw_lock :: lock_mode
  pw_log :: "log_entry list"

definition await :: "pool_env \<Rightarrow> pool_world \<Rightarrow> pool_world" where
  "await E w =
     w\<lparr>pw_pool := apply_actions (filter (permitted (pw_lock w)) (pe_actions E (pw_step w))) (pw_pool w),
       pw_step := Suc (pw_step w),
       pw_clock := pw_clock w + pe_delay E (pw_step w)\<rparr>"

definition log_entry :: "log_entry \<Rightarrow> pool_world \<Rightarrow> pool_world" where
  "log_entry e w = w\<lparr>pw_log := pw_log w @ [e]\<rparr>"

section \<open>Commands to one slot\<close>

text \<open>
  Sending a command and awaiting its answer: no such slot; the worker is gone (its channel
  is closed); or the worker handles the command when it gets to it.
\<close>

definition send_command ::
  "pool_env \<Rightarrow> nat \<Rightarrow> slot_command \<Rightarrow> pool_world \<Rightarrow> (pool_error + slot_status) \<times> pool_world" where
  "send_command E i cmd w =
     (if \<not> i < length (pp_slots (pw_pool w)) then (Inl (SlotNotFound i), w)
      else
        (let w1 = await E w; p = pw_pool w1 in
         if i < length (pp_slots p) \<and> h_alive (pp_slots p ! i) then
           (case handle_command (pe_cmd_os E (pw_step w)) (h_bridge (pp_slots p ! i)) cmd (slot_rt p i) of
              (r, rt') \<Rightarrow> (r, log_entry (Log_command i cmd) (w1\<lparr>pw_pool := on_slot i (\<lambda>_. rt') p\<rparr>)))
         else (Inl ChannelClosed, w1)))"

definition get_vm_slot_status ::
  "pool_env \<Rightarrow> nat \<Rightarrow> pool_world \<Rightarrow> (pool_error + slot_status) \<times> pool_world" where
  "get_vm_slot_status E i w = send_command E i GetVmStatus w"

fun collect_statuses ::
  "pool_env \<Rightarrow> nat list \<Rightarrow> pool_world \<Rightarrow> (pool_error + slot_status list) \<times> pool_world" where
  "collect_statuses E [] w = (Inr [], w)"
| "collect_statuses E (i # is) w =
     (case get_vm_slot_status E i w of
        (Inl err, w1) \<Rightarrow> (Inl err, w1)
      | (Inr st, w1) \<Rightarrow>
          (case collect_statuses E is w1 of
             (Inl err, w2) \<Rightarrow> (Inl err, w2)
           | (Inr sts, w2) \<Rightarrow> (Inr (st # sts), w2)))"

definition list_vm_slots ::
  "pool_env \<Rightarrow> pool_world \<Rightarrow> (pool_error + slot_status list) \<times> pool_world" where
  "list_vm_slots E w = collect_statuses E [0..<length (pp_slots (pw_pool w))] w"

definition count_state :: "slot_state \<Rightarrow> slot_status list \<Rightarrow> nat" where
  "count_state s sts = length (filter (\<lambda>st. ss_state st = s) sts)"

definition pool_usage ::
  "pool_env \<Rightarrow> pool_world \<Rightarrow> (pool_error + nat \<times> nat) \<times> pool_world" where
  "pool_usage E w =
     (case list_vm_slots E w of
        (Inl err, w1) \<Rightarrow> (Inl err, w1)
      | (Inr sts, w1) \<Rightarrow>
          (let idle = count_state Empty sts in (Inr (length sts - idle, idle), w1)))"

definition find_vm_slot_status_by_name ::
  "pool_env \<Rightarrow> string \<Rightarrow> pool_world \<Rightarrow> (pool_error + slot_status option) \<times> pool_world" where
  "find_vm_slot_status_by_name E name w =
     (case list_vm_slots E w of
        (Inl err, w1) \<Rightarrow> (Inl err, w1)
      | (Inr sts, w1) \<Rightarrow> (Inr (find (\<lambda>st. ss_name st = Some name) sts), w1))"

fun runtimes_of :: "slot_status list \<Rightarrow> vm_runtime list" where
  "runtimes_of [] = []"
| "runtimes_of (st # sts) =
     (case runtime_from_slot_status st of
        Some rt \<Rightarrow> rt # runtimes_of sts
      | None \<Rightarrow> runtimes_of sts)"

definition list_running_vms ::
  "pool_env \<Rightarrow> pool_world \<Rightarrow> (pool_error + vm_runtime list) \<times> pool_world" where
  "list_running_vms E w =
     (case list_vm_slots E w of
        (Inl err, w1) \<Rightarrow> (Inl err, w1)
      | (Inr sts, w1) \<Rightarrow> (Inr (runtimes_of sts), w1))"

definition find_vm_runtime_by_name ::
  "pool_env \<Rightarrow> string \<Rightarrow> pool_world \<Rightarrow> (pool_error + vm_runtime option) \<times> pool_world" where
  "find_vm_runtime_by_name E name w =
     (case list_running_vms E w of
        (Inl err, w1) \<Rightarrow> (Inl err, w1)
      | (Inr rts, w1) \<Rightarrow> (Inr (find (\<lambda>rt. vr_name rt = name) rts), w1))"

definition log_pool_occupancy :: "pool_env \<Rightarrow> string \<Rightarrow> pool_world \<Rightarrow> pool_world" where
  "log_pool_occupancy E reason w =
     (case list_vm_slots E w of
        (Inr sts, w1) \<Rightarrow>
          log_entry (Log_occupancy reason (length sts) (count_state Occupied sts)
            (count_state Booting sts) (count_state Empty sts) (count_state Failed sts)) w1
      | (Inl err, w1) \<Rightarrow> log_entry (Log_warning reason err) w1)"

text \<open>A command whose success is followed by an occupancy log line.\<close>

definition logged_command ::
  "pool_env \<Rightarrow> string \<Rightarrow> nat \<Rightarrow> slot_command \<Rightarrow> pool_world
     \<Rightarrow> (pool_error + slot_status) \<times> pool_world" where
  "logged_command E reason i cmd w =
     (case send_command E i cmd w of
        (Inl err, w1) \<Rightarrow> (Inl err, w1)
      | (Inr st, w1) \<Rightarrow> (Inr st, log_pool_occupancy E reason w1))"

definition reserve_vm_slot ::
  "pool_env \<Rightarrow> nat \<Rightarrow> string \<Rightarrow> string \<Rightarrow> string \<Rightarrow> pool_world
     \<Rightarrow> (pool_error + slot_status) \<times> pool_world" where
  "reserve_vm_slot E i name mac tap w =
     logged_command E ''reserve_vm_slot'' i (ReserveVm name mac tap) w"

definition mark_vm_slot_booted ::
  "pool_env \<Rightarrow> nat \<Rightarrow> string \<Rightarrow> pool_world \<Rightarrow> (pool_error + slot_status) \<times> pool_world" where
  "mark_vm_slot_booted E i started_at w =
     logged_command E ''mark_vm_slot_booted'' i (MarkVmBooted started_at) w"

definition release_vm_slot ::
  "pool_env \<Rightarrow> nat \<Rightarrow> pool_world \<Rightarrow> (pool_error + slot_status) \<times> pool_world" where
  "release_vm_slot E i w = logged_command E ''release_vm_slot'' i ReleaseVm w"

definition reset_vm_slot ::
  "pool_env \<Rightarrow> nat \<Rightarrow> pool_world \<Rightarrow> (pool_error + slot_status) \<times> pool_world" where
  "reset_vm_slot E i w = logged_command E ''reset_vm_slot'' i ResetVm w"

definition proxy_vm_request_with_content_type ::
  "pool_env \<Rightarrow> nat \<Rightarrow> http_method \<Rightarrow> string \<Rightarrow> string \<Rightarrow> string option \<Rightarrow> pool_world
     \<Rightarrow> (pool_error + proxy_response) \<times> pool_world" where
  "proxy_vm_request_with_content_type E i method path body content_type w =
     (let answer = map_err Backend
            (send_unix_http_request (pe_transport E (pw_step w)) (vm_socket_path i (pw_pool w))
               method path body content_type) in
      (answer, log_entry (Log_answer i answer) (log_entry (Log_request i method path) (await E w))))"

definition proxy_vm_request ::
  "pool_env \<Rightarrow> nat \<Rightarrow> http_method \<Rightarrow> string \<Rightarrow> string \<Rightarrow> pool_world
     \<Rightarrow> (pool_error + proxy_response) \<times> pool_world" where
  "proxy_vm_request E i method path body w =
     proxy_vm_request_with_content_type E i method path body None w"

end
