(* ===== verification/PoolAlloc.thy ===== *)
theory PoolAlloc
  imports Pool
begin

text \<open>
  The operations of \<open>src/pool.rs\<close> that take the pool exclusively (\<open>&mut self\<close>):
  extending it, allocating a slot for a VM, the autoscaler's tick and the final shutdown.

  \<open>allocate_loop\<close> is the loop of \<open>allocate_vm_slot\<close>; every round that does not return
  extends the pool by one slot towards the maximum, which is its termination measure.
  Awaiting a worker task can take forever, so \<open>join_worker\<close> is given a finite number of
  the worker's turns and answers \<open>None\<close> when the worker has not ended within them.
\<close>

section \<open>What keeps the size of the pool\<close>

lemma on_slot_length [simp]: "length (pp_slots (on_slot i f p)) = length (pp_slots p)"
  by (simp add: on_slot_def)

lemma on_slot_config [simp]:
  "pp_max (on_slot i f p) = pp_max p" "pp_min (on_slot i f p) = pp_min p"
  "pp_vm_path (on_slot i f p) = pp_vm_path p" "pp_shutdown (on_slot i f p) = pp_shutdown p"
  "pp_program (on_slot i f p) = pp_program p" "pp_args (on_slot i f p) = pp_args p"
  "pp_bridge (on_slot i f p) = pp_bridge p" "pp_cooldown (on_slot i f p) = pp_cooldown p"
  "pp_last_scale_down (on_slot i f p) = pp_last_scale_down p"
  by (simp_all add: on_slot_def)

lemma extend_slots_length [simp]:
  "length (pp_slots (extend_slots k p)) = length (pp_slots p) + k"
  by (simp add: extend_slots_def Let_def)

lemma extend_slots_config [simp]:
  "pp_max (extend_slots k p) = pp_max p" "pp_min (extend_slots k p) = pp_min p"
  "pp_vm_path (extend_slots k p) = pp_vm_path p" "pp_shutdown (extend_slots k p) = pp_shutdown p"
  "pp_program (extend_slots k p) = pp_program p" "pp_args (extend_slots k p) = pp_args p"
  "pp_bridge (extend_slots k p) = pp_bridge p" "pp_cooldown (extend_slots k p) = pp_cooldown p"
  "pp_last_scale_down (extend_slots k p) = pp_last_scale_down p"
  by (simp_all add: extend_slots_def Let_def)

text \<open>
  Slots have been added at most: none has been removed, since that sets the time of the last
  scale-down.
\<close>

definition grows :: "process_pool \<Rightarrow> process_pool \<Rightarrow> bool" where
  "grows p q =
     (length (pp_slots p) \<le> length (pp_slots q) \<and> pp_max q = pp_max p \<and> pp_min q = pp_min p
      \<and> pp_vm_path q = pp_vm_path p \<and> pp_cooldown q = pp_cooldown p
      \<and> pp_last_scale_down q = pp_last_scale_down p)"

lemma grows_refl [simp]: "grows p p"
  by (simp add: grows_def)

lemma grows_trans: "grows p q \<Longrightarrow> grows q r \<Longrightarrow> grows p r"
  by (auto simp: grows_def)

lemma apply_action_grows: "permitted l a \<Longrightarrow> grows p (apply_action a p)"
  by (cases a) (auto simp: grows_def)

lemma apply_actions_grows: "list_all (permitted l) as \<Longrightarrow> grows p (apply_actions as p)"
  by (induction as arbitrary: p) (auto intro: grows_trans apply_action_grows)

lemma list_all_filter_self: "list_all P (filter P xs)"
  by (simp add: list_all_iff)

lemma await_grows: "grows (pw_pool w) (pw_pool (await E w))"
  by (auto simp: await_def intro: apply_actions_grows list_all_filter_self)

lemma on_slot_grows: "grows p (on_slot i f p)"
  by (simp add: grows_def)

lemma send_command_grows: "grows (pw_pool w) (pw_pool (snd (send_command E i cmd w)))"
  using await_grows [of w E]
  by (auto simp: send_command_def Let_def log_entry_def split: prod.splits
      intro: grows_trans on_slot_grows)

lemma collect_statuses_grows:
  "grows (pw_pool w) (pw_pool (snd (collect_statuses E is w)))"
proof (induction "is" arbitrary: w)
  case (Cons i "is")
  obtain r w1 where g: "get_vm_slot_status E i w = (r, w1)" by fastforce
  have "grows (pw_pool w) (pw_pool w1)"
    using send_command_grows [of w E i GetVmStatus] g by (simp add: get_vm_slot_status_def)
  with g Cons.IH [of w1] show ?case
    by (auto split: sum.splits prod.splits intro: grows_trans)
qed simp

lemma list_vm_slots_grows: "grows (pw_pool w) (pw_pool (snd (list_vm_slots E w)))"
  by (simp add: list_vm_slots_def collect_statuses_grows)

lemma log_pool_occupancy_grows: "grows (pw_pool w) (pw_pool (log_pool_occupancy E r w))"
  using list_vm_slots_grows [of w E]
  by (auto simp: log_pool_occupancy_def log_entry_def split: sum.splits prod.splits)

section \<open>Extending and allocating\<close>

definition pool_extend :: "pool_env \<Rightarrow> nat \<Rightarrow> pool_world \<Rightarrow> pool_world" where
  "pool_extend E additional w =
     log_pool_occupancy E ''extend'' (w\<lparr>pw_pool := extend_slots additional (pw_pool w)\<rparr>)"

lemma extend_shrinks_measure:
  assumes "length (pp_slots (pw_pool w)) < pp_max (pw_pool w)"
  shows "pp_max (pw_pool (pool_extend E 1 w)) - length (pp_slots (pw_pool (pool_extend E 1 w)))
    < pp_max (pw_pool w) - length (pp_slots (pw_pool w))"
proof -
  let ?w = "w\<lparr>pw_pool := extend_slots 1 (pw_pool w)\<rparr>"
  have "grows (pw_pool ?w) (pw_pool (log_pool_occupancy E ''extend'' ?w))"
    by (rule log_pool_occupancy_grows)
  then have "length (pp_slots (pw_pool w)) + 1 \<le> length (pp_slots (pw_pool (pool_extend E 1 w)))"
    and "pp_max (pw_pool (pool_extend E 1 w)) = pp_max (pw_pool w)"
    by (simp_all add: grows_def pool_extend_def)
  with assms show ?thesis by linarith
qed

function allocate_loop ::
  "pool_env \<Rightarrow> string \<Rightarrow> string \<Rightarrow> pool_world \<Rightarrow> (pool_error + slot_status) \<times> pool_world" where
  "allocate_loop E name mac w =
     (case list_vm_slots E w of
        (Inl err, w1) \<Rightarrow> (Inl err, w1)
      | (Inr sts, w1) \<Rightarrow>
          (case find (\<lambda>st. ss_state st = Empty) sts of
             Some st \<Rightarrow> reserve_vm_slot E (ss_slot st) name mac (tap_name (ss_slot st)) w1
           | None \<Rightarrow>
               if pp_max (pw_pool w1) \<le> length (pp_slots (pw_pool w1))
               then (Inl NoAvailableSlot, w1)
               else allocate_loop E name mac (pool_extend E 1 w1)))"
  by pat_completeness auto
termination
proof (relation "measure (\<lambda>(E, name, mac, w). pp_max (pw_pool w) - length (pp_slots (pw_pool w)))",
    goal_cases)
  case (2 E name mac w r w1 sts)
  then have "grows (pw_pool w) (pw_pool w1)"
    using list_vm_slots_grows [of w E] by (metis snd_conv)
  then have "length (pp_slots (pw_pool w)) \<le> length (pp_slots (pw_pool w1))"
    and "pp_max (pw_pool w1) = pp_max (pw_pool w)"
    by (simp_all add: grows_def)
  moreover have "pp_max (pw_pool (pool_extend E 1 w1)) - length (pp_slots (pw_pool (pool_extend E 1 w1)))
      < pp_max (pw_pool w1) - length (pp_slots (pw_pool w1))"
    using 2 by (intro extend_shrinks_measure) simp
  ultimately show ?case by simp
qed simp

declare allocate_loop.simps [simp del]

definition allocate_vm_slot ::
  "pool_env \<Rightarrow> string \<Rightarrow> string \<Rightarrow> pool_world \<Rightarrow> (pool_error + slot_status) \<times> pool_world" where
  "allocate_vm_slot E name mac w =
     (case find_vm_slot_status_by_name E name w of
        (Inl err, w1) \<Rightarrow> (Inl err, w1)
      | (Inr (Some st), w1) \<Rightarrow> (Inl (VmAlreadyRunning name), w1)
      | (Inr None, w1) \<Rightarrow> allocate_loop E name mac w1)"

section \<open>Waiting for a worker to end\<close>

text \<open>
  What the turns of a worker can see while its handle is being joined: the shutdown flag as
  it is (the pool keeps the sending side, so the channel is not closed), and a closed
  command channel exactly when the handle's sender, the only one, has been dropped.
\<close>

definition constrain_turn :: "bool \<Rightarrow> bool \<Rightarrow> loop_input \<Rightarrow> loop_input" where
  "constrain_turn shutdown tx_open li =
     li\<lparr>li_shutdown := shutdown,
        li_select :=
          (case li_select li of
             Sel_shutdown_closed \<Rightarrow> (if tx_open then Sel_timeout else Sel_channel_closed)
           | Sel_shutdown_value v \<Rightarrow> Sel_shutdown_value shutdown
           | Sel_command os cmd \<Rightarrow> Sel_command os cmd
           | Sel_channel_closed \<Rightarrow> (if tx_open then Sel_timeout else Sel_channel_closed)
           | Sel_timeout \<Rightarrow> (if tx_open then Sel_timeout else Sel_channel_closed))\<rparr>"

definition join_worker ::
  "loop_input list \<Rightarrow> bool \<Rightarrow> bool \<Rightarrow> slot_handle \<Rightarrow> slot_handle option" where
  "join_worker turns shutdown tx_open h =
     (if \<not> h_alive h then Some h
      else
        (case supervise_slot (h_bridge h) (map (constrain_turn shutdown tx_open) turns) (h_runtime h) of
           (rt, fin) \<Rightarrow> if fin then Some (h\<lparr>h_runtime := rt, h_alive := False\<rparr>) else None))"

section \<open>Scaling down and shutting down\<close>

text \<open>
  \<open>autoscale_tick\<close>.  The removed handle \<open>slot\<close> is only partly moved by
  \<open>slot.worker.await\<close>: its sender \<open>slot.tx\<close> lives to the end of the block, so the worker
  is joined with its command channel open.
\<close>

definition autoscale_tick ::
  "pool_env \<Rightarrow> loop_input list \<Rightarrow> pool_world \<Rightarrow> ((pool_error + bool) \<times> pool_world) option" where
  "autoscale_tick E turns w =
     (let p = pw_pool w in
      if length (pp_slots p) \<le> pp_min p then Some (Inr False, w)
      else if (case pp_last_scale_down p of
                 Some t \<Rightarrow> pw_clock w - t < pp_cooldown p | None \<Rightarrow> False)
      then Some (Inr False, w)
      else
        (let shrink_slot = length (pp_slots p) - 1 in
         case get_vm_slot_status E shrink_slot w of
           (Inl err, w1) \<Rightarrow> Some (Inl err, w1)
         | (Inr st, w1) \<Rightarrow>
             if ss_state st \<noteq> Empty then Some (Inr False, w1)
             else if pp_slots (pw_pool w1) = [] then Some (Inr False, w1)
             else
               (let h = last (pp_slots (pw_pool w1));
                    w2 = w1\<lparr>pw_pool := (pw_pool w1)\<lparr>pp_slots := butlast (pp_slots (pw_pool w1))\<rparr>\<rparr> in
                case join_worker turns (pp_shutdown (pw_pool w2)) True h of
                  None \<Rightarrow> None
                | Some h' \<Rightarrow>
                    (let w3 = w2\<lparr>pw_pool := (pw_pool w2)\<lparr>pp_last_scale_down := Some (pw_clock w2)\<rparr>\<rparr>
                     in Some (Inr True, log_pool_occupancy E ''autoscale_tick.scale_down'' w3)))))"

text \<open>
  \<open>shutdown\<close>: the flag is set when a worker is there to receive it (\<open>watch::Sender::send\<close>
  fails, and changes nothing, without a receiver), then the last slot is removed and its
  worker joined until none is left.  The result also lists the joined handles, the last slot
  first.
\<close>

function shutdown_loop ::
  "loop_input list \<Rightarrow> process_pool \<Rightarrow> (slot_handle list \<times> process_pool) option" where
  "shutdown_loop turns p =
     (if pp_slots p = [] then Some ([], p)
      else
        (let slot = last (pp_slots p); p1 = p\<lparr>pp_slots := butlast (pp_slots p)\<rparr> in
         case join_worker turns (pp_shutdown p1) True slot of
           None \<Rightarrow> None
         | Some h \<Rightarrow> map_option (\<lambda>(hs, q). (h # hs, q)) (shutdown_loop turns p1)))"
  by pat_completeness auto
termination
  by (relation "measure (\<lambda>(turns, p). length (pp_slots p))") auto

declare shutdown_loop.simps [simp del]

definition pool_shutdown ::
  "loop_input list \<Rightarrow> process_pool \<Rightarrow> (slot_handle list \<times> process_pool) option" where
  "pool_shutdown turns p =
     shutdown_loop turns (p\<lparr>pp_shutdown := (pp_shutdown p \<or> list_ex h_alive (pp_slots p))\<rparr>)"

end
