(* ===== verification/PoolInvariant.thy ===== *)
theory PoolInvariant
  imports PoolAlloc
begin

text \<open>
  What the pool keeps.  \<open>pool_steps\<close> is reachability by atomic actions; every operation
  of the pool is a sequence of them (\<open>list_vm_slots_steps\<close>, \<open>allocate_vm_slot_steps\<close>, ...),
  so an invariant of the actions is an invariant of the operations.  \<open>pool_invariant\<close> is
  that interface; every slot invariant gives one (the sublocale), and the pool's own,
  \<open>pool_ok\<close>, adds that VM names are unique, that TAP names follow slot numbers and that the
  size stays within its bounds.
\<close>

section \<open>Reachability\<close>

inductive pool_steps :: "process_pool \<Rightarrow> process_pool \<Rightarrow> bool" for p where
  steps_refl: "pool_steps p p"
| steps_step: "pool_steps p q \<Longrightarrow> pool_steps p (apply_action a q)"

lemma pool_steps_trans: "pool_steps q r \<Longrightarrow> pool_steps p q \<Longrightarrow> pool_steps p r"
  by (induction rule: pool_steps.induct) (auto intro: pool_steps.intros)

lemma pool_steps_action: "pool_steps p (apply_action a p)"
  by (intro pool_steps.intros)

lemma apply_actions_steps: "pool_steps p (apply_actions as p)"
proof (induction as arbitrary: p)
  case (Cons a as)
  show ?case using pool_steps_trans [OF Cons pool_steps_action] by simp
qed (simp add: steps_refl)

lemma await_steps: "pool_steps (pw_pool w) (pw_pool (await E w))"
  by (simp add: await_def apply_actions_steps)

lemma send_command_steps:
  assumes "\<not> is_reserve cmd"
  shows "pool_steps (pw_pool w) (pw_pool (snd (send_command E i cmd w)))"
proof -
  let ?p = "pw_pool (await E w)"
  let ?h = "handle_command (pe_cmd_os E (pw_step w)) (h_bridge (pp_slots ?p ! i)) cmd (slot_rt ?p i)"
  have "on_slot i (\<lambda>_. snd ?h) ?p = apply_action (Act_command i (pe_cmd_os E (pw_step w)) cmd) ?p"
    using assms by (simp add: on_slot_def)
  then have "pool_steps (pw_pool w) (on_slot i (\<lambda>_. snd ?h) ?p)"
    using await_steps steps_step by metis
  then show ?thesis
    using await_steps [of w E] steps_refl
    by (auto simp: send_command_def Let_def log_entry_def split: prod.splits)
qed

lemma collect_statuses_steps:
  "pool_steps (pw_pool w) (pw_pool (snd (collect_statuses E is w)))"
proof (induction "is" arbitrary: w)
  case (Cons i "is")
  obtain r w1 where g: "get_vm_slot_status E i w = (r, w1)" by fastforce
  have "pool_steps (pw_pool w) (pw_pool w1)"
    using send_command_steps [of GetVmStatus w E i] g by (simp add: get_vm_slot_status_def)
  with g Cons.IH [of w1] show ?case
    by (auto split: sum.splits prod.splits intro: pool_steps_trans)
qed (simp add: steps_refl)

lemma list_vm_slots_steps: "pool_steps (pw_pool w) (pw_pool (snd (list_vm_slots E w)))"
  by (simp add: list_vm_slots_def collect_statuses_steps)

lemma log_pool_occupancy_steps: "pool_steps (pw_pool w) (pw_pool (log_pool_occupancy E r w))"
  using list_vm_slots_steps [of w E]
  by (auto simp: log_pool_occupancy_def log_entry_def split: sum.splits prod.splits)

lemma logged_command_steps:
  assumes "\<not> is_reserve cmd"
  shows "pool_steps (pw_pool w) (pw_pool (snd (logged_command E r i cmd w)))"
  using send_command_steps [OF assms, of w E i] log_pool_occupancy_steps
  by (auto simp: logged_command_def split: sum.splits prod.splits intro: pool_steps_trans [rotated])

lemma pool_extend_steps:
  assumes "length (pp_slots (pw_pool w)) < pp_max (pw_pool w)"
  shows "pool_steps (pw_pool w) (pw_pool (pool_extend E 1 w))"
proof -
  have "extend_slots 1 (pw_pool w) = apply_action Act_extend (pw_pool w)"
    using assms by simp
  then have "pool_steps (pw_pool w) (extend_slots 1 (pw_pool w))"
    using pool_steps_action by metis
  then show ?thesis
    using log_pool_occupancy_steps [of "w\<lparr>pw_pool := extend_slots 1 (pw_pool w)\<rparr>" E "''extend''"]
    by (simp add: pool_extend_def pool_steps_trans)
qed

section \<open>The invariant interface\<close>

locale pool_invariant =
  fixes J :: "process_pool \<Rightarrow> bool"
  assumes J_action: "J p \<Longrightarrow> J (apply_action a p)"
begin

lemma J_steps: "pool_steps p q \<Longrightarrow> J p \<Longrightarrow> J q"
  by (induction rule: pool_steps.induct) (simp_all add: J_action)

lemma J_await: "J (pw_pool w) \<Longrightarrow> J (pw_pool (await E w))"
  by (rule J_steps [OF await_steps])

lemma J_list: "J (pw_pool w) \<Longrightarrow> J (pw_pool (snd (list_vm_slots E w)))"
  by (rule J_steps [OF list_vm_slots_steps])

end

section \<open>Slots after an update\<close>

lemma slot_rt_on_slot:
  "j < length (pp_slots p) \<Longrightarrow>
   slot_rt (on_slot i f p) j
     = (if j = i \<and> h_alive (pp_slots p ! i) then f (slot_rt p i) else slot_rt p j)"
  by (auto simp: on_slot_def slot_rt_def)

lemma slot_rt_extend:
  "j < length (pp_slots p) + k \<Longrightarrow>
   slot_rt (extend_slots k p) j
     = (if j < length (pp_slots p) then slot_rt p j else initial_runtime j)"
  by (auto simp: extend_slots_def slot_rt_def Let_def nth_append initialize_slot_def)

lemma slot_rt_butlast:
  "j < length (pp_slots p) - 1 \<Longrightarrow> slot_rt (p\<lparr>pp_slots := butlast (pp_slots p), pp_last_scale_down := t\<rparr>) j = slot_rt p j"
  by (simp add: slot_rt_def nth_butlast)

lemma slot_rt_exit:
  "j < length (pp_slots p) \<Longrightarrow>
   slot_rt (p\<lparr>pp_slots := (pp_slots p)[i := (pp_slots p ! i)\<lparr>h_runtime := f (slot_rt p i), h_alive := b\<rparr>]\<rparr>) j
     = (if j = i then f (slot_rt p i) else slot_rt p j)"
  by (auto simp: slot_rt_def)

lemmas slot_rt_updates = slot_rt_on_slot slot_rt_extend slot_rt_butlast slot_rt_exit

text \<open>An invariant of the workers is an invariant of every slot of the pool.\<close>

definition all_slots :: "(nat \<Rightarrow> slot_runtime \<Rightarrow> bool) \<Rightarrow> process_pool \<Rightarrow> bool" where
  "all_slots I p = (\<forall>i < length (pp_slots p). I i (slot_rt p i))"

sublocale slot_invariant \<subseteq> lifted: pool_invariant "all_slots I"
proof unfold_locales
  fix p a
  assume "all_slots I p"
  then show "all_slots I (apply_action a p)"
    by (cases a)
      (auto simp: all_slots_def slot_rt_updates inv_init inv_spawn inv_poll inv_command inv_stop)
qed

section \<open>Unique names, TAP names and size\<close>

text \<open>Only a reservation puts a name or a TAP into a slot; every other step keeps or clears.\<close>

definition identity_shrinks :: "slot_status \<Rightarrow> slot_status \<Rightarrow> bool" where
  "identity_shrinks st st' =
     ((ss_name st' = None \<or> ss_name st' = ss_name st) \<and> (ss_tap st' = None \<or> ss_tap st' = ss_tap st))"

lemma identity_shrinks_spawn: "identity_shrinks (rt_status rt) (rt_status (spawn_phase out rt))"
  by (auto simp: identity_shrinks_def spawn_phase_def slot_op_defs Let_def split: sum.splits)

lemma identity_shrinks_poll: "identity_shrinks (rt_status rt) (rt_status (poll_phase w rt))"
  by (auto simp: identity_shrinks_def poll_phase_def slot_op_defs Let_def
      split: wait_outcome.splits option.splits slot_state.splits)

lemma identity_shrinks_command:
  "\<not> is_reserve cmd \<Longrightarrow>
   identity_shrinks (rt_status rt) (rt_status (snd (handle_command os bridge cmd rt)))"
  by (cases cmd)
    (auto simp: handle_command.simps identity_shrinks_def slot_op_defs Let_def split: option.splits)

lemma identity_shrinks_stop: "identity_shrinks (rt_status rt) (rt_status (stop_worker out rt))"
  by (simp add: identity_shrinks_def frame_simps)

lemmas identity_shrinks_intros =
  identity_shrinks_spawn identity_shrinks_poll identity_shrinks_command identity_shrinks_stop

lemma reserve_identity:
  "(ss_name (rt_status (snd (handle_command os bridge (ReserveVm n m t) rt))),
    ss_tap (rt_status (snd (handle_command os bridge (ReserveVm n m t) rt))))
     \<in> {(ss_name (rt_status rt), ss_tap (rt_status rt)), (Some n, Some t)}"
  by (auto simp: handle_command.simps slot_op_defs Let_def split: sum.splits)

definition names_unique :: "process_pool \<Rightarrow> bool" where
  "names_unique p =
     (\<forall>i < length (pp_slots p). \<forall>j < length (pp_slots p).
        i \<noteq> j \<longrightarrow> ss_name (slot_st p i) \<noteq> None \<longrightarrow> ss_name (slot_st p i) \<noteq> ss_name (slot_st p j))"

definition taps_ok :: "process_pool \<Rightarrow> bool" where
  "taps_ok p =
     (\<forall>i < length (pp_slots p). ss_tap (slot_st p i) = None \<or> ss_tap (slot_st p i) = Some (tap_name i))"

definition size_ok :: "process_pool \<Rightarrow> bool" where
  "size_ok p = (pp_min p \<le> length (pp_slots p) \<and> length (pp_slots p) \<le> pp_max p)"

definition handles_ok :: "process_pool \<Rightarrow> bool" where
  "handles_ok p =
     (\<forall>i < length (pp_slots p).
        h_socket (pp_slots p ! i) = vm_socket_path i p
        \<and> h_args (pp_slots p ! i) = pp_args p @ [''--api-socket'', vm_socket_path i p]
        \<and> h_program (pp_slots p ! i) = pp_program p \<and> h_bridge (pp_slots p ! i) = pp_bridge p)"

lemma name_used_iff:
  "name_used n p \<longleftrightarrow> (\<exists>i < length (pp_slots p). ss_name (slot_st p i) = Some n)"
  by (auto simp: name_used_def list_ex_length slot_st_def slot_rt_def)

lemma names_unique_shrink:
  assumes "names_unique p" and "length (pp_slots q) \<le> length (pp_slots p)"
    and "\<And>i. i < length (pp_slots q) \<Longrightarrow>
           ss_name (slot_st q i) = None \<or> ss_name (slot_st q i) = ss_name (slot_st p i)"
  shows "names_unique q"
  using assms(1,2) assms(3) unfolding names_unique_def
  by (metis (no_types, lifting) less_le_trans)

lemma names_unique_on_slot:
  assumes "names_unique p"
    and "\<And>rt. identity_shrinks (rt_status rt) (rt_status (f rt))"
  shows "names_unique (on_slot i f p)"
  using assms(1)
proof (rule names_unique_shrink)
  fix j assume "j < length (pp_slots (on_slot i f p))"
  then show "ss_name (slot_st (on_slot i f p) j) = None
      \<or> ss_name (slot_st (on_slot i f p) j) = ss_name (slot_st p j)"
    using assms(2) [of "slot_rt p i"]
    by (auto simp: slot_st_def slot_rt_on_slot identity_shrinks_def)
qed simp

lemma names_unique_exit:
  assumes "names_unique p"
  shows "names_unique (p\<lparr>pp_slots := (pp_slots p)[i := (pp_slots p ! i)
           \<lparr>h_runtime := stop_worker out (slot_rt p i), h_alive := False\<rparr>]\<rparr>)"
  using assms
  by (rule names_unique_shrink) (auto simp: slot_st_def slot_rt_exit frame_simps)

lemma names_unique_reserve:
  assumes "names_unique p" and "\<not> name_used n p"
  shows "names_unique (on_slot i (\<lambda>rt. snd (handle_command os b (ReserveVm n m t) rt)) p)"
    (is "names_unique ?q")
proof -
  have new: "ss_name (slot_st ?q j) = ss_name (slot_st p j) \<or> j = i \<and> ss_name (slot_st ?q j) = Some n"
    if "j < length (pp_slots p)" for j
    using reserve_identity [of os b n m t "slot_rt p i"] that
    by (auto simp: slot_st_def slot_rt_on_slot)
  have fresh: "ss_name (slot_st p j) \<noteq> Some n" if "j < length (pp_slots p)" for j
    using assms(2) that by (auto simp: name_used_iff)
  show ?thesis
    using assms(1) new fresh unfolding names_unique_def on_slot_length by metis
qed

lemma names_unique_extend: "names_unique p \<Longrightarrow> names_unique (extend_slots k p)"
proof -
  assume u: "names_unique p"
  have "ss_name (slot_st (extend_slots k p) j) =
      (if j < length (pp_slots p) then ss_name (slot_st p j) else None)"
    if "j < length (pp_slots p) + k" for j
    using that by (simp add: slot_st_def slot_rt_extend initial_runtime_def initial_status_def)
  with u show ?thesis unfolding names_unique_def extend_slots_length by auto
qed

interpretation names: pool_invariant names_unique
proof unfold_locales
  fix p a
  assume u: "names_unique p"
  show "names_unique (apply_action a p)"
  proof (cases a)
    case (Act_pop now)
    have "names_unique (p\<lparr>pp_slots := butlast (pp_slots p), pp_last_scale_down := Some now\<rparr>)"
      using u by (rule names_unique_shrink) (auto simp: slot_st_def slot_rt_butlast)
    with u Act_pop show ?thesis by simp
  qed (use u in \<open>auto intro: names_unique_on_slot names_unique_exit names_unique_reserve
        names_unique_extend identity_shrinks_intros\<close>)
qed

lemma taps_ok_on_slot:
  assumes "taps_ok p"
    and "\<And>rt. identity_shrinks (rt_status rt) (rt_status (f rt))"
  shows "taps_ok (on_slot i f p)"
  using assms(1) assms(2) [of "slot_rt p i"]
  by (auto simp: taps_ok_def slot_st_def slot_rt_on_slot identity_shrinks_def)

lemma taps_ok_reserve:
  "taps_ok p \<Longrightarrow>
   taps_ok (on_slot i (\<lambda>rt. snd (handle_command os b (ReserveVm n m (tap_name i)) rt)) p)"
  using reserve_identity [of os b n m "tap_name i" "slot_rt p i"]
  by (auto simp: taps_ok_def slot_st_def slot_rt_on_slot)

interpretation taps: pool_invariant taps_ok
proof unfold_locales
  fix p a
  assume t: "taps_ok p"
  show "taps_ok (apply_action a p)"
  proof (cases a)
    case (Act_pop now)
    with t show ?thesis by (auto simp: taps_ok_def slot_st_def slot_rt_butlast)
  next
    case (Act_exit i out)
    with t show ?thesis by (auto simp: taps_ok_def slot_st_def slot_rt_exit frame_simps)
  next
    case Act_extend
    with t show ?thesis
      by (auto simp: taps_ok_def slot_st_def slot_rt_extend initial_runtime_def initial_status_def)
  qed (use t in \<open>auto intro: taps_ok_on_slot taps_ok_reserve identity_shrinks_intros\<close>)
qed

interpretation size: pool_invariant size_ok
proof unfold_locales
  show "size_ok p \<Longrightarrow> size_ok (apply_action a p)" for p a
    by (cases a) (auto simp: size_ok_def)
qed

lemma handles_ok_cong:
  assumes "handles_ok p" and "length (pp_slots q) \<le> length (pp_slots p)"
    and "\<And>i. i < length (pp_slots q) \<Longrightarrow>
           h_socket (pp_slots q ! i) = h_socket (pp_slots p ! i)
           \<and> h_args (pp_slots q ! i) = h_args (pp_slots p ! i)
           \<and> h_program (pp_slots q ! i) = h_program (pp_slots p ! i)
           \<and> h_bridge (pp_slots q ! i) = h_bridge (pp_slots p ! i)"
    and "pp_vm_path q = pp_vm_path p" "pp_args q = pp_args p" "pp_program q = pp_program p"
    "pp_bridge q = pp_bridge p"
  shows "handles_ok q"
  using assms unfolding handles_ok_def vm_socket_path_def by simp

lemma handles_ok_on_slot: "handles_ok p \<Longrightarrow> handles_ok (on_slot i f p)"
  by (erule handles_ok_cong) (auto simp: on_slot_def nth_list_update)

lemma handles_ok_extend: "handles_ok p \<Longrightarrow> handles_ok (extend_slots k p)"
  unfolding handles_ok_def vm_socket_path_def
  by (auto simp: extend_slots_def Let_def nth_append initialize_slot_def)

interpretation handles: pool_invariant handles_ok
proof unfold_locales
  fix p a
  assume h: "handles_ok p"
  show "handles_ok (apply_action a p)"
  proof (cases a)
    case (Act_pop now)
    have "handles_ok (p\<lparr>pp_slots := butlast (pp_slots p), pp_last_scale_down := Some now\<rparr>)"
      using h by (rule handles_ok_cong) (simp_all add: nth_butlast)
    with h Act_pop show ?thesis by simp
  next
    case (Act_exit i out)
    have "handles_ok (p\<lparr>pp_slots := (pp_slots p)[i := (pp_slots p ! i)
        \<lparr>h_runtime := stop_worker out (slot_rt p i), h_alive := False\<rparr>]\<rparr>)"
      using h
      by (rule handles_ok_cong; cases "i < length (pp_slots p)")
        (auto simp: nth_list_update list_update_beyond)
    with h Act_exit show ?thesis by simp
  qed (use h in \<open>auto intro: handles_ok_on_slot handles_ok_extend\<close>)
qed

section \<open>The pool's invariant\<close>

definition pool_ok :: "process_pool \<Rightarrow> bool" where
  "pool_ok p =
     (all_slots (\<lambda>n. slot_wf) p \<and> all_slots slot_numbered p \<and> names_unique p \<and> taps_ok p
      \<and> size_ok p \<and> handles_ok p)"

interpretation pool: pool_invariant pool_ok
proof unfold_locales
  show "pool_ok p \<Longrightarrow> pool_ok (apply_action a p)" for p a
    unfolding pool_ok_def
    by (intro conjI wf.lifted.J_action num.lifted.J_action names.J_action taps.J_action
        size.J_action handles.J_action) simp_all
qed

lemma pool_spawn_ok:
  assumes "pool_spawn mn mx cd program args bridge vm_path = Inr p"
  shows "pool_ok p"
proof -
  from assms have le: "mn \<le> mx"
    and p: "p = \<lparr>pp_shutdown = False,
             pp_slots = map (\<lambda>n. initialize_slot n program args bridge vm_path) [0..<mn],
             pp_vm_path = vm_path, pp_program = program, pp_args = args, pp_bridge = bridge,
             pp_min = mn, pp_max = mx, pp_cooldown = cd, pp_last_scale_down = None\<rparr>"
    by (auto simp: pool_spawn_def split: if_splits)
  have rt: "slot_rt p i = initial_runtime i" if "i < mn" for i
    using that by (simp add: p slot_rt_def initialize_slot_def Let_def)
  then have st: "slot_st p i = initial_status i" if "i < mn" for i
    using that by (simp add: slot_st_def initial_runtime_def)
  have len: "length (pp_slots p) = mn" by (simp add: p)
  show ?thesis
    unfolding pool_ok_def
  proof (intro conjI)
    show "all_slots (\<lambda>n. slot_wf) p" "all_slots slot_numbered p"
      by (simp_all add: all_slots_def len rt wf.inv_init num.inv_init)
    show "names_unique p" "taps_ok p"
      by (simp_all add: names_unique_def taps_ok_def len st initial_status_def)
    show "size_ok p" using le by (simp add: size_ok_def p)
    show "handles_ok p"
      by (simp add: handles_ok_def len vm_socket_path_def) (simp add: p initialize_slot_def Let_def)
  qed
qed

end
