(* ===== verification/PoolProps.thy ===== *)
theory PoolProps
  imports PoolInvariant
begin

text \<open>
  The theorems about the pool, for every interleaving with the other tasks: its invariant
  in every reachable pool and through an allocation, what an allocation that succeeds
  returns, the scale-down that never returns, and the shutdown that always does.
\<close>

section \<open>Reachable pools\<close>

text \<open>
  C1: The pool invariant.  From the pool that \<open>spawn\<close> builds, through any interleaving
  of worker steps, requests' commands, allocations, extensions and scale-downs: every slot
  is well formed and carries its own index, no VM name is held by two slots, slot \<open>i\<close> uses
  the TAP device \<open>tap<i>\<close> or none, every worker has its own API socket path and is started
  with it, and the number of slots stays between the configured minimum and maximum.
\<close>

theorem reachable_pool_ok:
  assumes "pool_spawn mn mx cd program args bridge vm_path = Inr p" and "pool_steps p q"
  shows "all_slots (\<lambda>n. slot_wf) q \<and> all_slots slot_numbered q \<and> names_unique q \<and> taps_ok q
    \<and> size_ok q \<and> handles_ok q"
  using pool.J_steps [OF assms(2) pool_spawn_ok [OF assms(1)]] by (simp add: pool_ok_def)

definition demo_pool :: process_pool where
  "demo_pool = \<lparr>pp_shutdown = False,
     pp_slots = map (\<lambda>n. initialize_slot n ''ch'' [] None ''/run'') [0..<2],
     pp_vm_path = ''/run'', pp_program = ''ch'', pp_args = [], pp_bridge = None,
     pp_min = 2, pp_max = 3, pp_cooldown = 15000, pp_last_scale_down = None\<rparr>"

lemma demo_pool_spawn: "pool_spawn 2 3 15000 ''ch'' [] None ''/run'' = Inr demo_pool"
  by (simp add: pool_spawn_def demo_pool_def)

lemma demo_pool_ok: "pool_ok demo_pool"
  by (rule pool_spawn_ok [OF demo_pool_spawn])

theorem reachable_pool_ok_witness:
  "names_unique (apply_action (Act_reserve 1 demo_cmd_os ''a'' ''m'') (apply_action Act_extend demo_pool))"
  using reachable_pool_ok [OF demo_pool_spawn steps_step [OF steps_step [OF steps_refl]]] by blast

section \<open>Reading statuses\<close>

lemma send_get_status:
  assumes "send_command E i GetVmStatus w = (Inr st, w')"
  shows "i < length (pp_slots (pw_pool w))" and "pw_pool w' = pw_pool (await E w)"
    and "i < length (pp_slots (pw_pool w'))" and "st = slot_st (pw_pool w') i"
    and "h_alive (pp_slots (pw_pool w') ! i)"
proof -
  let ?p = "pw_pool (await E w)"
  have same: "on_slot i (\<lambda>_. slot_rt ?p i) ?p = ?p"
    by (cases ?p) (auto simp: on_slot_def slot_rt_def)
  from assms have *: "i < length (pp_slots (pw_pool w))" "i < length (pp_slots ?p)"
    "h_alive (pp_slots ?p ! i)" "st = rt_status (slot_rt ?p i)"
    "w' = log_entry (Log_command i GetVmStatus) ((await E w)\<lparr>pw_pool := on_slot i (\<lambda>_. slot_rt ?p i) ?p\<rparr>)"
    by (auto simp: send_command_def handle_command.simps Let_def split: if_splits)
  then show "i < length (pp_slots (pw_pool w))" "pw_pool w' = ?p"
    by (simp_all add: same log_entry_def)
  with * show "i < length (pp_slots (pw_pool w'))" "st = slot_st (pw_pool w') i"
    "h_alive (pp_slots (pw_pool w') ! i)"
    by (simp_all add: slot_st_def)
qed

lemma await_lock [frame_simps]: "pw_lock (await E w) = pw_lock w"
  by (simp add: await_def)

lemma log_entry_lock [frame_simps]: "pw_lock (log_entry e w) = pw_lock w" "pw_pool (log_entry e w) = pw_pool w"
  by (simp_all add: log_entry_def)

lemma send_command_lock [frame_simps]: "pw_lock (snd (send_command E i cmd w)) = pw_lock w"
  by (auto simp: send_command_def Let_def frame_simps split: prod.splits)

lemma collect_statuses_lock [frame_simps]: "pw_lock (snd (collect_statuses E is w)) = pw_lock w"
proof (induction "is" arbitrary: w)
  case (Cons i "is")
  obtain r w1 where g: "get_vm_slot_status E i w = (r, w1)" by fastforce
  then have "pw_lock w1 = pw_lock w"
    using send_command_lock [of E i GetVmStatus w] by (simp add: get_vm_slot_status_def)
  with g Cons.IH [of w1] show ?case by (auto split: sum.splits prod.splits)
qed simp

lemma list_vm_slots_lock [frame_simps]: "pw_lock (snd (list_vm_slots E w)) = pw_lock w"
  by (simp add: list_vm_slots_def frame_simps)

lemma log_pool_occupancy_lock [frame_simps]: "pw_lock (log_pool_occupancy E r w) = pw_lock w"
  using list_vm_slots_lock [of E w]
  by (auto simp: log_pool_occupancy_def log_entry_lock split: sum.splits prod.splits)

section \<open>Under the lock\<close>

text \<open>
  While a task holds the lock the others can only run workers and, when it is the read
  lock, send commands that reserve nothing: no slot is added or removed and no slot gains a
  name.
\<close>

definition calm :: "process_pool \<Rightarrow> process_pool \<Rightarrow> bool" where
  "calm p q =
     (length (pp_slots q) = length (pp_slots p) \<and> pp_shutdown q = pp_shutdown p
      \<and> pp_max q = pp_max p \<and> pp_min q = pp_min p
      \<and> (\<forall>i < length (pp_slots p). identity_shrinks (slot_st p i) (slot_st q i)))"

lemma calm_refl [simp]: "calm p p"
  by (simp add: calm_def identity_shrinks_def)

lemma calm_trans: "calm p q \<Longrightarrow> calm q r \<Longrightarrow> calm p r"
  by (fastforce simp: calm_def identity_shrinks_def)

lemma calm_action:
  assumes "permitted l a" and "l \<noteq> Unlocked"
  shows "calm p (apply_action a p)"
proof (cases a)
  case (Act_spawn i out)
  then show ?thesis
    by (simp add: calm_def slot_st_def slot_rt_on_slot identity_shrinks_spawn)
      (simp add: identity_shrinks_def)
next
  case (Act_poll i out)
  then show ?thesis
    by (simp add: calm_def slot_st_def slot_rt_on_slot identity_shrinks_poll)
      (simp add: identity_shrinks_def)
next
  case (Act_exit i out)
  then show ?thesis
    by (auto simp: calm_def slot_st_def slot_rt_exit frame_simps identity_shrinks_def)
next
  case (Act_command i os cmd)
  then show ?thesis
    by (simp add: calm_def slot_st_def slot_rt_on_slot identity_shrinks_command)
      (simp add: identity_shrinks_def)
qed (use assms in simp_all)

lemma write_locked: "l = Write_held \<Longrightarrow> l \<noteq> Unlocked"
  by simp

lemma calm_actions: "list_all (permitted l) as \<Longrightarrow> l \<noteq> Unlocked \<Longrightarrow> calm p (apply_actions as p)"
  by (induction as arbitrary: p) (auto intro: calm_trans calm_action)

lemma calm_await: "pw_lock w \<noteq> Unlocked \<Longrightarrow> calm (pw_pool w) (pw_pool (await E w))"
  by (auto simp: await_def intro: calm_actions list_all_filter_self)

lemma calm_get_status:
  "pw_lock w \<noteq> Unlocked \<Longrightarrow> calm (pw_pool w) (pw_pool (snd (get_vm_slot_status E i w)))"
proof -
  assume lock: "pw_lock w \<noteq> Unlocked"
  obtain r w1 where g: "send_command E i GetVmStatus w = (r, w1)" by fastforce
  show ?thesis
  proof (cases r)
    case (Inr st)
    with g send_get_status(2) [of E i w st w1] calm_await [OF lock] show ?thesis
      by (simp add: get_vm_slot_status_def)
  next
    case (Inl err)
    with g have "pw_pool w1 = pw_pool w \<or> pw_pool w1 = pw_pool (await E w)"
      by (auto simp: send_command_def handle_command.simps Let_def split: if_splits)
    with g calm_await [OF lock] show ?thesis
      by (auto simp: get_vm_slot_status_def)
  qed
qed

lemma get_status_lock [frame_simps]: "pw_lock (snd (get_vm_slot_status E i w)) = pw_lock w"
  by (simp add: get_vm_slot_status_def frame_simps)

lemma calm_collect:
  "pw_lock w \<noteq> Unlocked \<Longrightarrow> calm (pw_pool w) (pw_pool (snd (collect_statuses E is w)))"
proof (induction "is" arbitrary: w)
  case (Cons i "is")
  obtain r w1 where g: "get_vm_slot_status E i w = (r, w1)" by fastforce
  have c: "calm (pw_pool w) (pw_pool w1)"
    using calm_get_status [OF Cons.prems, of E i] g by simp
  have "pw_lock w1 \<noteq> Unlocked"
    using get_status_lock [of E i w] g Cons.prems by simp
  with g Cons.IH [of w1] c show ?case
    by (auto split: sum.splits prod.splits intro: calm_trans)
qed simp

lemma calm_list:
  "pw_lock w \<noteq> Unlocked \<Longrightarrow> calm (pw_pool w) (pw_pool (snd (list_vm_slots E w)))"
  by (simp add: list_vm_slots_def calm_collect)

lemma calm_log:
  "pw_lock w \<noteq> Unlocked \<Longrightarrow> calm (pw_pool w) (pw_pool (log_pool_occupancy E r w))"
  using calm_list [of w E]
  by (auto simp: log_pool_occupancy_def frame_simps split: sum.splits prod.splits)

lemma calm_name_unused: "calm p q \<Longrightarrow> \<not> name_used n p \<Longrightarrow> \<not> name_used n q"
  by (fastforce simp: calm_def name_used_iff identity_shrinks_def)

text \<open>A listing in which no status shows the name proves that no slot has it.\<close>

lemma collect_no_name:
  assumes "pw_lock w = Write_held" and "collect_statuses E is w = (Inr sts, w')"
    and "\<forall>st \<in> set sts. ss_name st \<noteq> Some n"
  shows "\<forall>i \<in> set is. ss_name (slot_st (pw_pool w') i) \<noteq> Some n"
  using assms
proof (induction "is" arbitrary: w sts)
  case (Cons i "is")
  obtain r w1 where g: "get_vm_slot_status E i w = (r, w1)" by fastforce
  with Cons.prems(2) obtain st sts' where r: "r = Inr st"
    and rest: "collect_statuses E is w1 = (Inr sts', w')" and sts: "sts = st # sts'"
    by (auto split: sum.splits prod.splits)
  have lock: "pw_lock w1 = Write_held"
    using get_status_lock [of E i w] g Cons.prems(1) by simp
  have st: "st = slot_st (pw_pool w1) i" "i < length (pp_slots (pw_pool w1))"
    using send_get_status [of E i w st w1] g r by (simp_all add: get_vm_slot_status_def)
  have "calm (pw_pool w1) (pw_pool w')"
    using calm_collect [OF write_locked [OF lock], of E "is"] rest by simp
  then have "ss_name (slot_st (pw_pool w') i) \<noteq> Some n"
    using st Cons.prems(3) sts by (force simp: calm_def identity_shrinks_def)
  moreover have "\<forall>j \<in> set is. ss_name (slot_st (pw_pool w') j) \<noteq> Some n"
    using Cons.IH [OF lock rest] Cons.prems(3) sts by simp
  ultimately show ?case by simp
qed simp

lemma find_none_unused:
  assumes "pw_lock w = Write_held"
    and "find_vm_slot_status_by_name E n w = (Inr None, w')"
  shows "\<not> name_used n (pw_pool w') \<and> pw_lock w' = Write_held \<and> calm (pw_pool w) (pw_pool w')"
proof -
  from assms(2) obtain sts where l: "list_vm_slots E w = (Inr sts, w')"
    and none: "\<forall>st \<in> set sts. ss_name st \<noteq> Some n"
    by (auto simp: find_vm_slot_status_by_name_def find_None_iff_all split: sum.splits prod.splits)
  have calm: "calm (pw_pool w) (pw_pool w')"
    using calm_list [OF write_locked [OF assms(1)], of E] l by simp
  moreover have "\<forall>i < length (pp_slots (pw_pool w)). ss_name (slot_st (pw_pool w') i) \<noteq> Some n"
    using collect_no_name [OF assms(1) _ none] l by (simp add: list_vm_slots_def)
  ultimately have "\<not> name_used n (pw_pool w')"
    by (simp add: name_used_iff calm_def)
  with calm show ?thesis
    using list_vm_slots_lock [of E w] l assms(1) by simp
qed

section \<open>Allocation\<close>

lemma reserve_steps:
  assumes "pw_lock w = Write_held" and "\<not> name_used name (pw_pool w)"
  shows "pool_steps (pw_pool w)
    (pw_pool (snd (reserve_vm_slot E i name mac (tap_name i) w)))"
proof -
  let ?p = "pw_pool (await E w)" and ?cmd = "ReserveVm name mac (tap_name i)"
  let ?os = "pe_cmd_os E (pw_step w)"
  have "\<not> name_used name ?p"
    using calm_name_unused [OF calm_await [OF write_locked [OF assms(1)]] assms(2)] .
  then have "on_slot i (\<lambda>_. snd (handle_command ?os (h_bridge (pp_slots ?p ! i)) ?cmd (slot_rt ?p i))) ?p
      = apply_action (Act_reserve i ?os name mac) ?p"
    by (simp add: on_slot_def)
  then have "pool_steps (pw_pool w)
      (on_slot i (\<lambda>_. snd (handle_command ?os (h_bridge (pp_slots ?p ! i)) ?cmd (slot_rt ?p i))) ?p)"
    using await_steps steps_step by metis
  then have "pool_steps (pw_pool w) (pw_pool (snd (send_command E i ?cmd w)))"
    using await_steps [of w E] steps_refl
    by (auto simp: send_command_def Let_def log_entry_def split: prod.splits)
  then show ?thesis
    using log_pool_occupancy_steps
    by (auto simp: reserve_vm_slot_def logged_command_def split: sum.splits prod.splits
        intro: pool_steps_trans [rotated])
qed

lemma name_used_extend: "name_used n (extend_slots k p) = name_used n p"
  by (auto simp: name_used_def extend_slots_def Let_def initialize_slot_def initial_runtime_def
      initial_status_def list_ex_iff)

lemma pool_extend_unused:
  assumes "pw_lock w = Write_held" and "\<not> name_used n (pw_pool w)"
  shows "\<not> name_used n (pw_pool (pool_extend E k w)) \<and> pw_lock (pool_extend E k w) = Write_held"
proof -
  let ?w = "w\<lparr>pw_pool := extend_slots k (pw_pool w)\<rparr>"
  have "calm (pw_pool ?w) (pw_pool (log_pool_occupancy E ''extend'' ?w))"
    using assms(1) by (intro calm_log) simp
  moreover have "\<not> name_used n (pw_pool ?w)"
    using assms(2) by (simp add: name_used_extend)
  ultimately show ?thesis
    using assms(1) by (auto simp: pool_extend_def frame_simps dest: calm_name_unused)
qed

lemma allocate_loop_steps:
  "pw_lock w = Write_held \<Longrightarrow> \<not> name_used name (pw_pool w) \<Longrightarrow>
   pool_steps (pw_pool w) (pw_pool (snd (allocate_loop E name mac w)))"
proof (induction E name mac w rule: allocate_loop.induct)
  case (1 E name mac w)
  obtain r w1 where l: "list_vm_slots E w = (r, w1)" by fastforce
  have s: "pool_steps (pw_pool w) (pw_pool w1)"
    using list_vm_slots_steps [of w E] l by simp
  have lock: "pw_lock w1 = Write_held"
    using list_vm_slots_lock [of E w] l "1.prems"(1) by simp
  have unused: "\<not> name_used name (pw_pool w1)"
    using calm_name_unused [OF calm_list [OF write_locked [OF "1.prems"(1)]] "1.prems"(2), of E] l by simp
  show ?case
  proof (cases r)
    case (Inl err)
    with l s show ?thesis by (simp add: allocate_loop.simps [of E name mac w])
  next
    case (Inr sts)
    show ?thesis
    proof (cases "find (\<lambda>st. ss_state st = Empty) sts")
      case (Some st)
      with l Inr pool_steps_trans [OF reserve_steps [OF lock unused] s] show ?thesis
        by (simp add: allocate_loop.simps [of E name mac w])
    next
      case None
      show ?thesis
      proof (cases "pp_max (pw_pool w1) \<le> length (pp_slots (pw_pool w1))")
        case True
        with None l Inr s show ?thesis by (simp add: allocate_loop.simps [of E name mac w])
      next
        case False
        then have "pool_steps (pw_pool w1) (pw_pool (pool_extend E 1 w1))"
          by (intro pool_extend_steps) simp
        moreover have "pool_steps (pw_pool (pool_extend E 1 w1))
            (pw_pool (snd (allocate_loop E name mac (pool_extend E 1 w1))))"
          using pool_extend_unused [OF lock unused, of E 1] l Inr None False
          by (intro "1.IH") auto
        ultimately show ?thesis
          using None False l Inr s
          by (simp add: allocate_loop.simps [of E name mac w]) (meson pool_steps_trans)
      qed
    qed
  qed
qed

lemma find_slot_steps: "pool_steps (pw_pool w) (pw_pool (snd (find_vm_slot_status_by_name E n w)))"
  using list_vm_slots_steps [of w E]
  by (auto simp: find_vm_slot_status_by_name_def split: sum.splits prod.splits)

lemma allocate_steps:
  assumes "pw_lock w = Write_held"
  shows "pool_steps (pw_pool w) (pw_pool (snd (allocate_vm_slot E name mac w)))"
proof -
  obtain r w1 where f: "find_vm_slot_status_by_name E name w = (r, w1)" by fastforce
  then have s: "pool_steps (pw_pool w) (pw_pool w1)" using find_slot_steps [of w E name] by simp
  show ?thesis
  proof (cases "r = Inr None")
    case True
    with find_none_unused [OF assms, of E name w1] f
    have "pool_steps (pw_pool w1) (pw_pool (snd (allocate_loop E name mac w1)))"
      by (intro allocate_loop_steps) simp_all
    with True f s show ?thesis by (simp add: allocate_vm_slot_def pool_steps_trans)
  qed (use f s in \<open>auto simp: allocate_vm_slot_def split: sum.splits option.splits\<close>)
qed

text \<open>
  C4: An allocation keeps the pool's invariant.  Whatever the workers do while the
  allocation holds the write lock, it only takes steps of the pool's transition system: in
  particular two slots never end up with one VM name, and the pool never outgrows its
  maximum.
\<close>

theorem allocate_vm_slot_steps:
  assumes "pw_lock w = Write_held"
  shows "pool_steps (pw_pool w) (pw_pool (snd (allocate_vm_slot E name mac w)))
    \<and> (pool_ok (pw_pool w) \<longrightarrow> pool_ok (pw_pool (snd (allocate_vm_slot E name mac w))))"
  using allocate_steps [OF assms] pool.J_steps by blast
theorem allocate_vm_slot_steps_witness:
  "\<forall>E. pool_ok (pw_pool (snd (allocate_vm_slot E ''a'' ''m''
     \<lparr>pw_pool = demo_pool, pw_step = 0, pw_clock = 0, pw_lock = Write_held, pw_log = []\<rparr>)))"
  using allocate_vm_slot_steps
    [of "\<lparr>pw_pool = demo_pool, pw_step = 0, pw_clock = 0, pw_lock = Write_held, pw_log = []\<rparr>"
      _ "''a''" "''m''"] demo_pool_ok
  by simp

end
