(* ===== verification/PoolOutcome.thy ===== *)
theory PoolOutcome
  imports PoolProps
begin

text \<open>
  What the pool's operations return: the slot an allocation hands out, under any
  interleaving and, exactly, when no other task interferes; the autoscaler's tick that
  never comes back; the shutdown that ends every worker; the usage counts.
\<close>

section \<open>Allocations that succeed\<close>

lemma logged_command_Inr:
  "logged_command E r i cmd w = (Inr st, w') \<Longrightarrow>
   \<exists>w1. send_command E i cmd w = (Inr st, w1) \<and> w' = log_pool_occupancy E r w1"
  by (auto simp: logged_command_def split: sum.splits prod.splits)

definition reserved_for :: "string \<Rightarrow> string \<Rightarrow> slot_status \<Rightarrow> bool" where
  "reserved_for name mac st =
     (ss_state st = Booting \<and> ss_name st = Some name \<and> ss_mac st = Some mac
      \<and> ss_tap st = Some (tap_name (ss_slot st)) \<and> ss_started_at st = None
      \<and> ss_last_error st = None)"

lemma reserve_result:
  assumes "pool_ok (pw_pool w)" and "reserve_vm_slot E i name mac (tap_name i) w = (Inr st, w')"
  shows "reserved_for name mac st \<and> ss_slot st = i \<and> i < length (pp_slots (pw_pool w))"
proof -
  let ?p = "pw_pool (await E w)"
  from assms(2) obtain w1 where "send_command E i (ReserveVm name mac (tap_name i)) w = (Inr st, w1)"
    by (auto simp: reserve_vm_slot_def dest: logged_command_Inr)
  then have i: "i < length (pp_slots (pw_pool w))" "i < length (pp_slots ?p)"
    and st: "st = reserve_status name mac (tap_name i) (slot_st ?p i)"
    by (auto simp: send_command_def handle_command.simps Let_def slot_st_def log_os_def
        split: if_splits sum.splits)
  have "pool_ok ?p" using assms(1) by (rule pool.J_await)
  then have "ss_slot (slot_st ?p i) = i"
    using i by (simp add: pool_ok_def all_slots_def slot_numbered_def slot_st_def)
  with i st show ?thesis by (simp add: reserved_for_def reserve_status_def)
qed

lemma pool_ok_list: "pool_ok (pw_pool w) \<Longrightarrow> pool_ok (pw_pool (snd (list_vm_slots E w)))"
  by (rule pool.J_list)

lemma allocate_loop_result:
  "pool_ok (pw_pool w) \<Longrightarrow> allocate_loop E name mac w = (Inr st, w') \<Longrightarrow>
   reserved_for name mac st \<and> ss_slot st < pp_max (pw_pool w)"
proof (induction E name mac w rule: allocate_loop.induct)
  case (1 E name mac w)
  from "1.prems"(2) obtain sts w1 where l: "list_vm_slots E w = (Inr sts, w1)"
    by (auto simp: allocate_loop.simps [of E name mac w] split: sum.splits prod.splits)
  have ok: "pool_ok (pw_pool w1)" using pool_ok_list [OF "1.prems"(1), of E] l by simp
  have max: "pp_max (pw_pool w1) = pp_max (pw_pool w)"
    using list_vm_slots_grows [of w E] l by (simp add: grows_def)
  show ?case
  proof (cases "find (\<lambda>st. ss_state st = Empty) sts")
    case (Some s)
    with "1.prems"(2) l
    have "reserve_vm_slot E (ss_slot s) name mac (tap_name (ss_slot s)) w1 = (Inr st, w')"
      by (simp add: allocate_loop.simps [of E name mac w])
    from reserve_result [OF ok this] ok max show ?thesis
      by (auto simp: pool_ok_def size_ok_def)
  next
    case None
    with "1.prems"(2) l have lt: "\<not> pp_max (pw_pool w1) \<le> length (pp_slots (pw_pool w1))"
      and rest: "allocate_loop E name mac (pool_extend E 1 w1) = (Inr st, w')"
      by (auto simp: allocate_loop.simps [of E name mac w] split: if_splits)
    have steps: "pool_steps (pw_pool w1) (pw_pool (pool_extend E 1 w1))"
      using lt by (intro pool_extend_steps) simp
    have "pp_max (pw_pool (pool_extend E 1 w1)) = pp_max (pw_pool w1)"
      using log_pool_occupancy_grows [of "w1\<lparr>pw_pool := extend_slots 1 (pw_pool w1)\<rparr>"]
      by (simp add: pool_extend_def grows_def)
    with "1.IH" [OF l [symmetric] refl None lt pool.J_steps [OF steps ok] rest] max
    show ?thesis by simp
  qed
qed

text \<open>
  C24: An allocation that succeeds returns a slot reserved for the caller: booting, with the
  requested name and MAC, the TAP device of its own slot number, no start time and no error,
  and a slot number below the pool's maximum, whatever the workers and the other requests
  do meanwhile.
\<close>

theorem allocate_vm_slot_result:
  assumes "pool_ok (pw_pool w)" and "allocate_vm_slot E name mac w = (Inr st, w')"
  shows "ss_state st = Booting \<and> ss_name st = Some name \<and> ss_mac st = Some mac
    \<and> ss_tap st = Some (tap_name (ss_slot st)) \<and> ss_started_at st = None
    \<and> ss_last_error st = None \<and> ss_slot st < pp_max (pw_pool w)"
proof -
  from assms(2) obtain w1 where f: "find_vm_slot_status_by_name E name w = (Inr None, w1)"
    and l: "allocate_loop E name mac w1 = (Inr st, w')"
    by (auto simp: allocate_vm_slot_def split: sum.splits prod.splits option.splits)
  from f have p: "pw_pool w1 = pw_pool (snd (list_vm_slots E w))"
    by (auto simp: find_vm_slot_status_by_name_def split: sum.splits prod.splits)
  have "pool_ok (pw_pool w1)" using pool_ok_list [OF assms(1)] p by simp
  moreover have "pp_max (pw_pool w1) = pp_max (pw_pool w)"
    using list_vm_slots_grows [of w E] p by (simp add: grows_def)
  ultimately show ?thesis using allocate_loop_result [OF _ l] by (simp add: reserved_for_def)
qed

section \<open>Without interference\<close>

definition quiet_env :: "pool_env \<Rightarrow> bool" where
  "quiet_env E = (\<forall>t. pe_actions E t = [] \<and> \<not> pe_autoscales E t)"

definition all_alive :: "process_pool \<Rightarrow> bool" where
  "all_alive p = list_all h_alive (pp_slots p)"

lemma await_quiet: "quiet_env E \<Longrightarrow> pw_pool (await E w) = pw_pool w"
  by (simp add: quiet_env_def await_def)

text \<open>
  A pool no action of the environment changes.  Without interference every pool is one; the
  operations that only ask the workers leave such a pool as it is.
\<close>

definition still :: "pool_env \<Rightarrow> process_pool \<Rightarrow> bool" where
  "still E p = (\<forall>t l. apply_actions (filter (permitted l) (pe_actions E t)) p = p)"

lemma quiet_still: "quiet_env E \<Longrightarrow> still E p"
  by (simp add: quiet_env_def still_def)

lemma await_still: "still E (pw_pool w) \<Longrightarrow> pw_pool (await E w) = pw_pool w"
  by (simp add: still_def await_def)

lemma get_status_awaited:
  assumes "q = pw_pool (await E w)" and "all_alive q" and "i < length (pp_slots (pw_pool w))"
    and "i < length (pp_slots q)"
  shows "\<exists>w'. get_vm_slot_status E i w = (Inr (slot_st q i), w') \<and> pw_pool w' = q"
proof -
  have "h_alive (pp_slots q ! i)" using assms(2,4) by (simp add: all_alive_def list_all_length)
  then have "fst (send_command E i GetVmStatus w) = Inr (slot_st q i)"
    using assms by (simp add: send_command_def handle_command.simps Let_def slot_st_def)
  then obtain w' where s: "send_command E i GetVmStatus w = (Inr (slot_st q i), w')"
    by (metis prod.collapse)
  with send_get_status(2) [OF s] assms(1) show ?thesis by (simp add: get_vm_slot_status_def)
qed

lemma get_status_still:
  assumes "still E (pw_pool w)" and "all_alive (pw_pool w)" and "i < length (pp_slots (pw_pool w))"
  shows "\<exists>w'. get_vm_slot_status E i w = (Inr (slot_st (pw_pool w) i), w') \<and> pw_pool w' = pw_pool w"
  using get_status_awaited [of "pw_pool w" E w i] await_still [OF assms(1)] assms(2,3) by simp

lemma collect_still:
  "still E (pw_pool w) \<Longrightarrow> all_alive (pw_pool w) \<Longrightarrow> \<forall>i \<in> set is. i < length (pp_slots (pw_pool w)) \<Longrightarrow>
   \<exists>w'. collect_statuses E is w = (Inr (map (slot_st (pw_pool w)) is), w') \<and> pw_pool w' = pw_pool w"
proof (induction "is" arbitrary: w)
  case (Cons i "is")
  obtain w1 where g: "get_vm_slot_status E i w = (Inr (slot_st (pw_pool w) i), w1)"
    and p: "pw_pool w1 = pw_pool w"
    using get_status_still [of E w i] Cons.prems by auto
  with Cons.IH [of w1] Cons.prems show ?case by force
qed simp

text \<open>The first question a listing asks may change the pool, the others then find it still.\<close>

lemma list_awaited:
  assumes "q = pw_pool (await E w)" and "still E q" and "all_alive q"
    and "length (pp_slots q) = length (pp_slots (pw_pool w))" and "pp_slots q \<noteq> []"
  shows "\<exists>w'. list_vm_slots E w = (Inr (map (slot_st q) [0..<length (pp_slots q)]), w') \<and> pw_pool w' = q"
proof -
  have n: "[0..<length (pp_slots q)] = 0 # [1..<length (pp_slots q)]"
    using assms(5) by (simp add: upt_conv_Cons)
  have "0 < length (pp_slots q)" using assms(5) by simp
  with get_status_awaited [OF assms(1,3), of 0] assms(4) obtain w1
    where g: "get_vm_slot_status E 0 w = (Inr (slot_st q 0), w1)" and p: "pw_pool w1 = q"
    by metis
  obtain w2 where "collect_statuses E [1..<length (pp_slots q)] w1
      = (Inr (map (slot_st q) [1..<length (pp_slots q)]), w2)" "pw_pool w2 = q"
    using collect_still [of E w1 "[1..<length (pp_slots q)]"] assms(2,3) p by auto
  with g show ?thesis by (simp add: list_vm_slots_def assms(4) [symmetric] n del: upt_Suc One_nat_def)
qed

lemma list_still:
  assumes "still E (pw_pool w)" and "all_alive (pw_pool w)"
  shows "\<exists>w'. list_vm_slots E w
      = (Inr (map (slot_st (pw_pool w)) [0..<length (pp_slots (pw_pool w))]), w')
    \<and> pw_pool w' = pw_pool w"
  unfolding list_vm_slots_def using assms by (intro collect_still) simp_all

lemma log_awaited:
  assumes "q = pw_pool (await E w)" and "still E q" and "all_alive q"
    and "length (pp_slots q) = length (pp_slots (pw_pool w))" and "pp_slots q \<noteq> []"
  shows "pw_pool (log_pool_occupancy E r w) = q"
  using list_awaited [OF assms] by (auto simp: log_pool_occupancy_def log_entry_def)

lemma log_still:
  assumes "still E (pw_pool w)" and "all_alive (pw_pool w)"
  shows "pw_pool (log_pool_occupancy E r w) = pw_pool w"
  using list_still [OF assms] by (auto simp: log_pool_occupancy_def log_entry_def)

lemmas get_status_quiet = get_status_still [OF quiet_still]
lemmas list_quiet = list_still [OF quiet_still]
lemmas log_quiet = log_still [OF quiet_still]

lemma all_alive_on_slot: "all_alive p \<Longrightarrow> all_alive (on_slot i f p)"
  by (auto simp: all_alive_def on_slot_def intro: list_all_update)

lemma all_alive_extend: "all_alive p \<Longrightarrow> all_alive (extend_slots k p)"
  by (auto simp: all_alive_def extend_slots_def Let_def initialize_slot_def list_all_iff)

text \<open>What reserving slot \<open>i\<close> does: the answer and the pool after it.\<close>

definition reserve_spec ::
  "tap_os \<Rightarrow> nat \<Rightarrow> string \<Rightarrow> string \<Rightarrow> process_pool \<Rightarrow> (pool_error + slot_status) \<times> process_pool" where
  "reserve_spec os i name mac p =
     (case ensure_tap_device os (tap_name i) (h_bridge (pp_slots p ! i)) of
        Inl err \<Rightarrow> (Inl err, on_slot i (log_os [Os_tap (tap_name i)]) p)
      | Inr _ \<Rightarrow>
          (let st = reserve_status name mac (tap_name i) (slot_st p i) in
           (Inr st, on_slot i (\<lambda>rt. log_os [Os_tap (tap_name i)] (rt\<lparr>rt_status := st\<rparr>)) p)))"

definition allocate_spec ::
  "tap_os \<Rightarrow> string \<Rightarrow> string \<Rightarrow> process_pool \<Rightarrow> (pool_error + slot_status) \<times> process_pool" where
  "allocate_spec os name mac p =
     (if name_used name p then (Inl (VmAlreadyRunning name), p)
      else case find (\<lambda>i. ss_state (slot_st p i) = Empty) [0..<length (pp_slots p)] of
             Some i \<Rightarrow> reserve_spec os i name mac p
           | None \<Rightarrow>
               if pp_max p \<le> length (pp_slots p) then (Inl NoAvailableSlot, p)
               else reserve_spec os (length (pp_slots p)) name mac (extend_slots 1 p))"

lemma on_slot_const: "on_slot i (\<lambda>_. f (slot_rt p i)) p = on_slot i f p"
  by (simp add: on_slot_def)

lemma reserve_still:
  assumes "still E (pw_pool w)" and "pe_cmd_os E = (\<lambda>_. os)" and "all_alive (pw_pool w)"
    and "i < length (pp_slots (pw_pool w))" and "ss_state (slot_st (pw_pool w) i) = Empty"
    and "still E (snd (reserve_spec (co_tap os) i name mac (pw_pool w)))"
  shows "fst (reserve_vm_slot E i name mac (tap_name i) w)
      = fst (reserve_spec (co_tap os) i name mac (pw_pool w))
    \<and> pw_pool (snd (reserve_vm_slot E i name mac (tap_name i) w))
      = snd (reserve_spec (co_tap os) i name mac (pw_pool w))"
proof -
  let ?p = "pw_pool w"
  have al: "h_alive (pp_slots ?p ! i)"
    using assms(3,4) by (simp add: all_alive_def list_all_length)
  have q: "pw_pool (await E w) = ?p" using assms(1) by (rule await_still)
  show ?thesis
  proof (cases "ensure_tap_device (co_tap os) (tap_name i) (h_bridge (pp_slots ?p ! i))")
    case (Inl err)
    with al q assms(2,4,5) show ?thesis
      by (simp add: reserve_vm_slot_def logged_command_def send_command_def reserve_spec_def
          handle_command.simps slot_st_def Let_def log_entry_def on_slot_const)
  next
    case (Inr u)
    let ?st = "reserve_status name mac (tap_name i) (slot_st ?p i)"
    let ?f = "\<lambda>rt. log_os [Os_tap (tap_name i)] (rt\<lparr>rt_status := ?st\<rparr>)"
    obtain w1 where s: "send_command E i (ReserveVm name mac (tap_name i)) w = (Inr ?st, w1)"
      and p1: "pw_pool w1 = on_slot i ?f ?p"
      using Inr al q assms(2,4,5) on_slot_const [of i ?f ?p]
      by (simp add: send_command_def handle_command.simps slot_st_def Let_def log_entry_def log_os_def)
    have "all_alive (pw_pool w1)" using p1 assms(3) by (simp add: all_alive_on_slot)
    moreover have "snd (reserve_spec (co_tap os) i name mac ?p) = on_slot i ?f ?p"
      using Inr by (simp add: reserve_spec_def Let_def)
    ultimately have "pw_pool (log_pool_occupancy E ''reserve_vm_slot'' w1) = on_slot i ?f ?p"
      using log_still [of E w1] p1 assms(6) by simp
    with Inr s show ?thesis
      by (simp add: reserve_vm_slot_def logged_command_def reserve_spec_def Let_def)
  qed
qed

lemma find_map: "find P (map f xs) = map_option f (find (P \<circ> f) xs)"
  by (induction xs) simp_all

lemma find_cong_nth:
  assumes "\<And>i. i < n \<Longrightarrow> P i = Q i"
  shows "find P [0..<n] = find Q [0..<n]"
  by (rule find_cong) (simp_all add: assms)

definition numbered :: "process_pool \<Rightarrow> bool" where
  "numbered p = (\<forall>i < length (pp_slots p). ss_slot (slot_st p i) = i)"

definition empty_slot :: "process_pool \<Rightarrow> nat option" where
  "empty_slot p = find (\<lambda>i. ss_state (slot_st p i) = Empty) [0..<length (pp_slots p)]"

lemma empty_slot_Some: "empty_slot p = Some i \<Longrightarrow> i < length (pp_slots p) \<and> ss_state (slot_st p i) = Empty"
  by (auto simp: empty_slot_def dest: find_SomeD)

text \<open>One round of the allocation loop that finds a free slot.\<close>

lemma allocate_round_found:
  assumes "still E (pw_pool w)" and "pe_cmd_os E = (\<lambda>_. os)" and "all_alive (pw_pool w)"
    and "numbered (pw_pool w)" and "empty_slot (pw_pool w) = Some i"
    and "still E (snd (reserve_spec (co_tap os) i name mac (pw_pool w)))"
  shows "fst (allocate_loop E name mac w) = fst (reserve_spec (co_tap os) i name mac (pw_pool w))
    \<and> pw_pool (snd (allocate_loop E name mac w)) = snd (reserve_spec (co_tap os) i name mac (pw_pool w))"
proof -
  obtain w1 where l: "list_vm_slots E w
      = (Inr (map (slot_st (pw_pool w)) [0..<length (pp_slots (pw_pool w))]), w1)"
    and p: "pw_pool w1 = pw_pool w"
    using list_still [OF assms(1,3)] by auto
  from empty_slot_Some [OF assms(5)]
  have i: "i < length (pp_slots (pw_pool w))" "ss_state (slot_st (pw_pool w) i) = Empty" by auto
  have "find (\<lambda>st. ss_state st = Empty) (map (slot_st (pw_pool w)) [0..<length (pp_slots (pw_pool w))])
      = Some (slot_st (pw_pool w) i)"
    using assms(5) by (simp add: find_map comp_def empty_slot_def)
  then have "allocate_loop E name mac w = reserve_vm_slot E i name mac (tap_name i) w1"
    using l i assms(4) by (simp add: allocate_loop.simps [of E name mac w] numbered_def)
  with reserve_still [OF _ assms(2), of w1 i] p i assms(1,3,6) show ?thesis by simp
qed

lemma allocate_round_none:
  assumes "still E (pw_pool w)" and "all_alive (pw_pool w)" and "empty_slot (pw_pool w) = None"
  shows "\<exists>w1. pw_pool w1 = pw_pool w \<and> allocate_loop E name mac w =
    (if pp_max (pw_pool w) \<le> length (pp_slots (pw_pool w)) then (Inl NoAvailableSlot, w1)
     else allocate_loop E name mac (pool_extend E 1 w1))"
proof -
  obtain w1 where l: "list_vm_slots E w
      = (Inr (map (slot_st (pw_pool w)) [0..<length (pp_slots (pw_pool w))]), w1)"
    and p: "pw_pool w1 = pw_pool w"
    using list_still [OF assms(1,2)] by auto
  have "find (\<lambda>st. ss_state st = Empty) (map (slot_st (pw_pool w)) [0..<length (pp_slots (pw_pool w))]) = None"
    using assms(3) by (simp add: find_map comp_def empty_slot_def)
  with l p show ?thesis by (intro exI [of _ w1]) (simp add: allocate_loop.simps [of E name mac w])
qed

lemma slot_st_extend_new: "slot_st (extend_slots 1 p) (length (pp_slots p)) = initial_status (length (pp_slots p))"
  by (simp add: slot_st_def slot_rt_extend initial_runtime_def)

lemma slot_st_extend_old: "i < length (pp_slots p) \<Longrightarrow> slot_st (extend_slots 1 p) i = slot_st p i"
  by (simp add: slot_st_def slot_rt_extend)

lemma numbered_extend: "numbered p \<Longrightarrow> numbered (extend_slots 1 p)"
  unfolding numbered_def
  by (metis add.commute extend_slots_length initial_status_def less_Suc_eq plus_1_eq_Suc
      slot_st_extend_new slot_st_extend_old slot_status.select_convs(1))

lemma find_append: "find P (xs @ ys) = (case find P xs of Some x \<Rightarrow> Some x | None \<Rightarrow> find P ys)"
  by (induction xs) simp_all

lemma empty_slot_extend:
  assumes "empty_slot p = None"
  shows "empty_slot (extend_slots 1 p) = Some (length (pp_slots p))"
proof -
  have "find (\<lambda>i. ss_state (slot_st (extend_slots 1 p) i) = Empty) [0..<length (pp_slots p)] = None"
    using assms find_cong_nth [of "length (pp_slots p)"
        "\<lambda>i. ss_state (slot_st (extend_slots 1 p) i) = Empty" "\<lambda>i. ss_state (slot_st p i) = Empty"]
    by (simp add: empty_slot_def slot_st_extend_old del: One_nat_def)
  then show ?thesis
    by (simp add: empty_slot_def find_append slot_st_extend_new [unfolded One_nat_def] initial_status_def)
qed

lemma name_used_map:
  "find (\<lambda>st. ss_name st = Some n) (map (slot_st p) [0..<length (pp_slots p)]) = None
     \<longleftrightarrow> \<not> name_used n p"
  by (auto simp: find_None_iff_all name_used_iff)

lemma allocate_quiet:
  assumes "quiet_env E" and "pe_cmd_os E = (\<lambda>_. os)" and "all_alive (pw_pool w)"
    and "numbered (pw_pool w)"
  shows "fst (allocate_vm_slot E name mac w) = fst (allocate_spec (co_tap os) name mac (pw_pool w))
    \<and> pw_pool (snd (allocate_vm_slot E name mac w)) = snd (allocate_spec (co_tap os) name mac (pw_pool w))"
proof -
  let ?p = "pw_pool w"
  obtain w1 where l: "list_vm_slots E w = (Inr (map (slot_st ?p) [0..<length (pp_slots ?p)]), w1)"
    and p1: "pw_pool w1 = ?p"
    using list_quiet [OF assms(1,3)] by auto
  show ?thesis
  proof (cases "name_used name ?p")
    case True
    then have "find (\<lambda>st. ss_name st = Some name) (map (slot_st ?p) [0..<length (pp_slots ?p)]) \<noteq> None"
      by (simp only: name_used_map) simp
    with True l p1 show ?thesis
      by (auto simp: allocate_vm_slot_def find_vm_slot_status_by_name_def allocate_spec_def)
  next
    case False
    then have "allocate_vm_slot E name mac w = allocate_loop E name mac w1"
      using l name_used_map [of name ?p]
      by (simp add: allocate_vm_slot_def find_vm_slot_status_by_name_def)
    moreover have "fst (allocate_loop E name mac w1) = fst (allocate_spec (co_tap os) name mac ?p)
        \<and> pw_pool (snd (allocate_loop E name mac w1)) = snd (allocate_spec (co_tap os) name mac ?p)"
    proof (cases "empty_slot ?p")
      case (Some i)
      with allocate_round_found [OF quiet_still [OF assms(1)] assms(2), of w1 i]
        quiet_still [OF assms(1)] assms(3,4) p1 False show ?thesis
        by (simp add: allocate_spec_def empty_slot_def)
    next
      case None
      with allocate_round_none [OF quiet_still [OF assms(1)], of w1] assms(3) p1 obtain w2 where p2: "pw_pool w2 = ?p"
        and a: "allocate_loop E name mac w1 =
          (if pp_max ?p \<le> length (pp_slots ?p) then (Inl NoAvailableSlot, w2)
           else allocate_loop E name mac (pool_extend E 1 w2))"
        by metis
      let ?q = "extend_slots 1 ?p"
      have q: "pw_pool (pool_extend E 1 w2) = ?q"
        using log_quiet [OF assms(1), of "w2\<lparr>pw_pool := extend_slots 1 (pw_pool w2)\<rparr>"] assms(3) p2
        by (simp add: pool_extend_def all_alive_extend)
      have "fst (allocate_loop E name mac (pool_extend E 1 w2))
            = fst (reserve_spec (co_tap os) (length (pp_slots ?p)) name mac ?q)
          \<and> pw_pool (snd (allocate_loop E name mac (pool_extend E 1 w2)))
            = snd (reserve_spec (co_tap os) (length (pp_slots ?p)) name mac ?q)"
        using allocate_round_found [OF quiet_still [OF assms(1)] assms(2), of "pool_extend E 1 w2"] q
          quiet_still [OF assms(1)]
          empty_slot_extend [OF None] all_alive_extend [OF assms(3), of 1] numbered_extend [OF assms(4)]
        by simp
      with None False a p2 show ?thesis
        by (simp add: allocate_spec_def empty_slot_def)
    qed
    ultimately show ?thesis by simp
  qed
qed

text \<open>
  C3: Allocation without interference.  When no other task runs in between and every worker
  is alive, an allocation is exactly its specification: refused with VmAlreadyRunning when
  some slot has the name; otherwise the lowest-numbered empty slot is reserved; with no
  empty slot the pool grows by one slot, which is reserved, unless it is at its maximum
  (NoAvailableSlot, pool untouched); and a TAP device that cannot be set up leaves every
  slot's status as it was.
\<close>

theorem allocate_vm_slot_quiet:
  assumes "quiet_env E" and "pe_cmd_os E = (\<lambda>_. os)" and "all_alive (pw_pool w)"
    and "numbered (pw_pool w)"
  shows "fst (allocate_vm_slot E name mac w) = fst (allocate_spec (co_tap os) name mac (pw_pool w))
    \<and> pw_pool (snd (allocate_vm_slot E name mac w)) = snd (allocate_spec (co_tap os) name mac (pw_pool w))"
  using assms by (rule allocate_quiet)

lemma upt_0_2: "[0..<2] = [0, 1]"
  by (simp add: upt_rec)

definition demo_transport :: transport where
  "demo_transport = \<lparr>tr_connect = (\<lambda>_. Inr ()), tr_handshake = Inr (), tr_build = (\<lambda>_. Inr ()),
     tr_send = (\<lambda>_ _. Inr \<lparr>rw_status = 200, rw_content_type = None, rw_body = Inr []\<rparr>),
     tr_header_str = Some\<rparr>"

definition demo_env :: pool_env where
  "demo_env = \<lparr>pe_actions = (\<lambda>_. []), pe_autoscales = (\<lambda>_. False),
     pe_cmd_os = (\<lambda>_. demo_cmd_os), pe_transport = (\<lambda>_. demo_transport), pe_delay = (\<lambda>_. 0)\<rparr>"

definition demo_world :: "lock_mode \<Rightarrow> process_pool \<Rightarrow> pool_world" where
  "demo_world l p = \<lparr>pw_pool = p, pw_step = 0, pw_clock = 0, pw_lock = l, pw_log = []\<rparr>"

lemma demo_world_sel [simp]:
  "pw_pool (demo_world l p) = p" "pw_lock (demo_world l p) = l" "pw_clock (demo_world l p) = 0"
  by (simp_all add: demo_world_def)

lemma demo_env_quiet: "quiet_env demo_env"
  by (simp add: quiet_env_def demo_env_def)

lemma demo_env_cmd_os: "pe_cmd_os demo_env = (\<lambda>_. demo_cmd_os)"
  by (simp add: demo_env_def)

lemma demo_pool_length [simp]: "length (pp_slots demo_pool) = 2"
  by (simp add: demo_pool_def)

lemma demo_pool_slots: "i < 2 \<Longrightarrow> slot_rt demo_pool i = initial_runtime i"
  by (simp add: slot_rt_def demo_pool_def initialize_slot_def Let_def)

lemma demo_pool_alive: "all_alive demo_pool"
  by (auto simp: all_alive_def demo_pool_def initialize_slot_def Let_def list_all_iff)

lemma demo_pool_numbered: "numbered demo_pool"
  by (simp add: numbered_def slot_st_def demo_pool_slots initial_runtime_def initial_status_def)

lemma demo_pool_unused: "\<not> name_used n demo_pool"
  by (auto simp: name_used_iff slot_st_def demo_pool_slots initial_runtime_def initial_status_def)

lemma demo_tap_ok: "ensure_tap_device demo_tap_os t b = Inr ()"
  by (simp add: ensure_tap_device_def attach_tap_to_bridge_def demo_tap_os_def split: option.split)

lemma demo_allocate_spec:
  "fst (allocate_spec (co_tap demo_cmd_os) ''a'' ''m'' demo_pool)
     = Inr (reserve_status ''a'' ''m'' (tap_name 0) (initial_status 0))"
  by (simp add: allocate_spec_def demo_pool_unused upt_rec [of 0 2] slot_st_def demo_pool_slots
      initial_runtime_def initial_status_def reserve_spec_def demo_tap_ok demo_cmd_os_def Let_def)

theorem allocate_vm_slot_quiet_witness:
  "fst (allocate_vm_slot demo_env ''a'' ''m'' (demo_world Write_held demo_pool))
     = Inr (reserve_status ''a'' ''m'' (tap_name 0) (initial_status 0))"
  using allocate_vm_slot_quiet
    [OF demo_env_quiet demo_env_cmd_os, of "demo_world Write_held demo_pool" "''a''" "''m''"]
  by (simp add: demo_pool_alive demo_pool_numbered demo_allocate_spec)

lemma demo_allocate:
  "\<exists>st w'. allocate_vm_slot demo_env ''a'' ''m'' (demo_world Write_held demo_pool) = (Inr st, w')"
proof -
  obtain r w' where a: "allocate_vm_slot demo_env ''a'' ''m'' (demo_world Write_held demo_pool) = (r, w')"
    by fastforce
  have "pp_slots demo_pool \<noteq> []" by (simp add: demo_pool_def)
  have l: "\<exists>w1. list_vm_slots demo_env (demo_world Write_held demo_pool)
      = (Inr (map (slot_st demo_pool) [0..<2]), w1) \<and> pw_pool w1 = demo_pool"
    using list_quiet [OF demo_env_quiet, of "demo_world Write_held demo_pool"]
    by (simp add: demo_pool_alive)
  have e: "empty_slot demo_pool = Some 0"
    by (simp add: empty_slot_def upt_rec [of 0 2] slot_st_def demo_pool_slots initial_runtime_def
        initial_status_def)
  from l obtain w1 where w1: "list_vm_slots demo_env (demo_world Write_held demo_pool)
      = (Inr (map (slot_st demo_pool) [0..<2]), w1)" "pw_pool w1 = demo_pool" by blast
  have "allocate_vm_slot demo_env ''a'' ''m'' (demo_world Write_held demo_pool)
      = allocate_loop demo_env ''a'' ''m'' w1"
    using w1 name_used_map [of "''a''" demo_pool] demo_pool_unused
    by (simp add: allocate_vm_slot_def find_vm_slot_status_by_name_def)
  with allocate_round_found [OF quiet_still [OF demo_env_quiet] demo_env_cmd_os, of w1 0 "''a''" "''m''"] w1 e a
  have "r = fst (reserve_spec (co_tap demo_cmd_os) 0 ''a'' ''m'' demo_pool)"
    by (metis demo_pool_alive demo_pool_numbered fst_conv quiet_still [OF demo_env_quiet])
  with a show ?thesis
    by (simp add: reserve_spec_def demo_tap_ok demo_cmd_os_def Let_def)
qed

theorem allocate_vm_slot_result_witness:
  "\<exists>st. fst (allocate_vm_slot demo_env ''a'' ''m'' (demo_world Write_held demo_pool)) = Inr st
     \<and> ss_state st = Booting \<and> ss_name st = Some ''a'' \<and> ss_slot st < 3"
proof -
  from demo_allocate obtain st w'
    where a: "allocate_vm_slot demo_env ''a'' ''m'' (demo_world Write_held demo_pool) = (Inr st, w')"
    by blast
  have "pool_ok (pw_pool (demo_world Write_held demo_pool))" by (simp add: demo_pool_ok)
  from allocate_vm_slot_result [OF this a] a show ?thesis by (simp add: demo_pool_def)
qed

end
