(* ===== verification/VmConfig.thy ===== *)
theory VmConfig
  imports PoolTypes
begin

unbundle bit_operations_syntax

text \<open>
  \<open>BootConfig\<close> of \<open>src/service.rs\<close>, its validation (\<open>src/vm_validation.rs\<close>) and the
  request bodies and error texts of \<open>src/vm_payload.rs\<close>.  A \<open>serde_json::Value\<close> is the
  datatype \<open>json\<close>; an object is the list of its entries in the order the source writes
  them (serde's own order of keys does not matter to a JSON object).  Paths come out of a
  JSON string, so they are valid UTF-8 and their \<open>display\<close> is themselves.
\<close>

section \<open>The boot configuration\<close>

record boot_config =
  bc_name :: string
  bc_cpus :: u16
  bc_memory_mb :: u64
  bc_boot_mode :: string
  bc_disks :: "string list"
  bc_kernel_path :: "string option"
  bc_initrd_path :: "string option"
  bc_cmdline :: "string option"
  bc_firmware_path :: "string option"
  bc_snapshot_path :: "string option"

section \<open>Validation\<close>

definition invalid :: "string \<Rightarrow> string \<Rightarrow> api_error + unit" where
  "invalid field err = Inl (Validation (Some field) err)"

definition max_memory_mb :: u64 where
  "max_memory_mb = drop_bit 20 (- 1)"

definition validate_boot_files :: "boot_config \<Rightarrow> string \<Rightarrow> api_error + unit" where
  "validate_boot_files c boot_mode =
     (if bc_snapshot_path c = None then
        (if boot_mode = ''linux'' \<and> bc_kernel_path c = None
         then invalid ''kernelPath'' ''kernelPath is required when bootMode=linux''
         else if boot_mode = ''uefi'' \<and> bc_firmware_path c = None
         then invalid ''firmwarePath'' ''firmwarePath is required when bootMode=uefi''
         else Inr ())
      else Inr ())"

fun validate_disks :: "string list \<Rightarrow> api_error + unit" where
  "validate_disks [] = Inr ()"
| "validate_disks (d # ds) =
     (if \<not> path_is_absolute d
      then invalid ''disks'' (''disk path '' @ quoted d @ '' must be absolute'')
      else validate_disks ds)"

fun validate_paths :: "(string \<times> string option) list \<Rightarrow> api_error + unit" where
  "validate_paths [] = Inr ()"
| "validate_paths ((field, path) # ps) =
     (case path of
        Some q \<Rightarrow>
          if \<not> path_is_absolute q then invalid field (field @ '' must be absolute'')
          else validate_paths ps
      | None \<Rightarrow> validate_paths ps)"

definition config_paths :: "boot_config \<Rightarrow> (string \<times> string option) list" where
  "config_paths c =
     [(''kernelPath'', bc_kernel_path c), (''initrdPath'', bc_initrd_path c),
      (''firmwarePath'', bc_firmware_path c), (''snapshotPath'', bc_snapshot_path c)]"

definition validate_boot_config :: "boot_config \<Rightarrow> api_error + unit" where
  "validate_boot_config c =
     (if trim (bc_name c) = [] then invalid ''name'' ''name is required''
      else if bc_cpus c = 0 then invalid ''cpus'' ''cpus must be greater than zero''
      else if bc_memory_mb c = 0 then invalid ''memoryMb'' ''memoryMb must be greater than zero''
      else if trim (bc_boot_mode c) = [] then invalid ''bootMode'' ''bootMode is required''
      else
        (let boot_mode = to_ascii_lowercase (bc_boot_mode c) in
         if boot_mode \<noteq> ''linux'' \<and> boot_mode \<noteq> ''uefi''
         then invalid ''bootMode'' ''bootMode must be one of: linux, uefi''
         else if max_memory_mb < bc_memory_mb c then invalid ''memoryMb'' ''memoryMb is too large''
         else
           (case validate_boot_files c boot_mode of
              Inl err \<Rightarrow> Inl err
            | Inr _ \<Rightarrow>
                (case validate_disks (bc_disks c) of
                   Inl err \<Rightarrow> Inl err
                 | Inr _ \<Rightarrow> validate_paths (config_paths c)))))"

lemma validate_disks_iff:
  "validate_disks ds = Inr () \<longleftrightarrow> list_all path_is_absolute ds"
  by (induction ds) (simp_all add: invalid_def)

lemma validate_paths_iff:
  "validate_paths ps = Inr () \<longleftrightarrow>
     list_all (\<lambda>(f, p). case p of None \<Rightarrow> True | Some q \<Rightarrow> path_is_absolute q) ps"
  by (induction ps rule: validate_paths.induct) (simp_all add: invalid_def split: option.split)

lemma validate_boot_files_iff:
  "validate_boot_files c m = Inr () \<longleftrightarrow>
     bc_snapshot_path c \<noteq> None
     \<or> (m = ''linux'' \<longrightarrow> bc_kernel_path c \<noteq> None) \<and> (m = ''uefi'' \<longrightarrow> bc_firmware_path c \<noteq> None)"
  by (auto simp: validate_boot_files_def invalid_def)

lemma unat_max_memory: "unat max_memory_mb = 2 ^ 44 - 1"
proof -
  have "unat (mask 44 :: u64) = 2 ^ 44 - 1" by (simp add: mask_eq_exp_minus_1)
  then show ?thesis by (simp add: max_memory_mb_def)
qed

lemma memory_too_large_iff: "max_memory_mb < m \<longleftrightarrow> \<not> unat m < 2 ^ 44"
  by (simp add: word_less_nat_alt unat_max_memory) linarith

text \<open>A chain of checks succeeds when each of its checks does.\<close>

lemma check_if_Inr: "(if P then invalid f e else r) = Inr () \<longleftrightarrow> \<not> P \<and> r = Inr ()"
  by (simp add: invalid_def)

lemma check_seq_Inr:
  "(case r of Inl err \<Rightarrow> Inl err | Inr _ \<Rightarrow> (s :: api_error + unit)) = Inr () \<longleftrightarrow>
     r = Inr () \<and> s = Inr ()"
  by (cases r) simp_all

definition field_error :: "api_error + unit \<Rightarrow> bool" where
  "field_error r = (\<forall>err. r = Inl err \<longrightarrow> (\<exists>f e. err = Validation (Some f) e))"

lemma field_error_invalid: "field_error (invalid f e)"
  by (simp add: field_error_def invalid_def)

lemma field_error_Inr: "field_error (Inr u)"
  by (simp add: field_error_def)

lemma field_error_if: "field_error r \<Longrightarrow> field_error s \<Longrightarrow> field_error (if P then r else s)"
  by simp

lemma field_error_seq:
  "field_error r \<Longrightarrow> field_error s \<Longrightarrow>
   field_error (case r of Inl err \<Rightarrow> Inl err | Inr _ \<Rightarrow> s)"
  by (cases r) (simp_all add: field_error_def)

lemma field_error_disks: "field_error (validate_disks ds)"
  by (induction ds) (auto intro: field_error_if field_error_invalid field_error_Inr)

lemma field_error_paths: "field_error (validate_paths ps)"
  by (induction ps rule: validate_paths.induct)
    (auto intro: field_error_invalid field_error_Inr split: option.split)

lemmas field_error_intros =
  field_error_if field_error_seq field_error_invalid field_error_Inr field_error_disks
  field_error_paths

lemma field_error_config: "field_error (validate_boot_config c)"
  unfolding validate_boot_config_def validate_boot_files_def Let_def
  by (intro field_error_intros)

definition absolute_opt :: "string option \<Rightarrow> bool" where
  "absolute_opt p = (case p of None \<Rightarrow> True | Some q \<Rightarrow> path_is_absolute q)"

definition config_ok :: "boot_config \<Rightarrow> bool" where
  "config_ok c =
     (trim (bc_name c) \<noteq> [] \<and> 0 < unat (bc_cpus c)
     \<and> 0 < unat (bc_memory_mb c) \<and> unat (bc_memory_mb c) < 2 ^ 44
     \<and> trim (bc_boot_mode c) \<noteq> []
     \<and> to_ascii_lowercase (bc_boot_mode c) \<in> {''linux'', ''uefi''}
     \<and> (bc_snapshot_path c \<noteq> None
         \<or> (to_ascii_lowercase (bc_boot_mode c) = ''linux'' \<longrightarrow> bc_kernel_path c \<noteq> None)
           \<and> (to_ascii_lowercase (bc_boot_mode c) = ''uefi'' \<longrightarrow> bc_firmware_path c \<noteq> None))
     \<and> list_all path_is_absolute (bc_disks c)
     \<and> absolute_opt (bc_kernel_path c) \<and> absolute_opt (bc_initrd_path c)
     \<and> absolute_opt (bc_firmware_path c) \<and> absolute_opt (bc_snapshot_path c))"

lemma validate_config_ok: "validate_boot_config c = Inr () \<longleftrightarrow> config_ok c"
proof -
  have zero: "(x :: u64) \<noteq> 0 \<longleftrightarrow> 0 < unat x" "(y :: u16) \<noteq> 0 \<longleftrightarrow> 0 < unat y" for x y
    by (simp_all add: unat_gt_0)
  show ?thesis
    unfolding validate_boot_config_def Let_def check_if_Inr check_seq_Inr memory_too_large_iff
      validate_boot_files_iff validate_disks_iff validate_paths_iff zero config_paths_def
      absolute_opt_def config_ok_def
    by (simp only: prod.case list.pred_inject insert_iff empty_iff not_not simp_thms) blast
qed

text \<open>
  C27: Which configurations are accepted.  Validation succeeds exactly when the name is not
  blank, there is at least one CPU, the memory is between 1 and 2^44 - 1 MiB, the boot mode
  is linux or uefi in any ASCII case, a boot without snapshot names the kernel (linux) or
  the firmware (uefi), and every path given is absolute; and every refusal is a validation
  error that names a field, answered with HTTP status 400.
\<close>

theorem validate_boot_config_iff:
  "(validate_boot_config c = Inr () \<longleftrightarrow>
     trim (bc_name c) \<noteq> [] \<and> 0 < unat (bc_cpus c)
     \<and> 0 < unat (bc_memory_mb c) \<and> unat (bc_memory_mb c) < 2 ^ 44
     \<and> trim (bc_boot_mode c) \<noteq> []
     \<and> to_ascii_lowercase (bc_boot_mode c) \<in> {''linux'', ''uefi''}
     \<and> (bc_snapshot_path c \<noteq> None
         \<or> (to_ascii_lowercase (bc_boot_mode c) = ''linux'' \<longrightarrow> bc_kernel_path c \<noteq> None)
           \<and> (to_ascii_lowercase (bc_boot_mode c) = ''uefi'' \<longrightarrow> bc_firmware_path c \<noteq> None))
     \<and> list_all path_is_absolute (bc_disks c)
     \<and> absolute_opt (bc_kernel_path c) \<and> absolute_opt (bc_initrd_path c)
     \<and> absolute_opt (bc_firmware_path c) \<and> absolute_opt (bc_snapshot_path c))
   \<and> (\<forall>err. validate_boot_config c = Inl err \<longrightarrow>
        (\<exists>f e. err = Validation (Some f) e) \<and> fst (into_response err) = 400)"
  using validate_config_ok [of c] field_error_config [of c]
  unfolding config_ok_def by (auto simp: field_error_def)

end
