(* ===== verification/ProcText.thy ===== *)
theory ProcText
  imports RustStr
begin

text \<open>
  What the readers of \<open>/proc\<close> (\<open>src/host_metrics.rs\<close>, \<open>src/vm_metrics.rs\<close>) share: the
  file system and the parser of floating-point numbers as parameters, and how words, lines
  and keys come back out of a text built from them.  A word is \<open>plain\<close> when all its bytes
  are printable ASCII other than the space.
\<close>

section \<open>Parameters\<close>

text \<open>
  Reading a file to a string gives the text of an I/O error or the content; \<open>f64\<close> values
  are a type \<open>'f\<close> with the parser of the standard library as a parameter.
\<close>

type_synonym read_file = "string \<Rightarrow> string + string"
type_synonym 'f parse_f64 = "string \<Rightarrow> string + 'f"

definition kib_to_bytes :: "u64 \<Rightarrow> u64" where
  "kib_to_bytes v = sat_mul v 1024"

lemma unat_kib_to_bytes: "unat (kib_to_bytes v) = min (2 ^ 64 - 1) (unat v * 1024)"
  by (simp add: kib_to_bytes_def)

lemma unat_kib_exact: "unat v < 2 ^ 54 \<Longrightarrow> unat (kib_to_bytes v) = 1024 * unat v"
  by (simp add: unat_kib_to_bytes)

lemma kib_to_bytes_0: "unat (kib_to_bytes 0) = 0"
  by (simp add: unat_kib_to_bytes)

definition parse_u64_text :: "string \<Rightarrow> string + u64" where
  "parse_u64_text s = map_err int_error_display (parse_u64 s)"

lemma parse_u64_show: "parse_u64_text (show_nat (unat (x :: u64))) = Inr x"
  using parse_show_nat [of "unat x" "2 ^ 64 - 1"] unat_u64_less [of x]
  by (simp add: parse_u64_text_def parse_u64_def)

section \<open>Words\<close>

definition plain_char :: "char \<Rightarrow> bool" where
  "plain_char c = (32 < byte c \<and> byte c < 127)"

definition plain :: "string \<Rightarrow> bool" where
  "plain w = (w \<noteq> [] \<and> list_all plain_char w)"

lemma byte_chr_eq: "c = chr n \<Longrightarrow> n < 256 \<Longrightarrow> byte c = n"
  by simp

lemma white_space_heads:
  "w \<in> set white_space \<Longrightarrow> byte (hd w) \<in> {9, 10, 11, 12, 13, 32, 194, 225, 226, 227}"
  by (auto simp: white_space_def)

lemma starts_with_hd: "starts_with (c # s) w \<Longrightarrow> w \<noteq> [] \<Longrightarrow> hd w = c"
  by (cases w) (auto simp: starts_with_def)

lemma ws_head_plain: "plain_char c \<Longrightarrow> ws_head (c # s) = 0"
proof -
  assume p: "plain_char c"
  have "\<not> starts_with (c # s) w" if w: "w \<in> set white_space" for w
  proof
    assume "starts_with (c # s) w"
    then have "hd w = c" using white_space_nonempty [OF w] by (rule starts_with_hd)
    with white_space_heads [OF w] p show False by (auto simp: plain_char_def)
  qed
  then have "find (starts_with (c # s)) white_space = None" by (simp add: find_None_iff_all)
  then show ?thesis by (simp add: ws_head_def)
qed

lemma byte_space: "byte (CHR '' '') = 32" "byte (CHR 0x0A) = 10"
  by (simp_all add: byte_def)

lemma space_char: "CHR '' '' = chr 32"
  by (metis byte_space(1) chr_byte)

lemma newline_char: "CHR 0x0A = chr 10"
  by (metis byte_space(2) chr_byte)

text \<open>A space or a line feed is one byte of white space.\<close>

lemma ws_head_ascii:
  assumes "b \<in> {9, 10, 11, 12, 13, 32}"
  shows "ws_head (chr b # s) = 1"
proof -
  have one: "length w = 1" if w: "w \<in> set white_space" and st: "starts_with (chr b # s) w" for w
  proof -
    have "hd w = chr b" using starts_with_hd [OF st white_space_nonempty [OF w]] .
    then have "byte (hd w) = b" using assms by auto
    with w assms show ?thesis by (auto simp: white_space_def)
  qed
  have mem: "[chr b] \<in> set white_space" using assms by (auto simp: white_space_def)
  have "starts_with (chr b # s) [chr b]" by (simp add: starts_with_def)
  with mem have "find (starts_with (chr b # s)) white_space \<noteq> None"
    by (auto simp: find_None_iff_all)
  then obtain w where "find (starts_with (chr b # s)) white_space = Some w" by blast
  with one show ?thesis by (auto simp: ws_head_def dest: find_SomeD)
qed

lemma ws_head_space: "ws_head (CHR '' '' # s) = 1" "ws_head (CHR 0x0A # s) = 1"
  unfolding space_char newline_char by (simp_all add: ws_head_ascii)

lemma split_ws_plain:
  "list_all plain_char w \<Longrightarrow> split_ws acc (w @ s) = split_ws (rev w @ acc) s"
proof (induction w arbitrary: acc)
  case (Cons c w)
  have "split_ws acc ((c # w) @ s) = split_ws (c # acc) (w @ s)"
    using Cons.prems by (simp add: split_ws.simps [of acc "c # w @ s"] ws_head_plain)
  with Cons show ?case by simp
qed simp

lemma split_ws_space:
  "split_ws acc (CHR '' '' # s) = (if acc = [] then [] else [rev acc]) @ split_ws [] s"
  "split_ws acc (CHR 0x0A # s) = (if acc = [] then [] else [rev acc]) @ split_ws [] s"
  by (simp_all add: split_ws.simps [of acc "CHR '' '' # s"] split_ws.simps [of acc "CHR 0x0A # s"]
      ws_head_space)

lemma split_ws_Nil: "split_ws acc [] = (if acc = [] then [] else [rev acc])"
  by (simp add: split_ws.simps)

text \<open>Words each preceded by a space come back as they were.\<close>

definition spaced :: "string list \<Rightarrow> string" where
  "spaced ws = concat (map (\<lambda>w. '' '' @ w) ws)"

lemma split_ws_spaced:
  "list_all plain ws \<Longrightarrow> split_ws acc (spaced ws) = (if acc = [] then [] else [rev acc]) @ ws"
proof (induction ws arbitrary: acc)
  case Nil
  then show ?case by (simp add: spaced_def split_ws_Nil)
next
  case (Cons w ws)
  then have w: "list_all plain_char w" "w \<noteq> []" by (simp_all add: plain_def)
  have "split_ws acc (spaced (w # ws)) = (if acc = [] then [] else [rev acc]) @ split_ws [] (w @ spaced ws)"
    by (simp add: spaced_def split_ws_space)
  also have "split_ws [] (w @ spaced ws) = split_ws (rev w) (spaced ws)"
    using split_ws_plain [OF w(1), of "[]"] by simp
  also have "\<dots> = w # ws" using Cons w by (simp)
  finally show ?case by simp
qed

lemma split_whitespace_spaced: "list_all plain ws \<Longrightarrow> split_whitespace (spaced ws) = ws"
  by (simp add: split_whitespace_def split_ws_spaced)

lemma split_whitespace_words:
  assumes "plain w" and "list_all plain ws"
  shows "split_whitespace (w @ spaced ws) = w # ws"
proof -
  have "split_whitespace (w @ spaced ws) = split_ws (rev w) (spaced ws)"
    using split_ws_plain [of w "[]" "spaced ws"] assms(1) by (simp add: split_whitespace_def plain_def)
  with split_ws_spaced [OF assms(2), of "rev w"] assms(1) show ?thesis by (simp add: plain_def)
qed

text \<open>Words each preceded by blanks (spaces and tabs) come back as they were.\<close>

definition blank :: "char \<Rightarrow> bool" where
  "blank c = (byte c = 32 \<or> byte c = 9)"

definition gap :: "string \<Rightarrow> bool" where
  "gap g = (g \<noteq> [] \<and> list_all blank g)"

definition spread :: "(string \<times> string) list \<Rightarrow> string" where
  "spread xs = concat (map (\<lambda>(g, w). g @ w) xs)"

lemma split_ws_blank:
  "blank c \<Longrightarrow> split_ws acc (c # s) = (if acc = [] then [] else [rev acc]) @ split_ws [] s"
proof -
  assume "blank c"
  then have "ws_head (c # s) = 1" using ws_head_ascii [of "byte c" s] by (auto simp: blank_def)
  then show ?thesis by (simp add: split_ws.simps [of acc "c # s"])
qed

lemma split_ws_gap:
  "gap g \<Longrightarrow> split_ws acc (g @ s) = (if acc = [] then [] else [rev acc]) @ split_ws [] s"
proof (induction g arbitrary: acc)
  case (Cons c g)
  then show ?case by (cases "g = []") (auto simp: gap_def split_ws_blank)
qed (simp add: gap_def)

lemma split_ws_spread:
  "list_all (\<lambda>(g, w). gap g \<and> plain w) xs \<Longrightarrow>
   split_ws acc (spread xs) = (if acc = [] then [] else [rev acc]) @ map snd xs"
proof (induction xs arbitrary: acc)
  case Nil
  then show ?case by (simp add: spread_def split_ws_Nil)
next
  case (Cons x xs)
  obtain g w where x: "x = (g, w)" by fastforce
  with Cons.prems have g: "gap g" and w: "list_all plain_char w" "w \<noteq> []" by (simp_all add: plain_def)
  have "split_ws acc (spread (x # xs)) = (if acc = [] then [] else [rev acc]) @ split_ws [] (w @ spread xs)"
    by (simp add: spread_def x split_ws_gap [OF g])
  also have "split_ws [] (w @ spread xs) = split_ws (rev w) (spread xs)"
    using split_ws_plain [OF w(1), of "[]"] by simp
  also have "\<dots> = w # map snd xs" using Cons w by simp
  finally show ?case by (simp add: x)
qed

lemma split_whitespace_spread:
  "list_all (\<lambda>(g, w). gap g \<and> plain w) xs \<Longrightarrow> split_whitespace (spread xs) = map snd xs"
  by (simp add: split_whitespace_def split_ws_spread)

lemma digit_plain: "48 \<le> byte c \<and> byte c \<le> 57 \<Longrightarrow> plain_char c"
  by (simp add: plain_char_def)

lemma plain_show_nat: "plain (show_nat n)"
  using show_nat_digits show_nat_nonempty [of n]
  by (auto simp: plain_def list_all_iff intro: digit_plain)

lemma plain_show_nats: "list_all plain (map show_nat ns)"
  by (simp add: list_all_iff plain_show_nat)

section \<open>Splitting at a character\<close>

lemma split_once_append: "d \<notin> set a \<Longrightarrow> split_once d (a @ d # b) = Some (a, b)"
  by (induction a) auto

lemma rfind_from_absent: "d \<notin> set s \<Longrightarrow> rfind_from i d s = None"
  by (induction s arbitrary: i) auto

lemma rfind_from_last: "d \<notin> set b \<Longrightarrow> rfind_from i d (a @ d # b) = Some (i + length a)"
  by (induction a arbitrary: i) (auto simp: rfind_from_absent)

lemma rfind_last: "d \<notin> set b \<Longrightarrow> rfind d (a @ d # b) = Some (length a)"
  by (simp add: rfind_def rfind_from_last)

section \<open>Lines\<close>

lemma lines_from_line:
  assumes "chr 10 \<notin> set l"
  shows "lines_from acc (l @ chr 10 # s) = strip_cr (rev acc @ l) # lines_from [] s"
  using assms by (induction l arbitrary: acc) auto

text \<open>Lines each followed by a line feed come back as they were.\<close>

definition is_line :: "string \<Rightarrow> bool" where
  "is_line l = (chr 10 \<notin> set l \<and> (l \<noteq> [] \<longrightarrow> last l \<noteq> chr 13))"

definition text_of :: "string list \<Rightarrow> string" where
  "text_of ls = concat (map (\<lambda>l. l @ [chr 10]) ls)"

lemma lines_text_of: "list_all is_line ls \<Longrightarrow> str_lines (text_of ls) = ls"
proof (induction ls)
  case Nil
  then show ?case by (simp add: str_lines_def text_of_def)
next
  case (Cons l ls)
  then have l: "chr 10 \<notin> set l" "strip_cr l = l" by (auto simp: is_line_def strip_cr_def)
  have "str_lines (text_of (l # ls)) = strip_cr ([] @ l) # lines_from [] (text_of ls)"
    using lines_from_line [OF l(1), of "[]" "text_of ls"] by (simp add: str_lines_def text_of_def)
  with Cons l show ?case by (simp add: str_lines_def)
qed

definition line_char :: "char \<Rightarrow> bool" where
  "line_char c = (c \<noteq> chr 10 \<and> c \<noteq> chr 13)"

lemma is_lineI: "list_all line_char l \<Longrightarrow> is_line l"
  unfolding is_line_def list_all_iff line_char_def using last_in_set by blast

lemma line_char_byte: "byte c \<noteq> 10 \<Longrightarrow> byte c \<noteq> 13 \<Longrightarrow> line_char c"
  by (auto simp: line_char_def)

lemma line_char_plain: "plain_char c \<Longrightarrow> line_char c"
  by (rule line_char_byte) (auto simp: plain_char_def)

lemma line_chars_plain: "plain w \<Longrightarrow> list_all line_char w"
  by (auto simp: plain_def list_all_iff line_char_plain)

lemma line_chars_spaced: "list_all plain ws \<Longrightarrow> list_all line_char (spaced ws)"
proof (induction ws)
  case (Cons w ws)
  have "line_char (CHR '' '')" by (rule line_char_byte) (simp_all add: byte_space)
  with Cons show ?case by (simp add: spaced_def line_chars_plain)
qed (simp add: spaced_def)

lemma line_chars_spread:
  "list_all (\<lambda>(g, w). gap g \<and> plain w) xs \<Longrightarrow> list_all line_char (spread xs)"
proof (induction xs)
  case (Cons x xs)
  then have "list_all blank (fst x)" and p: "plain (snd x)" by (auto simp: gap_def)
  moreover have "line_char c" if "blank c" for c
    using that by (intro line_char_byte) (auto simp: blank_def)
  ultimately have "list_all line_char (fst x)" by (auto simp: list_all_iff)
  moreover have "list_all line_char (snd x)" using p by (rule line_chars_plain)
  ultimately show ?case using Cons by (cases x) (simp add: spread_def)
qed (simp add: spread_def)

text \<open>Trimming leaves a plain word alone.\<close>

lemma white_space_lasts: "w \<in> set white_space \<Longrightarrow> \<not> plain_char (last w)"
  by (auto simp: white_space_def plain_char_def)

lemma ends_with_last: "ends_with s w \<Longrightarrow> w \<noteq> [] \<Longrightarrow> last s = last w"
  unfolding ends_with_def by (metis append_take_drop_id last_appendR)

lemma ws_last_visible: "plain_char (last w) \<Longrightarrow> ws_last w = 0"
proof -
  assume p: "plain_char (last w)"
  have "\<not> ends_with w v" if v: "v \<in> set white_space" for v
    using ends_with_last [of w v] white_space_nonempty [OF v] white_space_lasts [OF v] p by auto
  then have "find (ends_with w) white_space = None" by (simp add: find_None_iff_all)
  then show ?thesis by (simp add: ws_last_def)
qed

lemma ws_last_plain: "plain w \<Longrightarrow> ws_last w = 0"
  by (rule ws_last_visible) (simp add: plain_def list_all_iff)

lemma trim_plain: "plain w \<Longrightarrow> trim w = w"
proof -
  assume p: "plain w"
  then obtain c cs where "w = c # cs" "plain_char c" by (cases w) (auto simp: plain_def)
  then have "trim_start w = w" by (simp add: trim_start.simps [of "c # cs"] ws_head_plain)
  moreover have "trim_end w = w" using ws_last_plain [OF p] by (simp add: trim_end.simps [of w])
  ultimately show ?thesis by (simp add: trim_def)
qed

section \<open>Evaluating on ASCII texts\<close>

lemma utf8_valid_ascii: "list_all (\<lambda>c. byte c < 128) s \<Longrightarrow> utf8_valid s"
  by (induction s) (simp_all add: utf8_valid.simps byte_at_ascii)

lemma digit_chars [simplified]:
  "digit_char 0 = CHR ''0''" "digit_char 1 = CHR ''1''" "digit_char 2 = CHR ''2''" "digit_char 3 = CHR ''3''"
  "digit_char 4 = CHR ''4''" "digit_char 5 = CHR ''5''" "digit_char 6 = CHR ''6''" "digit_char 7 = CHR ''7''"
  "digit_char 8 = CHR ''8''" "digit_char 9 = CHR ''9''"
  by (simp_all add: digit_char_def chr_def char_of_def bit_0)

lemmas ascii_texts =
  show_nat.simps digit_chars from_utf8_lossy_valid utf8_valid_ascii byte_def plain_def plain_char_def

end
