(* ===== verification/VmPayload.thy ===== *)
theory VmPayload
  imports VmConfig ProcText
begin

text \<open>
  \<open>src/vm_payload.rs\<close>: the JSON bodies sent to a VM's API and the text of a backend
  error.
\<close>

datatype json =
    JNull
  | JNum nat
  | JStr string
  | JArr "json list"
  | JObj "(string \<times> json) list"

fun json_opt :: "string option \<Rightarrow> json" where
  "json_opt None = JNull"
| "json_opt (Some s) = JStr s"

text \<open>\<open>value[key]\<close> and \<open>value[index]\<close>.\<close>

fun jget :: "string \<Rightarrow> json \<Rightarrow> json option" where
  "jget k (JObj es) = map_of es k"
| "jget k j = None"

fun jindex :: "nat \<Rightarrow> json \<Rightarrow> json option" where
  "jindex i (JArr js) = (if i < length js then Some (js ! i) else None)"
| "jindex i j = None"

definition disk_image_type :: "string \<Rightarrow> string option" where
  "disk_image_type path =
     (case path_extension path of
        None \<Rightarrow> None
      | Some e \<Rightarrow>
          (let extension = to_ascii_lowercase e in
           if extension = ''qcow2'' \<or> extension = ''qcow'' then Some ''Qcow2''
           else if extension = ''raw'' then Some ''Raw''
           else None))"

definition disk_json :: "string \<Rightarrow> json" where
  "disk_json path =
     (case disk_image_type path of
        Some t \<Rightarrow> JObj [(''path'', JStr path), (''image_type'', JStr t)]
      | None \<Rightarrow> JObj [(''path'', JStr path)])"

definition boot_payload :: "boot_config \<Rightarrow> json" where
  "boot_payload c =
     (if to_ascii_lowercase (bc_boot_mode c) = ''uefi''
      then JObj [(''firmware'', json_opt (bc_firmware_path c))]
      else JObj [(''kernel'', json_opt (bc_kernel_path c)),
                 (''initramfs'', json_opt (bc_initrd_path c)),
                 (''cmdline'', json_opt (bc_cmdline c))])"

definition create_vm_request_body :: "boot_config \<Rightarrow> slot_status \<Rightarrow> json" where
  "create_vm_request_body c reserved =
     JObj [(''cpus'', JObj [(''boot_vcpus'', JNum (unat (bc_cpus c))),
                            (''max_vcpus'', JNum (unat (bc_cpus c)))]),
           (''memory'', JObj [(''size'', JNum (unat (push_bit 20 (bc_memory_mb c))))]),
           (''payload'', boot_payload c),
           (''disks'', JArr (map disk_json (bc_disks c))),
           (''net'', JArr [JObj [(''tap'', json_opt (ss_tap reserved)),
                                 (''mac'', json_opt (ss_mac reserved))]]),
           (''rng'', JObj [(''src'', JStr ''/dev/urandom'')])]"

definition create_restore_request_body :: "boot_config \<Rightarrow> json" where
  "create_restore_request_body c =
     JObj [(''source_url'', json_opt (map_option (\<lambda>p. ''file://'' @ p) (bc_snapshot_path c)))]"

definition format_backend_error :: "proxy_response \<Rightarrow> string" where
  "format_backend_error r =
     (let status = ''backend returned status '' @ show_nat (unat (pr_status r)) in
      if pr_body r = [] then status
      else
        (let body = trim (from_utf8_lossy (pr_body r)) in
         if body = [] then status else status @ '': '' @ body))"

section \<open>Facts\<close>

lemma unat_mib: "unat m < 2 ^ 44 \<Longrightarrow> unat (push_bit 20 (m :: u64)) = unat m * 2 ^ 20"
proof -
  assume m: "unat m < 2 ^ 44"
  then have "unat m * 2 ^ 20 < 2 ^ 64" by simp
  moreover have "push_bit 20 m = of_nat (unat m * 2 ^ 20)"
    by (simp add: push_bit_eq_mult mult.commute)
  ultimately show ?thesis by (simp only: unat_of_nat) simp
qed

lemma push_bit_test: "unat (push_bit 20 (1024 :: u64)) = 1073741824"
  using unat_mib [of 1024] by simp

text \<open>
  C28: The create request of an accepted configuration.  The memory size is the requested
  number of MiB in bytes, with no bit lost to the 64-bit shift; the network device carries
  the reserved slot's TAP and MAC; one disk entry per disk, in order; and a boot without
  snapshot names a kernel (linux) or a firmware (uefi) by an absolute path, never null.
\<close>

theorem create_vm_request_body_correct:
  assumes "validate_boot_config c = Inr ()"
  shows "Option.bind (jget ''memory'' (create_vm_request_body c st)) (jget ''size'')
      = Some (JNum (unat (bc_memory_mb c) * 2 ^ 20))
    \<and> Option.bind (Option.bind (jget ''net'' (create_vm_request_body c st)) (jindex 0)) (jget ''tap'')
      = Some (json_opt (ss_tap st))
    \<and> Option.bind (Option.bind (jget ''net'' (create_vm_request_body c st)) (jindex 0)) (jget ''mac'')
      = Some (json_opt (ss_mac st))
    \<and> jget ''disks'' (create_vm_request_body c st) = Some (JArr (map disk_json (bc_disks c)))
    \<and> (bc_snapshot_path c = None \<longrightarrow>
        (\<exists>key path. (key, to_ascii_lowercase (bc_boot_mode c)) \<in> {(''kernel'', ''linux''), (''firmware'', ''uefi'')}
          \<and> path_is_absolute path
          \<and> Option.bind (jget ''payload'' (create_vm_request_body c st)) (jget key) = Some (JStr path)))"
proof -
  note v = validate_config_ok [of c, THEN iffD1, OF assms, unfolded config_ok_def]
  have mem: "unat (push_bit 20 (bc_memory_mb c)) = unat (bc_memory_mb c) * 2 ^ 20"
    using v by (intro unat_mib) blast
  have boot: "\<exists>key path. (key, to_ascii_lowercase (bc_boot_mode c)) \<in> {(''kernel'', ''linux''), (''firmware'', ''uefi'')}
          \<and> path_is_absolute path
          \<and> Option.bind (jget ''payload'' (create_vm_request_body c st)) (jget key) = Some (JStr path)"
    if none: "bc_snapshot_path c = None"
  proof (cases "to_ascii_lowercase (bc_boot_mode c) = ''linux''")
    case True
    with v none obtain p where "bc_kernel_path c = Some p" "path_is_absolute p"
      by (auto simp: absolute_opt_def)
    with True show ?thesis
      by (intro exI [of _ "''kernel''"] exI [of _ p]) (simp add: create_vm_request_body_def boot_payload_def)
  next
    case False
    with v have m: "to_ascii_lowercase (bc_boot_mode c) = ''uefi''" by blast
    with v none obtain p where "bc_firmware_path c = Some p" "path_is_absolute p"
      by (auto simp: absolute_opt_def)
    with m show ?thesis
      by (intro exI [of _ "''firmware''"] exI [of _ p]) (simp add: create_vm_request_body_def boot_payload_def)
  qed
  have "Option.bind (jget ''memory'' (create_vm_request_body c st)) (jget ''size'')
      = Some (JNum (unat (bc_memory_mb c) * 2 ^ 20))"
    unfolding create_vm_request_body_def mem by simp
  moreover have "jget ''net'' (create_vm_request_body c st)
      = Some (JArr [JObj [(''tap'', json_opt (ss_tap st)), (''mac'', json_opt (ss_mac st))]])"
    and "jget ''disks'' (create_vm_request_body c st) = Some (JArr (map disk_json (bc_disks c)))"
    by (simp_all add: create_vm_request_body_def)
  ultimately show ?thesis using boot by simp
qed

definition demo_config :: boot_config where
  "demo_config = \<lparr>bc_name = ''vm-b'', bc_cpus = 4, bc_memory_mb = 1024, bc_boot_mode = ''Linux'',
     bc_disks = [''/v/os.qcow2'', ''/v/data.raw'', ''/v/misc.img''], bc_kernel_path = Some ''/v/vmlinux'',
     bc_initrd_path = None, bc_cmdline = Some ''console=ttyS0'', bc_firmware_path = None,
     bc_snapshot_path = None\<rparr>"

lemma demo_config_named:
  assumes "trim n \<noteq> []"
  shows "validate_boot_config (demo_config\<lparr>bc_name := n\<rparr>) = Inr ()"
proof -
  have "trim ''Linux'' = ''Linux''" "to_ascii_lowercase ''Linux'' = ''linux''"
    by (simp_all add: trim_plain ascii_texts to_ascii_lowercase_def to_ascii_lower_def chr_def char_of_def bit_0)
  moreover have "\<not> max_memory_mb < 1024" by (simp add: memory_too_large_iff)
  ultimately show ?thesis
    using assms
    by (simp add: demo_config_def validate_boot_config_def validate_boot_files_def config_paths_def
        path_is_absolute_def starts_with_def Let_def)
qed

lemma demo_config_valid: "validate_boot_config demo_config = Inr ()"
proof -
  have "trim ''vm-b'' = ''vm-b''" by (simp add: trim_plain ascii_texts)
  moreover have "demo_config\<lparr>bc_name := ''vm-b''\<rparr> = demo_config" by (simp add: demo_config_def)
  ultimately show ?thesis using demo_config_named [of "''vm-b''"] by simp
qed

theorem create_vm_request_body_correct_witness:
  "\<forall>st. Option.bind (jget ''memory'' (create_vm_request_body demo_config st)) (jget ''size'')
     = Some (JNum (1024 * 2 ^ 20))"
  using create_vm_request_body_correct [OF demo_config_valid] by (simp add: demo_config_def)

theorem validate_boot_config_iff_witness:
  "unat (bc_memory_mb demo_config) < 2 ^ 44 \<and> fst (into_response (Validation (Some ''x'') ''y'')) = 400"
  using validate_boot_config_iff [of demo_config] demo_config_valid by simp

text \<open>
  The image type of a disk follows its extension in any ASCII case: qcow2 and qcow give
  Qcow2, raw gives Raw, and any other path, or one without extension, gets no type; the
  entry always carries the path as given.
\<close>

theorem disk_json_correct:
  "jget ''path'' (disk_json p) = Some (JStr p)
   \<and> jget ''image_type'' (disk_json p) =
      (case map_option to_ascii_lowercase (path_extension p) of
         None \<Rightarrow> None
       | Some e \<Rightarrow> if e \<in> {''qcow2'', ''qcow''} then Some (JStr ''Qcow2'')
                  else if e = ''raw'' then Some (JStr ''Raw'') else None)"
  by (simp add: disk_json_def disk_image_type_def Let_def split: option.split)

end
