(* ===== verification/PoolFacade.thy ===== *)
theory PoolFacade
  imports PoolOutcome VmPayload
begin

text \<open>
  \<open>src/pool_facade.rs\<close>: the trait the service is written against, as a record of
  operations on a world \<open>'w\<close>, and its implementation for \<open>ProcessPool\<close>.  The runtime the
  service also uses (the read-write lock around the pool, connecting to a socket, the
  clock, sleeping, serde, SHA-256) is the record \<open>service_env\<close>.

  The laws the service relies on are locales: \<open>pool_service\<close> (every operation keeps an
  invariant of the world and the lock mode it runs under) and \<open>service_clock\<close> (time does
  not go back, and a sleep lasts at least as long as asked).  Both are interpreted on the
  pool's own implementation.
\<close>

section \<open>The trait\<close>

record 'w pool_facade =
  pf_pool_size :: "'w \<Rightarrow> nat"
  pf_pool_usage_counts :: "'w \<Rightarrow> (pool_error + nat \<times> nat) \<times> 'w"
  pf_list_runtimes :: "'w \<Rightarrow> (pool_error + vm_runtime list) \<times> 'w"
  pf_find_runtime_by_name :: "string \<Rightarrow> 'w \<Rightarrow> (pool_error + vm_runtime option) \<times> 'w"
  pf_allocate_slot :: "string \<Rightarrow> string \<Rightarrow> 'w \<Rightarrow> (pool_error + slot_status) \<times> 'w"
  pf_find_slot_by_name :: "string \<Rightarrow> 'w \<Rightarrow> (pool_error + slot_status option) \<times> 'w"
  pf_mark_slot_booted :: "nat \<Rightarrow> string \<Rightarrow> 'w \<Rightarrow> (pool_error + slot_status) \<times> 'w"
  pf_release_slot :: "nat \<Rightarrow> 'w \<Rightarrow> (pool_error + slot_status) \<times> 'w"
  pf_reset_slot :: "nat \<Rightarrow> 'w \<Rightarrow> (pool_error + slot_status) \<times> 'w"
  pf_get_slot_status :: "nat \<Rightarrow> 'w \<Rightarrow> (pool_error + slot_status) \<times> 'w"
  pf_slot_socket_path :: "nat \<Rightarrow> 'w \<Rightarrow> string"
  pf_request :: "nat \<Rightarrow> http_method \<Rightarrow> string \<Rightarrow> string \<Rightarrow> 'w \<Rightarrow> (pool_error + proxy_response) \<times> 'w"
  pf_request_with_content_type ::
    "nat \<Rightarrow> http_method \<Rightarrow> string \<Rightarrow> string \<Rightarrow> string option \<Rightarrow> 'w
       \<Rightarrow> (pool_error + proxy_response) \<times> 'w"

definition process_pool_facade :: "pool_env \<Rightarrow> pool_world pool_facade" where
  "process_pool_facade E =
     \<lparr>pf_pool_size = (\<lambda>w. pool_size (pw_pool w)),
      pf_pool_usage_counts = pool_usage E,
      pf_list_runtimes = list_running_vms E,
      pf_find_runtime_by_name = find_vm_runtime_by_name E,
      pf_allocate_slot = allocate_vm_slot E,
      pf_find_slot_by_name = find_vm_slot_status_by_name E,
      pf_mark_slot_booted = mark_vm_slot_booted E,
      pf_release_slot = release_vm_slot E,
      pf_reset_slot = reset_vm_slot E,
      pf_get_slot_status = get_vm_slot_status E,
      pf_slot_socket_path = (\<lambda>i w. vm_socket_path i (pw_pool w)),
      pf_request = proxy_vm_request E,
      pf_request_with_content_type = proxy_vm_request_with_content_type E\<rparr>"

lemma process_pool_facade_sel [simp]:
  "pf_pool_size (process_pool_facade E) w = pool_size (pw_pool w)"
  "pf_pool_usage_counts (process_pool_facade E) = pool_usage E"
  "pf_list_runtimes (process_pool_facade E) = list_running_vms E"
  "pf_find_runtime_by_name (process_pool_facade E) = find_vm_runtime_by_name E"
  "pf_allocate_slot (process_pool_facade E) = allocate_vm_slot E"
  "pf_find_slot_by_name (process_pool_facade E) = find_vm_slot_status_by_name E"
  "pf_mark_slot_booted (process_pool_facade E) = mark_vm_slot_booted E"
  "pf_release_slot (process_pool_facade E) = release_vm_slot E"
  "pf_reset_slot (process_pool_facade E) = reset_vm_slot E"
  "pf_get_slot_status (process_pool_facade E) = get_vm_slot_status E"
  "pf_slot_socket_path (process_pool_facade E) i w = vm_socket_path i (pw_pool w)"
  "pf_request (process_pool_facade E) = proxy_vm_request E"
  "pf_request_with_content_type (process_pool_facade E) = proxy_vm_request_with_content_type E"
  by (simp_all add: process_pool_facade_def)

section \<open>The runtime around it\<close>

record 'w service_env =
  se_read_lock :: "'w \<Rightarrow> 'w"
  se_write_lock :: "'w \<Rightarrow> 'w"
  se_unlock :: "'w \<Rightarrow> 'w"
  se_connect :: "string \<Rightarrow> 'w \<Rightarrow> bool \<times> 'w"
  se_clock :: "'w \<Rightarrow> nat"
  se_sleep :: "nat \<Rightarrow> 'w \<Rightarrow> 'w"
  se_now :: "'w \<Rightarrow> string"
  se_sha256 :: "string \<Rightarrow> u8 list"
  se_to_vec :: "json \<Rightarrow> string + string"

text \<open>
  For the pool's world: waiting for the lock is an await like any other, with no lock held.
  If the autoscaler gets the lock first and starts to scale down, the wait never ends; it is
  logged as not granted.  What an operation does after such a wait never happens: whether a
  request returns, and what, is \<open>call_outcome\<close> in \<open>Api\<close>, which knows no result of a run
  with such a wait.  A sleep is an await too and moves the clock by at least its length.
  What \<open>connect\<close> answers at each step, the formatted times, the hash and the serialiser are
  \<open>host_services\<close>.
\<close>

record host_services =
  hs_connect :: "nat \<Rightarrow> string \<Rightarrow> bool"
  hs_now :: "nat \<Rightarrow> string"
  hs_sha256 :: "string \<Rightarrow> u8 list"
  hs_to_vec :: "json \<Rightarrow> string + string"

definition lock_as :: "lock_mode \<Rightarrow> pool_env \<Rightarrow> pool_world \<Rightarrow> pool_world" where
  "lock_as l E w =
     (let w1 = await E w;
          granted = (\<not> (pe_autoscales E (pw_step w) \<and> scaling_down (pw_clock w1) (pw_pool w1)))
      in (log_entry (Log_lock l granted) w1)\<lparr>pw_lock := l\<rparr>)"

fun is_denied :: "log_entry \<Rightarrow> bool" where
  "is_denied (Log_lock l granted) = (\<not> granted)"
| "is_denied e = False"

text \<open>The waits for the lock that no one has answered.\<close>

definition denied_waits :: "pool_world \<Rightarrow> nat" where
  "denied_waits w = length (filter is_denied (pw_log w))"

definition unlock :: "pool_world \<Rightarrow> pool_world" where
  "unlock w = w\<lparr>pw_lock := Unlocked\<rparr>"

definition sleep_ms :: "pool_env \<Rightarrow> nat \<Rightarrow> pool_world \<Rightarrow> pool_world" where
  "sleep_ms E ms w =
     (await E w)\<lparr>pw_clock := pw_clock w + max ms (pe_delay E (pw_step w))\<rparr>"

definition pool_service_env :: "pool_env \<Rightarrow> host_services \<Rightarrow> pool_world service_env" where
  "pool_service_env E H =
     \<lparr>se_read_lock = lock_as Read_held E,
      se_write_lock = lock_as Write_held E,
      se_unlock = unlock,
      se_connect = (\<lambda>path w. (hs_connect H (pw_step w) path, await E w)),
      se_clock = pw_clock,
      se_sleep = sleep_ms E,
      se_now = (\<lambda>w. hs_now H (pw_step w)),
      se_sha256 = hs_sha256 H,
      se_to_vec = hs_to_vec H\<rparr>"

lemma pool_service_env_sel [simp]:
  "se_read_lock (pool_service_env E H) = lock_as Read_held E"
  "se_write_lock (pool_service_env E H) = lock_as Write_held E"
  "se_unlock (pool_service_env E H) = unlock"
  "se_connect (pool_service_env E H) path w = (hs_connect H (pw_step w) path, await E w)"
  "se_clock (pool_service_env E H) = pw_clock"
  "se_sleep (pool_service_env E H) = sleep_ms E"
  "se_now (pool_service_env E H) w = hs_now H (pw_step w)"
  "se_sha256 (pool_service_env E H) = hs_sha256 H"
  "se_to_vec (pool_service_env E H) = hs_to_vec H"
  by (simp_all add: pool_service_env_def)

section \<open>The laws the service relies on\<close>

locale pool_service =
  fixes F :: "'w pool_facade" and R :: "'w service_env" and J :: "lock_mode \<Rightarrow> 'w \<Rightarrow> bool"
  assumes J_read_lock: "J Unlocked w \<Longrightarrow> J Read_held (se_read_lock R w)"
    and J_write_lock: "J Unlocked w \<Longrightarrow> J Write_held (se_write_lock R w)"
    and J_unlock: "J l w \<Longrightarrow> J Unlocked (se_unlock R w)"
    and J_connect: "J Unlocked w \<Longrightarrow> J Unlocked (snd (se_connect R path w))"
    and J_sleep: "J Unlocked w \<Longrightarrow> J Unlocked (se_sleep R ms w)"
    and J_allocate: "J Write_held w \<Longrightarrow> J Write_held (snd (pf_allocate_slot F name mac w))"
    and J_find: "J Read_held w \<Longrightarrow> J Read_held (snd (pf_find_slot_by_name F name w))"
    and J_mark: "J Read_held w \<Longrightarrow> J Read_held (snd (pf_mark_slot_booted F i at w))"
    and J_release: "J Read_held w \<Longrightarrow> J Read_held (snd (pf_release_slot F i w))"
    and J_reset: "J Read_held w \<Longrightarrow> J Read_held (snd (pf_reset_slot F i w))"
    and J_get: "J Read_held w \<Longrightarrow> J Read_held (snd (pf_get_slot_status F i w))"
    and J_request: "J Read_held w \<Longrightarrow> J Read_held (snd (pf_request F i m p b w))"
    and J_request_ct:
      "J Read_held w \<Longrightarrow> J Read_held (snd (pf_request_with_content_type F i m p b ct w))"

locale service_clock =
  fixes F :: "'w pool_facade" and R :: "'w service_env"
  assumes clock_lock: "se_clock R w \<le> se_clock R (se_read_lock R w)"
    and clock_unlock: "se_clock R (se_unlock R w) = se_clock R w"
    and clock_connect: "se_clock R w \<le> se_clock R (snd (se_connect R path w))"
    and clock_get: "se_clock R w \<le> se_clock R (snd (pf_get_slot_status F i w))"
    and clock_sleep: "se_clock R w + ms \<le> se_clock R (se_sleep R ms w)"

section \<open>The pool's implementation keeps them\<close>

lemma unlock_sel [simp]:
  "pw_pool (unlock w) = pw_pool w" "pw_lock (unlock w) = Unlocked" "pw_clock (unlock w) = pw_clock w"
  "pw_log (unlock w) = pw_log w" "pw_step (unlock w) = pw_step w"
  by (simp_all add: unlock_def)

lemma lock_as_sel [simp]:
  "pw_pool (lock_as l E w) = pw_pool (await E w)" "pw_lock (lock_as l E w) = l"
  "pw_clock (lock_as l E w) = pw_clock (await E w)" "pw_step (lock_as l E w) = pw_step (await E w)"
  by (simp_all add: lock_as_def log_entry_def Let_def)

lemma sleep_ms_sel [simp]:
  "pw_pool (sleep_ms E ms w) = pw_pool (await E w)" "pw_lock (sleep_ms E ms w) = pw_lock w"
  "pw_log (sleep_ms E ms w) = pw_log (await E w)"
  by (simp_all add: sleep_ms_def await_def)

lemma logged_command_lock [frame_simps]: "pw_lock (snd (logged_command E r i cmd w)) = pw_lock w"
  using send_command_lock [of E i cmd w] log_pool_occupancy_lock
  by (auto simp: logged_command_def split: sum.splits prod.splits)

lemma find_slot_lock [frame_simps]: "pw_lock (snd (find_vm_slot_status_by_name E n w)) = pw_lock w"
  using list_vm_slots_lock [of E w]
  by (auto simp: find_vm_slot_status_by_name_def split: sum.splits prod.splits)

lemma proxy_lock [frame_simps]:
  "pw_lock (snd (proxy_vm_request_with_content_type E i m p b ct w)) = pw_lock w"
  "pw_lock (snd (proxy_vm_request E i m p b w)) = pw_lock w"
  by (simp_all add: proxy_vm_request_with_content_type_def proxy_vm_request_def frame_simps Let_def)

lemma proxy_pool [simp]:
  "pw_pool (snd (proxy_vm_request_with_content_type E i m p b ct w)) = pw_pool (await E w)"
  "pw_pool (snd (proxy_vm_request E i m p b w)) = pw_pool (await E w)"
  by (simp_all add: proxy_vm_request_with_content_type_def proxy_vm_request_def frame_simps Let_def)

lemma allocate_loop_lock [frame_simps]: "pw_lock (snd (allocate_loop E name mac w)) = pw_lock w"
proof (induction E name mac w rule: allocate_loop.induct)
  case (1 E name mac w)
  obtain r w1 where l: "list_vm_slots E w = (r, w1)" by fastforce
  then have w1: "pw_lock w1 = pw_lock w" using list_vm_slots_lock [of E w] by simp
  have ext: "pw_lock (pool_extend E 1 w1) = pw_lock w1"
    by (simp add: pool_extend_def frame_simps)
  show ?case
    using "1.IH" l w1 ext
    by (auto simp: allocate_loop.simps [of E name mac w] reserve_vm_slot_def logged_command_lock
        split: sum.splits option.splits)
qed

lemma allocate_lock [frame_simps]: "pw_lock (snd (allocate_vm_slot E name mac w)) = pw_lock w"
  using find_slot_lock [of E name w] allocate_loop_lock
  by (auto simp: allocate_vm_slot_def split: sum.splits prod.splits option.splits)

text \<open>No operation removes a slot; only a scale-down does.\<close>

lemma logged_command_grows: "grows (pw_pool w) (pw_pool (snd (logged_command E r i cmd w)))"
proof -
  obtain a w1 where s: "send_command E i cmd w = (a, w1)" by fastforce
  then have "grows (pw_pool w) (pw_pool w1)" using send_command_grows [of w E i cmd] by simp
  with s show ?thesis
    using log_pool_occupancy_grows [of w1 E r]
    by (auto simp: logged_command_def split: sum.splits intro: grows_trans)
qed

lemma pool_extend_grows: "grows (pw_pool w) (pw_pool (pool_extend E k w))"
proof -
  let ?w = "w\<lparr>pw_pool := extend_slots k (pw_pool w)\<rparr>"
  have "grows (pw_pool w) (pw_pool ?w)" by (simp add: grows_def)
  then show ?thesis
    using log_pool_occupancy_grows [of ?w E "''extend''"] by (simp add: pool_extend_def grows_trans)
qed

lemma find_slot_grows: "grows (pw_pool w) (pw_pool (snd (find_vm_slot_status_by_name E n w)))"
  using list_vm_slots_grows [of w E]
  by (auto simp: find_vm_slot_status_by_name_def split: sum.splits prod.splits)

lemma allocate_loop_grows: "grows (pw_pool w) (pw_pool (snd (allocate_loop E name mac w)))"
proof (induction E name mac w rule: allocate_loop.induct)
  case (1 E name mac w)
  obtain r w1 where l: "list_vm_slots E w = (r, w1)" by fastforce
  then have w1: "grows (pw_pool w) (pw_pool w1)" using list_vm_slots_grows [of w E] by simp
  have ext: "grows (pw_pool w) (pw_pool (pool_extend E 1 w1))"
    using w1 pool_extend_grows by (rule grows_trans)
  have res: "grows (pw_pool w) (pw_pool (snd (reserve_vm_slot E i name mac tap w1)))" for i tap
    unfolding reserve_vm_slot_def using w1 logged_command_grows by (rule grows_trans)
  show ?case
    using "1.IH" l w1 ext res
    by (auto simp: allocate_loop.simps [of E name mac w] split: sum.splits option.splits
        intro: grows_trans)
qed

lemma allocate_grows: "grows (pw_pool w) (pw_pool (snd (allocate_vm_slot E name mac w)))"
proof -
  obtain r w1 where f: "find_vm_slot_status_by_name E name w = (r, w1)" by fastforce
  then have "grows (pw_pool w) (pw_pool w1)" using find_slot_grows [of w E name] by simp
  with f show ?thesis
    using allocate_loop_grows [of w1 E name mac]
    by (auto simp: allocate_vm_slot_def split: sum.splits option.splits intro: grows_trans)
qed

text \<open>The invariant of the interpretation: the lock, and a pool reachable from a given one.\<close>

definition reached :: "process_pool \<Rightarrow> lock_mode \<Rightarrow> pool_world \<Rightarrow> bool" where
  "reached p l w = (pw_lock w = l \<and> pool_steps p (pw_pool w))"

lemma reached_step:
  "reached p l w \<Longrightarrow> pw_lock w' = l' \<Longrightarrow> pool_steps (pw_pool w) (pw_pool w') \<Longrightarrow> reached p l' w'"
  by (auto simp: reached_def intro: pool_steps_trans)

interpretation svc: pool_service "process_pool_facade E" "pool_service_env E H" "reached p"
  for E H p
proof (unfold_locales, goal_cases)
  case (6 w name mac)
  then show ?case
    by (rule reached_step) (use 6 in \<open>simp_all add: reached_def frame_simps allocate_steps\<close>)
next
  case (7 w name)
  then show ?case
    by (rule reached_step) (use 7 in \<open>simp_all add: reached_def frame_simps find_slot_steps\<close>)
next
  case (8 w i at)
  then show ?case
    by (rule reached_step)
      (use 8 in \<open>simp_all add: reached_def frame_simps mark_vm_slot_booted_def logged_command_steps\<close>)
next
  case (9 w i)
  then show ?case
    by (rule reached_step)
      (use 9 in \<open>simp_all add: reached_def frame_simps release_vm_slot_def logged_command_steps\<close>)
next
  case (10 w i)
  then show ?case
    by (rule reached_step)
      (use 10 in \<open>simp_all add: reached_def frame_simps reset_vm_slot_def logged_command_steps\<close>)
next
  case (11 w i)
  then show ?case
    by (rule reached_step)
      (use 11 in \<open>simp_all add: reached_def frame_simps get_vm_slot_status_def send_command_steps\<close>)
qed (auto simp: reached_def frame_simps intro: pool_steps_trans [OF await_steps])

text \<open>Time.\<close>

lemma await_clock: "pw_clock w \<le> pw_clock (await E w)"
  by (simp add: await_def)

lemma send_command_clock: "pw_clock w \<le> pw_clock (snd (send_command E i cmd w))"
  using await_clock [of w E]
  by (auto simp: send_command_def Let_def log_entry_def split: prod.splits)

interpretation svc_clock: service_clock "process_pool_facade E" "pool_service_env E H"
  for E H
  by unfold_locales
    (simp_all add: await_clock get_vm_slot_status_def send_command_clock sleep_ms_def)

end
