(* ===== verification/Service.thy ===== *)
theory Service
  imports PoolFacade
begin

text \<open>
  \<open>src/service.rs\<close>: creating, deleting and controlling VMs on top of the pool facade.
  Every operation is a function of a facade \<open>F\<close>, a runtime \<open>R\<close> and a world, as the source
  is generic in \<open>P: PoolFacade\<close>.  Taking a guard is \<open>se_read_lock\<close> or \<open>se_write_lock\<close>;
  dropping it, explicitly, at the end of its scope or by an early return, is \<open>se_unlock\<close>.

  \<open>wait_loop\<close> polls until a deadline and is a partial function: \<open>None\<close> would be a wait
  that never ends.  \<open>wait_returns\<close> shows that under the clock's laws it always ends.
\<close>

section \<open>MAC addresses\<close>

definition mac_for_name :: "(string \<Rightarrow> u8 list) \<Rightarrow> string \<Rightarrow> string" where
  "mac_for_name sha256 name =
     (let hash = sha256 name in
      ''02:'' @ hex02 (hash ! 0) @ '':'' @ hex02 (hash ! 1) @ '':'' @ hex02 (hash ! 2) @ '':''
        @ hex02 (hash ! 3) @ '':'' @ hex02 (hash ! 4))"

section \<open>Waiting for a slot\<close>

definition ready_deadline_ms :: nat where
  "ready_deadline_ms = 5000"

definition ready_poll_ms :: nat where
  "ready_poll_ms = 50"

text \<open>A successful connect is only tried on a slot that has a process.\<close>

definition try_connect :: "'w service_env \<Rightarrow> string \<Rightarrow> slot_status \<Rightarrow> 'w \<Rightarrow> bool \<times> 'w" where
  "try_connect R socket_path status w =
     (let has_pid = (ss_pid status \<noteq> None) in
      if has_pid then se_connect R socket_path w else (False, w))"

partial_function (option) wait_loop ::
  "'w pool_facade \<Rightarrow> 'w service_env \<Rightarrow> nat \<Rightarrow> nat \<Rightarrow> 'w \<Rightarrow> ((api_error + unit) \<times> 'w) option" where
  "wait_loop F R slot start w =
     (case pf_get_slot_status F slot (se_read_lock R w) of (r, w1) \<Rightarrow>
       (case r of
          Inl err \<Rightarrow> Some (Inl (api_error_from err), se_unlock R w1)
        | Inr status \<Rightarrow>
            (let socket_path = pf_slot_socket_path F slot w1;
                 attempt = try_connect R socket_path status (se_unlock R w1) in
             if fst attempt then Some (Inr (), snd attempt)
             else if ready_deadline_ms \<le> se_clock R (snd attempt) - start
             then Some (Inl (ApiBackend (''slot '' @ show_nat slot @ '' did not become ready'')),
                        snd attempt)
             else wait_loop F R slot start (se_sleep R ready_poll_ms (snd attempt)))))"

declare wait_loop.simps [code]

definition wait_for_slot_ready ::
  "'w pool_facade \<Rightarrow> 'w service_env \<Rightarrow> nat \<Rightarrow> 'w \<Rightarrow> ((api_error + unit) \<times> 'w) option" where
  "wait_for_slot_ready F R slot w = wait_loop F R slot (se_clock R w) w"

definition cleanup_reserved_vm :: "'w pool_facade \<Rightarrow> 'w service_env \<Rightarrow> nat \<Rightarrow> 'w \<Rightarrow> 'w" where
  "cleanup_reserved_vm F R slot w =
     se_unlock R (snd (pf_reset_slot F slot (se_read_lock R w)))"

section \<open>Creating a VM\<close>

definition create_body :: "boot_config \<Rightarrow> slot_status \<Rightarrow> json" where
  "create_body c reserved =
     (if bc_snapshot_path c \<noteq> None then create_restore_request_body c
      else create_vm_request_body c reserved)"

definition create_path :: "boot_config \<Rightarrow> string" where
  "create_path c =
     (if bc_snapshot_path c \<noteq> None then ''/api/v1/vm.restore'' else ''/api/v1/vm.create'')"

text \<open>From the second wait on: the slot is marked booted and its status converted.\<close>

definition finish_create ::
  "'w pool_facade \<Rightarrow> 'w service_env \<Rightarrow> nat \<Rightarrow> string \<Rightarrow> 'w
     \<Rightarrow> ((api_error + vm_runtime) \<times> 'w) option" where
  "finish_create F R slot started_at w =
     Option.bind (wait_for_slot_ready F R slot w) (\<lambda>(r, w1).
       case r of
         Inl err \<Rightarrow> Some (Inl err, w1)
       | Inr _ \<Rightarrow>
           (case pf_mark_slot_booted F slot started_at (se_read_lock R w1) of
              (Inl err, w2) \<Rightarrow> Some (Inl (api_error_from err), se_unlock R w2)
            | (Inr status, w2) \<Rightarrow>
                Some (map_err api_error_from (try_into_runtime status), se_unlock R w2)))"

text \<open>The boot request, unless a snapshot is restored; the guard is held on entry.\<close>

definition boot_created ::
  "'w pool_facade \<Rightarrow> 'w service_env \<Rightarrow> boot_config \<Rightarrow> nat \<Rightarrow> string \<Rightarrow> 'w
     \<Rightarrow> ((api_error + vm_runtime) \<times> 'w) option" where
  "boot_created F R c slot started_at w =
     (if bc_snapshot_path c = None then
        (case pf_request_with_content_type F slot Method_PUT ''/api/v1/vm.boot'' [] None w of
           (Inl err, w1) \<Rightarrow> Some (Inl (api_error_from err), se_unlock R w1)
         | (Inr response, w1) \<Rightarrow>
             if 400 \<le> pr_status response
             then Some (Inl (ApiBackend (format_backend_error response)),
                        cleanup_reserved_vm F R slot (se_unlock R w1))
             else finish_create F R slot started_at (se_unlock R w1))
      else finish_create F R slot started_at (se_unlock R w))"

text \<open>The create or restore request on a slot that has become ready.\<close>

definition create_on_slot ::
  "'w pool_facade \<Rightarrow> 'w service_env \<Rightarrow> boot_config \<Rightarrow> slot_status \<Rightarrow> 'w
     \<Rightarrow> ((api_error + vm_runtime) \<times> 'w) option" where
  "create_on_slot F R c reserved w =
     (let slot = ss_slot reserved; started_at = se_now R w in
      case se_to_vec R (create_body c reserved) of
        Inl err \<Rightarrow> Some (Inl (ApiBackend err), w)
      | Inr proxy_body \<Rightarrow>
          (case pf_request_with_content_type F slot Method_PUT (create_path c) proxy_body
                  (Some ''application/json'') (se_read_lock R w) of
             (Inl err, w1) \<Rightarrow> Some (Inl (api_error_from err), se_unlock R w1)
           | (Inr response, w1) \<Rightarrow>
               if 400 \<le> pr_status response
               then Some (Inl (ApiBackend (format_backend_error response)),
                          cleanup_reserved_vm F R slot (se_unlock R w1))
               else boot_created F R c slot started_at w1))"

definition create_vm_with_pool ::
  "'w pool_facade \<Rightarrow> 'w service_env \<Rightarrow> boot_config \<Rightarrow> 'w
     \<Rightarrow> ((api_error + vm_runtime) \<times> 'w) option" where
  "create_vm_with_pool F R c w =
     (case validate_boot_config c of
        Inl err \<Rightarrow> Some (Inl err, w)
      | Inr _ \<Rightarrow>
          (case pf_allocate_slot F (bc_name c) (mac_for_name (se_sha256 R) (bc_name c))
                  (se_write_lock R w) of
             (Inl err, w1) \<Rightarrow> Some (Inl (api_error_from err), se_unlock R w1)
           | (Inr reserved, w1) \<Rightarrow>
               Option.bind (wait_for_slot_ready F R (ss_slot reserved) (se_unlock R w1)) (\<lambda>(r, w2).
                 case r of
                   Inl err \<Rightarrow> Some (Inl err, w2)
                 | Inr _ \<Rightarrow> create_on_slot F R c reserved w2)))"

section \<open>Running VMs\<close>

text \<open>The look-up every operation on a running VM starts with; the guard is held.\<close>

definition running_slot ::
  "'w pool_facade \<Rightarrow> string \<Rightarrow> 'w \<Rightarrow> (api_error + slot_status) \<times> 'w" where
  "running_slot F name w =
     (case pf_find_slot_by_name F name w of
        (Inl err, w1) \<Rightarrow> (Inl (api_error_from err), w1)
      | (Inr None, w1) \<Rightarrow> (Inl (NotFound (''VM '' @ quoted name @ '' not found'')), w1)
      | (Inr (Some status), w1) \<Rightarrow>
          if ss_state status \<noteq> Occupied
          then (Inl (Conflict (''VM '' @ quoted name @ '' is not running'')), w1)
          else (Inr status, w1))"

text \<open>\<open>vm.delete\<close> and the release that follow an accepted \<open>vm.shutdown\<close>.\<close>

definition delete_stopped ::
  "'w pool_facade \<Rightarrow> 'w service_env \<Rightarrow> nat \<Rightarrow> 'w \<Rightarrow> (api_error + unit) \<times> 'w" where
  "delete_stopped F R slot w =
     (case pf_request_with_content_type F slot Method_PUT ''/api/v1/vm.delete'' [] None w of
        (Inl err, w1) \<Rightarrow> (Inl (api_error_from err), se_unlock R w1)
      | (Inr response, w1) \<Rightarrow>
          if 400 \<le> pr_status response
          then (Inl (ApiBackend (format_backend_error response)),
                cleanup_reserved_vm F R slot (se_unlock R w1))
          else
            (case pf_release_slot F slot w1 of
               (Inl err, w2) \<Rightarrow> (Inl (api_error_from err), se_unlock R w2)
             | (Inr _, w2) \<Rightarrow> (Inr (), se_unlock R w2)))"

definition delete_vm_with_pool ::
  "'w pool_facade \<Rightarrow> 'w service_env \<Rightarrow> string \<Rightarrow> 'w \<Rightarrow> (api_error + unit) \<times> 'w" where
  "delete_vm_with_pool F R name w =
     (case running_slot F name (se_read_lock R w) of
        (Inl err, w1) \<Rightarrow> (Inl err, se_unlock R w1)
      | (Inr status, w1) \<Rightarrow>
          (let slot = ss_slot status in
           case pf_request_with_content_type F slot Method_PUT ''/api/v1/vm.shutdown'' [] None w1 of
             (Inl err, w2) \<Rightarrow> (Inl (api_error_from err), se_unlock R w2)
           | (Inr response, w2) \<Rightarrow>
               if 400 \<le> pr_status response
               then (Inl (ApiBackend (format_backend_error response)),
                     cleanup_reserved_vm F R slot (se_unlock R w2))
               else delete_stopped F R slot w2))"

definition proxy_action_by_name_with_body_for_pool ::
  "'w pool_facade \<Rightarrow> 'w service_env \<Rightarrow> string \<Rightarrow> string \<Rightarrow> json \<Rightarrow> 'w \<Rightarrow> (api_error + unit) \<times> 'w" where
  "proxy_action_by_name_with_body_for_pool F R name path body w =
     (case running_slot F name (se_read_lock R w) of
        (Inl err, w1) \<Rightarrow> (Inl err, se_unlock R w1)
      | (Inr status, w1) \<Rightarrow>
          (case se_to_vec R body of
             Inl err \<Rightarrow> (Inl (ApiBackend err), se_unlock R w1)
           | Inr bytes \<Rightarrow>
               (case pf_request_with_content_type F (ss_slot status) Method_PUT path bytes
                       (Some ''application/json'') w1 of
                  (Inl err, w2) \<Rightarrow> (Inl (api_error_from err), se_unlock R w2)
                | (Inr response, w2) \<Rightarrow>
                    if 400 \<le> pr_status response
                    then (Inl (ApiBackend (format_backend_error response)), se_unlock R w2)
                    else (Inr (), se_unlock R w2))))"

definition proxy_action_by_name ::
  "'w pool_facade \<Rightarrow> 'w service_env \<Rightarrow> string \<Rightarrow> string \<Rightarrow> 'w \<Rightarrow> (api_error + unit) \<times> 'w" where
  "proxy_action_by_name F R name path w =
     proxy_action_by_name_with_body_for_pool F R name path (JObj []) w"

definition proxy_passthrough_by_name_for_pool ::
  "'w pool_facade \<Rightarrow> 'w service_env \<Rightarrow> string \<Rightarrow> string \<Rightarrow> 'w \<Rightarrow> (api_error + proxy_response) \<times> 'w" where
  "proxy_passthrough_by_name_for_pool F R name path w =
     (case running_slot F name (se_read_lock R w) of
        (Inl err, w1) \<Rightarrow> (Inl err, se_unlock R w1)
      | (Inr status, w1) \<Rightarrow>
          (case pf_request F (ss_slot status) Method_GET path [] w1 of
             (r, w2) \<Rightarrow> (map_err api_error_from r, se_unlock R w2)))"

section \<open>The daemon's instances\<close>

definition create_vm ::
  "pool_env \<Rightarrow> host_services \<Rightarrow> boot_config \<Rightarrow> pool_world
     \<Rightarrow> ((api_error + vm_runtime) \<times> pool_world) option" where
  "create_vm E H = create_vm_with_pool (process_pool_facade E) (pool_service_env E H)"

definition delete_vm ::
  "pool_env \<Rightarrow> host_services \<Rightarrow> string \<Rightarrow> pool_world \<Rightarrow> (api_error + unit) \<times> pool_world" where
  "delete_vm E H = delete_vm_with_pool (process_pool_facade E) (pool_service_env E H)"

definition proxy_action ::
  "pool_env \<Rightarrow> host_services \<Rightarrow> string \<Rightarrow> string \<Rightarrow> json \<Rightarrow> pool_world
     \<Rightarrow> (api_error + unit) \<times> pool_world" where
  "proxy_action E H =
     proxy_action_by_name_with_body_for_pool (process_pool_facade E) (pool_service_env E H)"

definition proxy_passthrough ::
  "pool_env \<Rightarrow> host_services \<Rightarrow> string \<Rightarrow> string \<Rightarrow> pool_world
     \<Rightarrow> (api_error + proxy_response) \<times> pool_world" where
  "proxy_passthrough E H =
     proxy_passthrough_by_name_for_pool (process_pool_facade E) (pool_service_env E H)"

section \<open>What every operation keeps\<close>

text \<open>A predicate that polling, connecting and sleeping keep holds when the wait returns.\<close>

definition wait_keeps ::
  "('w \<Rightarrow> bool) \<Rightarrow> 'w pool_facade \<Rightarrow> 'w service_env \<Rightarrow> nat \<Rightarrow> bool" where
  "wait_keeps P F R slot =
     ((\<forall>w. P w \<longrightarrow> P (se_sleep R ready_poll_ms w))
      \<and> (\<forall>w. P w \<longrightarrow> P (se_unlock R (snd (pf_get_slot_status F slot (se_read_lock R w)))))
      \<and> (\<forall>w path. P w \<longrightarrow> P (snd (se_connect R path w))))"

lemma wait_loop_keeps:
  assumes "wait_loop F R slot start w = Some y" and "wait_keeps P F R slot" and "P w"
  shows "P (snd y)"
proof -
  have "wait_keeps P F R slot \<longrightarrow> P w \<longrightarrow> P (snd y)"
  proof (rule wait_loop.raw_induct [where P = "\<lambda>F R slot start w y.
        wait_keeps P F R slot \<longrightarrow> P w \<longrightarrow> P (snd y)", OF _ assms(1)], intro impI)
    fix loop and F :: "'a pool_facade" and R slot start w and y :: "(api_error + unit) \<times> 'a"
    assume IH: "\<And>F R slot start w y. loop F R slot start w = Some y \<Longrightarrow>
        wait_keeps P F R slot \<longrightarrow> P w \<longrightarrow> P (snd y)"
      and eq: "(case pf_get_slot_status F slot (se_read_lock R w) of (r, w1) \<Rightarrow>
       (case r of
          Inl err \<Rightarrow> Some (Inl (api_error_from err), se_unlock R w1)
        | Inr status \<Rightarrow>
            (let socket_path = pf_slot_socket_path F slot w1;
                 attempt = try_connect R socket_path status (se_unlock R w1) in
             if fst attempt then Some (Inr (), snd attempt)
             else if ready_deadline_ms \<le> se_clock R (snd attempt) - start
             then Some (Inl (ApiBackend (''slot '' @ show_nat slot @ '' did not become ready'')),
                        snd attempt)
             else loop F R slot start (se_sleep R ready_poll_ms (snd attempt))))) = Some y"
      and keeps: "wait_keeps P F R slot" and Pw: "P w"
    obtain r w1 where g: "pf_get_slot_status F slot (se_read_lock R w) = (r, w1)" by fastforce
    then have w2: "P (se_unlock R w1)" using keeps Pw unfolding wait_keeps_def by (metis snd_conv)
    show "P (snd y)"
    proof (cases r)
      case (Inl err)
      with g eq w2 show ?thesis by auto
    next
      case (Inr status)
      let ?a = "try_connect R (pf_slot_socket_path F slot w1) status (se_unlock R w1)"
      have a: "P (snd ?a)" using w2 keeps by (simp add: wait_keeps_def try_connect_def)
      show ?thesis
      proof (cases "fst ?a \<or> ready_deadline_ms \<le> se_clock R (snd ?a) - start")
        case True
        with g Inr eq a show ?thesis by (auto simp: Let_def split: if_splits)
      next
        case False
        with g Inr eq have "loop F R slot start (se_sleep R ready_poll_ms (snd ?a)) = Some y"
          by (auto simp: Let_def split: if_splits)
        moreover have "P (se_sleep R ready_poll_ms (snd ?a))"
          using a keeps by (simp add: wait_keeps_def)
        ultimately show ?thesis using IH keeps by blast
      qed
    qed
  qed
  with assms(2,3) show ?thesis by blast
qed

context pool_service
begin

lemma J_unlock_read: "J Read_held w \<Longrightarrow> J Unlocked (se_unlock R w)"
  by (rule J_unlock)

lemma J_unlock_write: "J Write_held w \<Longrightarrow> J Unlocked (se_unlock R w)"
  by (rule J_unlock)

lemma J_wait_loop:
  "wait_loop F R slot start w = Some y \<Longrightarrow> J Unlocked w \<Longrightarrow> J Unlocked (snd y)"
  by (erule wait_loop_keeps)
    (auto simp: wait_keeps_def intro: J_sleep J_unlock_read J_get J_read_lock J_connect)

lemma J_wait:
  "wait_for_slot_ready F R slot w = Some (r, w') \<Longrightarrow> J Unlocked w \<Longrightarrow> J Unlocked w'"
  using J_wait_loop by (fastforce simp: wait_for_slot_ready_def)

lemma J_cleanup: "J Unlocked w \<Longrightarrow> J Unlocked (cleanup_reserved_vm F R slot w)"
  unfolding cleanup_reserved_vm_def by (intro J_unlock_read J_reset J_read_lock)

lemma J_finish:
  assumes "finish_create F R slot at w = Some (r, w')" and "J Unlocked w"
  shows "J Unlocked w'"
proof -
  from assms(1) obtain s w1 where wt: "wait_for_slot_ready F R slot w = Some (s, w1)"
    by (auto simp: finish_create_def bind_eq_Some_conv)
  have w1: "J Unlocked w1" using J_wait [OF wt assms(2)] .
  then have "J Read_held (snd (pf_mark_slot_booted F slot at (se_read_lock R w1)))"
    by (intro J_mark J_read_lock)
  with assms(1) wt w1 show ?thesis
    by (auto simp: finish_create_def split: sum.splits prod.splits intro: J_unlock_read)
qed

lemma J_request_ct_eq:
  "pf_request_with_content_type F i m p b ct w = (r, w1) \<Longrightarrow> J Read_held w \<Longrightarrow> J Read_held w1"
  using J_request_ct by (metis snd_conv)

lemma J_boot:
  assumes "boot_created F R c slot at w = Some (r, w')" and "J Read_held w"
  shows "J Unlocked w'"
proof (cases "bc_snapshot_path c = None")
  case True
  obtain q w1 where rq: "pf_request_with_content_type F slot Method_PUT ''/api/v1/vm.boot'' [] None w = (q, w1)"
    by fastforce
  have u: "J Unlocked (se_unlock R w1)" by (intro J_unlock_read J_request_ct_eq [OF rq] assms(2))
  with True rq assms(1) show ?thesis
    by (auto simp: boot_created_def split: sum.splits if_splits intro: J_cleanup dest: J_finish)
next
  case False
  with assms show ?thesis by (auto simp: boot_created_def dest: J_finish intro: J_unlock_read)
qed

lemma J_create_on_slot:
  assumes "create_on_slot F R c reserved w = Some (r, w')" and "J Unlocked w"
  shows "J Unlocked w'"
proof (cases "se_to_vec R (create_body c reserved)")
  case (Inl err)
  with assms show ?thesis by (auto simp: create_on_slot_def Let_def)
next
  case (Inr b)
  obtain q w1 where rq: "pf_request_with_content_type F (ss_slot reserved) Method_PUT (create_path c) b
      (Some ''application/json'') (se_read_lock R w) = (q, w1)" by fastforce
  have h: "J Read_held w1" by (intro J_request_ct_eq [OF rq] J_read_lock assms(2))
  then have u: "J Unlocked (se_unlock R w1)" by (rule J_unlock)
  with h Inr rq assms(1) show ?thesis
    by (auto simp: create_on_slot_def Let_def split: sum.splits if_splits intro: J_cleanup dest: J_boot)
qed

lemma J_create:
  assumes "create_vm_with_pool F R c w = Some (r, w')" and "J Unlocked w"
  shows "J Unlocked w'"
proof (cases "validate_boot_config c")
  case (Inl err)
  with assms show ?thesis by (auto simp: create_vm_with_pool_def)
next
  case (Inr u)
  obtain q w1 where al: "pf_allocate_slot F (bc_name c) (mac_for_name (se_sha256 R) (bc_name c))
      (se_write_lock R w) = (q, w1)" by fastforce
  have "J Write_held (snd (pf_allocate_slot F (bc_name c) (mac_for_name (se_sha256 R) (bc_name c))
      (se_write_lock R w)))"
    by (intro J_allocate J_write_lock assms(2))
  then have ul: "J Unlocked (se_unlock R w1)" using al by (auto intro: J_unlock_write)
  show ?thesis
  proof (cases q)
    case (Inl err)
    with Inr al ul assms(1) show ?thesis by (auto simp: create_vm_with_pool_def)
  next
    case res: (Inr reserved)
    with Inr al assms(1) obtain s w2
      where wt: "wait_for_slot_ready F R (ss_slot reserved) (se_unlock R w1) = Some (s, w2)"
      by (auto simp: create_vm_with_pool_def bind_eq_Some_conv)
    have "J Unlocked w2" using J_wait [OF wt ul] .
    with Inr res al wt assms(1) show ?thesis
      by (auto simp: create_vm_with_pool_def split: sum.splits dest: J_create_on_slot)
  qed
qed

lemma J_running: "J Read_held w \<Longrightarrow> J Read_held (snd (running_slot F name w))"
  using J_find [of w name]
  by (auto simp: running_slot_def split: sum.splits prod.splits option.splits)

lemma J_delete_stopped:
  assumes "J Read_held w"
  shows "J Unlocked (snd (delete_stopped F R slot w))"
proof -
  obtain q w1 where rq: "pf_request_with_content_type F slot Method_PUT ''/api/v1/vm.delete'' [] None w = (q, w1)"
    by fastforce
  have h: "J Read_held w1" by (rule J_request_ct_eq [OF rq assms])
  then have "J Unlocked (se_unlock R (snd (pf_release_slot F slot w1)))"
    by (intro J_unlock_read J_release)
  with h rq show ?thesis
    by (auto simp: delete_stopped_def split: sum.splits prod.splits intro: J_unlock_read J_cleanup)
qed

lemma J_delete:
  assumes "J Unlocked w"
  shows "J Unlocked (snd (delete_vm_with_pool F R name w))"
proof -
  obtain s w1 where f: "running_slot F name (se_read_lock R w) = (s, w1)" by fastforce
  have h: "J Read_held w1" using J_running [OF J_read_lock [OF assms], of name] f by simp
  show ?thesis
  proof (cases s)
    case (Inl err)
    with f h show ?thesis by (simp add: delete_vm_with_pool_def J_unlock_read)
  next
    case (Inr st)
    obtain q w2 where rq: "pf_request_with_content_type F (ss_slot st) Method_PUT
        ''/api/v1/vm.shutdown'' [] None w1 = (q, w2)" by fastforce
    have "J Read_held w2" by (rule J_request_ct_eq [OF rq h])
    with f rq Inr show ?thesis
      by (cases q) (auto simp: delete_vm_with_pool_def Let_def
          intro: J_unlock_read J_cleanup J_delete_stopped)
  qed
qed

lemma J_proxy_action:
  assumes "J Unlocked w"
  shows "J Unlocked (snd (proxy_action_by_name_with_body_for_pool F R name path body w))"
proof -
  obtain s w1 where f: "running_slot F name (se_read_lock R w) = (s, w1)" by fastforce
  have h: "J Read_held w1" using J_running [OF J_read_lock [OF assms], of name] f by simp
  then have "J Read_held (snd (pf_request_with_content_type F i m p b ct w1))" for i m p b ct
    by (rule J_request_ct)
  with h f show ?thesis
    by (auto simp: proxy_action_by_name_with_body_for_pool_def split: sum.splits prod.splits
        intro: J_unlock_read) (metis J_unlock_read snd_conv)+
qed

lemma J_passthrough:
  assumes "J Unlocked w"
  shows "J Unlocked (snd (proxy_passthrough_by_name_for_pool F R name path w))"
proof -
  obtain s w1 where f: "running_slot F name (se_read_lock R w) = (s, w1)" by fastforce
  have h: "J Read_held w1" using J_running [OF J_read_lock [OF assms], of name] f by simp
  then have "J Read_held (snd (pf_request F i m p b w1))" for i m p b
    by (rule J_request)
  with h f show ?thesis
    by (auto simp: proxy_passthrough_by_name_for_pool_def split: sum.splits prod.splits
        intro: J_unlock_read) (metis J_unlock_read snd_conv)+
qed

end

section \<open>Every wait ends\<close>

context service_clock
begin

lemma wait_loop_returns: "\<exists>y. wait_loop F R slot start w = Some y"
proof (induction "start + ready_deadline_ms - se_clock R w" arbitrary: w rule: less_induct)
  case less
  obtain r w1 where g: "pf_get_slot_status F slot (se_read_lock R w) = (r, w1)" by fastforce
  have "se_clock R w \<le> se_clock R w1"
    using clock_lock [of w] clock_get [of "se_read_lock R w" slot] g by simp
  then have w2: "se_clock R w \<le> se_clock R (se_unlock R w1)" by (simp add: clock_unlock)
  show ?case
  proof (cases r)
    case (Inl err)
    with g show ?thesis by (simp add: wait_loop.simps [of F R slot start w])
  next
    case (Inr status)
    let ?a = "try_connect R (pf_slot_socket_path F slot w1) status (se_unlock R w1)"
    let ?w3 = "se_sleep R ready_poll_ms (snd ?a)"
    have a: "se_clock R w \<le> se_clock R (snd ?a)"
      using w2 le_trans [OF w2 clock_connect] by (simp add: try_connect_def)
    show ?thesis
    proof (cases "fst ?a \<or> ready_deadline_ms \<le> se_clock R (snd ?a) - start")
      case True
      with g Inr show ?thesis by (simp add: wait_loop.simps [of F R slot start w] Let_def) blast
    next
      case False
      have "se_clock R (snd ?a) + ready_poll_ms \<le> se_clock R ?w3" by (rule clock_sleep)
      with a False have "start + ready_deadline_ms - se_clock R ?w3
          < start + ready_deadline_ms - se_clock R w"
        by (simp add: ready_poll_ms_def ready_deadline_ms_def not_le) linarith
      from less [OF this] obtain y where "wait_loop F R slot start ?w3 = Some y" by blast
      with False g Inr show ?thesis
        by (intro exI [of _ y]) (simp add: wait_loop.simps [of F R slot start w] Let_def)
    qed
  qed
qed

lemma wait_returns: "\<exists>y. wait_for_slot_ready F R slot w = Some y"
  unfolding wait_for_slot_ready_def by (rule wait_loop_returns)

lemma finish_returns: "\<exists>y. finish_create F R slot at w = Some y"
  using wait_returns [of slot w]
  by (auto simp: finish_create_def split: sum.splits prod.splits)

lemma boot_returns: "\<exists>y. boot_created F R c slot at w = Some y"
  using finish_returns by (auto simp: boot_created_def split: sum.splits prod.splits)

lemma create_on_slot_returns: "\<exists>y. create_on_slot F R c reserved w = Some y"
  using boot_returns by (auto simp: create_on_slot_def Let_def split: sum.splits prod.splits)

lemma create_returns: "\<exists>y. create_vm_with_pool F R c w = Some y"
proof (cases "validate_boot_config c")
  case (Inl err)
  then show ?thesis by (simp add: create_vm_with_pool_def)
next
  case (Inr u)
  obtain q w1 where al: "pf_allocate_slot F (bc_name c) (mac_for_name (se_sha256 R) (bc_name c))
      (se_write_lock R w) = (q, w1)" by fastforce
  show ?thesis
  proof (cases q)
    case (Inl err)
    with Inr al show ?thesis by (simp add: create_vm_with_pool_def)
  next
    case res: (Inr reserved)
    obtain s w2 where wt: "wait_for_slot_ready F R (ss_slot reserved) (se_unlock R w1) = Some (s, w2)"
      using wait_returns [of "ss_slot reserved" "se_unlock R w1"] by auto
    with Inr al res create_on_slot_returns [of c reserved w2] show ?thesis
      by (cases s) (auto simp: create_vm_with_pool_def)
  qed
qed

end

end
