(* ===== verification/PoolLog.thy ===== *)
theory PoolLog
  imports PoolFacade
begin

text \<open>
  Views of the log of the pool's world.  The status queries and the occupancy lines that
  every operation makes on its way do not concern most readers of the log; \<open>log_view\<close> is the
  interface of a reader that leaves them out, and says what each operation then adds.
\<close>

definition log_view :: "(log_entry \<Rightarrow> bool) \<Rightarrow> pool_world \<Rightarrow> log_entry list" where
  "log_view P w = filter P (pw_log w)"

lemma log_view_frame [simp]:
  "log_view P (await E w) = log_view P w"
  "log_view P (unlock w) = log_view P w"
  "log_view P (sleep_ms E ms w) = log_view P w"
  "log_view P (w\<lparr>pw_pool := p\<rparr>) = log_view P w"
  by (simp_all add: log_view_def await_def sleep_ms_def)

lemma log_view_entry [simp]: "log_view P (log_entry e w) = log_view P w @ (if P e then [e] else [])"
  by (simp add: log_view_def log_entry_def)

lemma log_view_lock:
  "\<exists>granted. log_view P (lock_as l E w) = log_view P w @ filter P [Log_lock l granted]"
  by (auto simp: lock_as_def Let_def log_view_def log_entry_def await_def)

lemma log_view_request:
  "log_view P (snd (proxy_vm_request_with_content_type E i m path b ct w))
     = log_view P w @ filter P [Log_request i m path,
         Log_answer i (fst (proxy_vm_request_with_content_type E i m path b ct w))]"
  by (simp add: proxy_vm_request_with_content_type_def Let_def)

locale log_reader =
  fixes P :: "log_entry \<Rightarrow> bool"
  assumes ignores_queries: "\<not> P (Log_command i GetVmStatus)"
    and ignores_occupancy: "\<not> P (Log_occupancy r a b c d e)"
    and ignores_warnings: "\<not> P (Log_warning r err)"
begin

lemmas ignores = ignores_queries ignores_occupancy ignores_warnings

lemma view_get: "log_view P (snd (get_vm_slot_status E i w)) = log_view P w"
  by (auto simp: get_vm_slot_status_def send_command_def Let_def ignores split: prod.splits)

lemma view_collect: "log_view P (snd (collect_statuses E is w)) = log_view P w"
proof (induction "is" arbitrary: w)
  case (Cons i "is")
  obtain r w1 where g: "get_vm_slot_status E i w = (r, w1)" by fastforce
  then have "log_view P w1 = log_view P w" using view_get [of E i w] by simp
  with g Cons.IH [of w1] show ?case by (auto split: sum.splits prod.splits)
qed simp

lemma view_list: "log_view P (snd (list_vm_slots E w)) = log_view P w"
  by (simp add: list_vm_slots_def view_collect)

lemma view_occupancy: "log_view P (log_pool_occupancy E r w) = log_view P w"
  using view_list [of E w] by (auto simp: log_pool_occupancy_def ignores split: sum.splits prod.splits)

lemma view_find: "log_view P (snd (find_vm_slot_status_by_name E n w)) = log_view P w"
  using view_list [of E w]
  by (auto simp: find_vm_slot_status_by_name_def split: sum.splits prod.splits)

lemma view_readers:
  "log_view P (snd (pool_usage E w)) = log_view P w"
  "log_view P (snd (list_running_vms E w)) = log_view P w"
  "log_view P (snd (find_vm_runtime_by_name E n w)) = log_view P w"
  using view_list [of E w]
  by (auto simp: pool_usage_def list_running_vms_def find_vm_runtime_by_name_def Let_def
      split: sum.splits prod.splits)

lemma view_command:
  assumes "logged_command E r i cmd w = (res, w')"
  shows "(log_view P w' = log_view P w \<or> log_view P w' = log_view P w @ filter P [Log_command i cmd])
    \<and> (\<forall>st. res = Inr st \<longrightarrow> log_view P w' = log_view P w @ filter P [Log_command i cmd])"
  using assms
  by (auto simp: logged_command_def send_command_def Let_def view_occupancy
      split: sum.splits prod.splits if_splits)

end

section \<open>Waits that were denied\<close>

interpretation denials: log_reader is_denied
  by unfold_locales simp_all

lemma denied_waits_view: "denied_waits w = length (log_view is_denied w)"
  by (simp add: denied_waits_def log_view_def)

lemma denied_frame [simp]:
  "denied_waits (await E w) = denied_waits w"
  "denied_waits (unlock w) = denied_waits w"
  "denied_waits (sleep_ms E ms w) = denied_waits w"
  by (simp_all add: denied_waits_view)

lemma denied_request [simp]:
  "denied_waits (snd (proxy_vm_request_with_content_type E i m path b ct w)) = denied_waits w"
  "denied_waits (snd (proxy_vm_request E i m path b w)) = denied_waits w"
  by (simp_all add: denied_waits_view log_view_request proxy_vm_request_def)

lemma denied_readers [simp]:
  "denied_waits (snd (get_vm_slot_status E i w)) = denied_waits w"
  "denied_waits (snd (list_vm_slots E w)) = denied_waits w"
  "denied_waits (snd (find_vm_slot_status_by_name E n w)) = denied_waits w"
  "denied_waits (snd (pool_usage E w)) = denied_waits w"
  "denied_waits (snd (list_running_vms E w)) = denied_waits w"
  "denied_waits (snd (find_vm_runtime_by_name E n w)) = denied_waits w"
  "denied_waits (log_pool_occupancy E r w) = denied_waits w"
  by (simp_all add: denied_waits_view denials.view_get denials.view_list denials.view_find
      denials.view_readers denials.view_occupancy)

lemma denied_command [simp]: "denied_waits (snd (logged_command E r i cmd w)) = denied_waits w"
  using denials.view_command [of E r i cmd w] by (cases "logged_command E r i cmd w") (auto simp: denied_waits_view)

lemma denied_allocate_loop: "denied_waits (snd (allocate_loop E name mac w)) = denied_waits w"
proof (induction E name mac w rule: allocate_loop.induct)
  case (1 E name mac w)
  obtain r w1 where l: "list_vm_slots E w = (r, w1)" by fastforce
  then have w1: "denied_waits w1 = denied_waits w" using denied_readers(2) [of E w] by simp
  have "denied_waits (pool_extend E 1 w1) = denied_waits w1"
    by (simp add: pool_extend_def) (simp add: denied_waits_def)
  with "1.IH" l w1 show ?case
    by (auto simp: allocate_loop.simps [of E name mac w] reserve_vm_slot_def
        split: sum.splits option.splits)
qed

lemma denied_allocate [simp]: "denied_waits (snd (allocate_vm_slot E name mac w)) = denied_waits w"
proof -
  obtain r w1 where f: "find_vm_slot_status_by_name E name w = (r, w1)" by fastforce
  then have "denied_waits w1 = denied_waits w" using denied_readers(3) [of E name w] by simp
  with f denied_allocate_loop show ?thesis
    by (auto simp: allocate_vm_slot_def split: sum.splits option.splits)
qed

text \<open>A wait is denied exactly when the autoscaler is first and starts to scale down.\<close>

lemma denied_lock:
  "denied_waits (lock_as l E w)
     = denied_waits w + (if pe_autoscales E (pw_step w)
         \<and> scaling_down (pw_clock (await E w)) (pw_pool (await E w)) then 1 else 0)"
  by (simp add: lock_as_def Let_def denied_waits_def log_entry_def await_def)

end
