(* ===== verification/ServiceLog.thy ===== *)
theory ServiceLog
  imports Service PoolLog
begin

text \<open>
  What the service does to the VMs, read off the log of the pool's world: the requests sent
  to VM sockets and the slot commands other than status queries.  Whatever other tasks do,
  a delete sends its calls in order and releases only after both were accepted, and only
  running VMs are ever sent a request by a control operation.
\<close>

section \<open>Events\<close>

fun is_event :: "log_entry \<Rightarrow> bool" where
  "is_event (Log_command i GetVmStatus) = False"
| "is_event (Log_command i cmd) = True"
| "is_event (Log_request i m path) = True"
| "is_event e = False"

definition events :: "pool_world \<Rightarrow> log_entry list" where
  "events w = filter is_event (pw_log w)"

text \<open>The same with the answers to the requests.\<close>

fun is_exchange :: "log_entry \<Rightarrow> bool" where
  "is_exchange (Log_answer i answer) = True"
| "is_exchange e = is_event e"

definition exchanges :: "pool_world \<Rightarrow> log_entry list" where
  "exchanges w = filter is_exchange (pw_log w)"

lemma events_view: "events w = log_view is_event w" and exchanges_view: "exchanges w = log_view is_exchange w"
  by (simp_all add: events_def exchanges_def log_view_def)

interpretation ev: log_reader is_event
  by unfold_locales simp_all

interpretation ex: log_reader is_exchange
  by unfold_locales simp_all

lemma events_lock [simp]: "events (lock_as l E w) = events w"
  using log_view_lock [of is_event l E w] by (simp add: events_view)

lemma exchanges_lock [simp]: "exchanges (lock_as l E w) = exchanges w"
  using log_view_lock [of is_exchange l E w] by (simp add: exchanges_view)

lemma events_unlock [simp]: "events (unlock w) = events w" "exchanges (unlock w) = exchanges w"
  by (simp_all add: events_view exchanges_view)

lemma events_find [simp]:
  "events (snd (find_vm_slot_status_by_name E n w)) = events w"
  "exchanges (snd (find_vm_slot_status_by_name E n w)) = exchanges w"
  by (simp_all add: events_view exchanges_view ev.view_find ex.view_find)

lemma events_request_ct [simp]:
  "events (snd (proxy_vm_request_with_content_type E i m path b ct w)) = events w @ [Log_request i m path]"
  by (simp add: events_view log_view_request)

lemma exchanges_request:
  "proxy_vm_request_with_content_type E i m path b ct w = (r, w') \<Longrightarrow>
   exchanges w' = exchanges w @ [Log_request i m path, Log_answer i r]"
  using log_view_request [of is_exchange E i m path b ct w] by (simp add: exchanges_view)

lemma events_request [simp]:
  "events (snd (proxy_vm_request E i m path b w)) = events w @ [Log_request i m path]"
  by (simp add: proxy_vm_request_def)

section \<open>Looking a running VM up\<close>

text \<open>The status a look-up by name read, under the read lock, of an occupied slot.\<close>

definition found_running :: "pool_env \<Rightarrow> string \<Rightarrow> pool_world \<Rightarrow> slot_status \<Rightarrow> bool" where
  "found_running E name w st =
     (fst (find_vm_slot_status_by_name E name (lock_as Read_held E w)) = Inr (Some st)
      \<and> ss_state st = Occupied \<and> ss_name st = Some name)"

lemma find_name:
  "find_vm_slot_status_by_name E name w = (Inr (Some st), w') \<Longrightarrow> ss_name st = Some name"
  by (auto simp: find_vm_slot_status_by_name_def dest: find_SomeD split: sum.splits prod.splits)

lemma running_slot_events:
  assumes "running_slot (process_pool_facade E) name (lock_as Read_held E w) = (r, w1)"
  shows "events w1 = events w \<and> exchanges w1 = exchanges w
    \<and> (\<forall>st. r = Inr st \<longrightarrow> found_running E name w st)"
proof -
  obtain s w2 where f: "find_vm_slot_status_by_name E name (lock_as Read_held E w) = (s, w2)"
    by fastforce
  then have "events w2 = events w" "exchanges w2 = exchanges w"
    using events_find [of E name "lock_as Read_held E w"] by simp_all
  with assms f find_name show ?thesis
    by (auto simp: running_slot_def found_running_def split: sum.splits option.splits if_splits)
qed

lemma cleanup_exchanges:
  "exchanges (cleanup_reserved_vm (process_pool_facade E) (pool_service_env E H) i w)
     \<in> {exchanges w, exchanges w @ [Log_command i ResetVm]}"
proof -
  obtain r w1 where l: "logged_command E ''reset_vm_slot'' i ResetVm (lock_as Read_held E w) = (r, w1)"
    by fastforce
  from ex.view_command [OF this] l exchanges_lock [of Read_held E w] show ?thesis
    by (auto simp: cleanup_reserved_vm_def reset_vm_slot_def exchanges_view)
qed

section \<open>Deleting\<close>

definition Shutdown_call :: "nat \<Rightarrow> log_entry" where
  "Shutdown_call i = Log_request i Method_PUT ''/api/v1/vm.shutdown''"

definition Delete_call :: "nat \<Rightarrow> log_entry" where
  "Delete_call i = Log_request i Method_PUT ''/api/v1/vm.delete''"

text \<open>An answer that lets the deletion go on, and one that makes it reset the slot.\<close>

definition accepted :: "pool_error + proxy_response \<Rightarrow> bool" where
  "accepted a = (\<exists>resp. a = Inr resp \<and> \<not> 400 \<le> pr_status resp)"

definition refused :: "pool_error + proxy_response \<Rightarrow> bool" where
  "refused a = (\<exists>resp. a = Inr resp \<and> 400 \<le> pr_status resp)"

text \<open>
  What a deletion may do, in order: at any point the rest can be missing only for the reason
  given.  A command is in the log when the slot's worker has handled it.
\<close>

inductive step_ends :: "nat \<Rightarrow> pool_error + proxy_response \<Rightarrow> log_entry list \<Rightarrow> bool" for i a where
  undelivered: "a = Inl err \<Longrightarrow> step_ends i a []"
| reset: "refused a \<Longrightarrow> step_ends i a [Log_command i ResetVm]"
| reset_lost: "refused a \<Longrightarrow> step_ends i a []"

inductive delete_trace :: "nat \<Rightarrow> log_entry list \<Rightarrow> bool" for i where
  nothing: "delete_trace i []"
| no_shutdown: "step_ends i a es \<Longrightarrow> delete_trace i (Shutdown_call i # Log_answer i a # es)"
| no_delete: "accepted a \<Longrightarrow> step_ends i b es \<Longrightarrow>
    delete_trace i (Shutdown_call i # Log_answer i a # Delete_call i # Log_answer i b # es)"
| release_lost: "accepted a \<Longrightarrow> accepted b \<Longrightarrow>
    delete_trace i [Shutdown_call i, Log_answer i a, Delete_call i, Log_answer i b]"
| complete: "accepted a \<Longrightarrow> accepted b \<Longrightarrow>
    delete_trace i [Shutdown_call i, Log_answer i a, Delete_call i, Log_answer i b, Log_command i ReleaseVm]"

text \<open>A step that is not accepted is the end of the deletion.\<close>

lemma failed_step:
  assumes "\<not> accepted a"
    and "\<And>err. a = Inl err \<Longrightarrow> w' = unlock w"
    and "\<And>resp. a = Inr resp \<Longrightarrow>
      w' = cleanup_reserved_vm (process_pool_facade E) (pool_service_env E H) i (unlock w)"
  shows "\<exists>es. exchanges w' = exchanges w @ es \<and> step_ends i a es"
proof (cases a)
  case (Inl e)
  with assms(2) show ?thesis by (auto intro: step_ends.undelivered)
next
  case (Inr resp)
  with assms(1) have r: "refused a" by (auto simp: accepted_def refused_def)
  from assms(3) [OF Inr] cleanup_exchanges [of E H i "unlock w"] r show ?thesis
    by (auto intro: step_ends.intros)
qed

lemma delete_stopped_exchanges:
  assumes "delete_stopped (process_pool_facade E) (pool_service_env E H) i w = (r, w')"
  shows "\<exists>b es. exchanges w' = exchanges w @ Delete_call i # Log_answer i b # es
    \<and> (step_ends i b es \<and> r \<noteq> Inr () \<or> accepted b \<and> es \<in> {[], [Log_command i ReleaseVm]}
         \<and> (r = Inr () \<longrightarrow> es = [Log_command i ReleaseVm]))"
proof -
  obtain b w1 where rq: "proxy_vm_request_with_content_type E i Method_PUT ''/api/v1/vm.delete'' [] None w = (b, w1)"
    by fastforce
  have e1: "exchanges w1 = exchanges w @ [Delete_call i, Log_answer i b]"
    using exchanges_request [OF rq] by (simp add: Delete_call_def)
  obtain s w2 where rl: "logged_command E ''release_vm_slot'' i ReleaseVm w1 = (s, w2)" by fastforce
  show ?thesis
  proof (cases "accepted b")
    case False
    have "r \<noteq> Inr ()" using assms rq False
      by (auto simp: delete_stopped_def accepted_def split: sum.splits if_splits)
    moreover have "\<exists>es. exchanges w' = exchanges w1 @ es \<and> step_ends i b es"
      by (rule failed_step [OF False])
        (use assms rq False in \<open>auto simp: delete_stopped_def accepted_def\<close>)
    ultimately show ?thesis using e1 by auto
  next
    case True
    with assms rq rl have "w' = unlock w2" "r = Inr () \<Longrightarrow> \<exists>st. s = Inr st"
      by (auto simp: delete_stopped_def release_vm_slot_def accepted_def split: sum.splits)
    with True ex.view_command [OF rl] e1 show ?thesis
      by (auto simp: exchanges_view)
  qed
qed


section \<open>Control calls\<close>

text \<open>
  C18: A control call reaches only a running VM.  A pause, resume, snapshot or any other
  action sends at most one request, a PUT with the action's path, and an information call
  at most one GET, and only to the slot that was read as occupied under the VM's name;
  otherwise nothing is sent, and nothing else is done to any slot.
\<close>

theorem control_calls_reach_running_vms:
  "(events (snd (proxy_action E H name path body w)) = events w
    \<or> (\<exists>st. found_running E name w st
         \<and> events (snd (proxy_action E H name path body w))
             = events w @ [Log_request (ss_slot st) Method_PUT path]))
   \<and> (events (snd (proxy_passthrough E H name path w)) = events w
    \<or> (\<exists>st. found_running E name w st
         \<and> events (snd (proxy_passthrough E H name path w))
             = events w @ [Log_request (ss_slot st) Method_GET path]))"
proof -
  obtain s w1 where f: "running_slot (process_pool_facade E) name (lock_as Read_held E w) = (s, w1)"
    by fastforce
  note look = running_slot_events [OF f]
  have ct: "events w2 = events w @ [Log_request i m pa]"
    if "proxy_vm_request_with_content_type E i m pa b c w1 = (q, w2)" for i m pa b c q w2
    using events_request_ct [of E i m pa b c w1] that look by simp
  have "events (snd (proxy_action E H name path body w)) = events w
    \<or> (\<exists>st. found_running E name w st
         \<and> events (snd (proxy_action E H name path body w))
             = events w @ [Log_request (ss_slot st) Method_PUT path])"
    using f look
    by (auto simp: proxy_action_def proxy_action_by_name_with_body_for_pool_def
        split: sum.splits prod.splits dest: ct)
  moreover have "events (snd (proxy_passthrough E H name path w)) = events w
    \<or> (\<exists>st. found_running E name w st
         \<and> events (snd (proxy_passthrough E H name path w))
             = events w @ [Log_request (ss_slot st) Method_GET path])"
    using f look ct
    by (auto simp: proxy_passthrough_def proxy_passthrough_by_name_for_pool_def proxy_vm_request_def
        split: sum.splits prod.splits)
  ultimately show ?thesis by blast
qed

end
