(* ===== verification/ServiceQuiet.thy ===== *)
theory ServiceQuiet
  imports ServiceLog
begin

text \<open>
  What the service does when no other task interferes: every operation is then a function
  of the pool alone, with no awaits, clock or locks in it.  \<open>create_spec\<close> and
  \<open>delete_spec\<close> are these functions; the theorems show that the detailed operations,
  awaits and all, implement them.
\<close>

section \<open>Single commands without interference\<close>

text \<open>One answer of each kind, whenever it is asked for.\<close>

record calm_host =
  ch_os :: cmd_os
  ch_transport :: transport
  ch_connect :: "string \<Rightarrow> bool"
  ch_now :: string
  ch_sha256 :: "string \<Rightarrow> u8 list"
  ch_to_vec :: "json \<Rightarrow> string + string"

definition calm_setting :: "calm_host \<Rightarrow> pool_env \<Rightarrow> host_services \<Rightarrow> bool" where
  "calm_setting C E H =
     (quiet_env E \<and> pe_cmd_os E = (\<lambda>_. ch_os C) \<and> pe_transport E = (\<lambda>_. ch_transport C)
      \<and> hs_connect H = (\<lambda>_. ch_connect C) \<and> hs_now H = (\<lambda>_. ch_now C)
      \<and> hs_sha256 H = ch_sha256 C \<and> hs_to_vec H = ch_to_vec C)"

lemma calm_settingD:
  assumes "calm_setting C E H"
  shows "quiet_env E" and "pe_cmd_os E = (\<lambda>_. ch_os C)" and "pe_transport E t = ch_transport C"
    and "hs_connect H t path = ch_connect C path" and "hs_now H t = ch_now C"
    and "hs_sha256 H = ch_sha256 C" and "hs_to_vec H = ch_to_vec C"
  using assms by (simp_all add: calm_setting_def)

definition command_spec ::
  "cmd_os \<Rightarrow> nat \<Rightarrow> slot_command \<Rightarrow> process_pool \<Rightarrow> (pool_error + slot_status) \<times> process_pool" where
  "command_spec os i cmd p =
     (case handle_command os (h_bridge (pp_slots p ! i)) cmd (slot_rt p i) of
        (r, rt') \<Rightarrow> (r, on_slot i (\<lambda>_. rt') p))"

text \<open>An operation on the world that acts as a function on the pool.\<close>

definition acts_as :: "'a \<times> pool_world \<Rightarrow> 'a \<times> process_pool \<Rightarrow> bool" where
  "acts_as res spec = (fst res = fst spec \<and> pw_pool (snd res) = snd spec)"

lemma acts_asD: "acts_as res spec \<Longrightarrow> fst res = fst spec \<and> pw_pool (snd res) = snd spec"
  by (simp add: acts_as_def)

lemma acts_as_pair: "acts_as (r, w) (s, p) \<longleftrightarrow> r = s \<and> pw_pool w = p"
  by (simp add: acts_as_def)

lemma all_alive_command: "all_alive p \<Longrightarrow> all_alive (snd (command_spec os i cmd p))"
  by (simp add: command_spec_def all_alive_on_slot split: prod.split)

lemma pool_lock_quiet: "quiet_env E \<Longrightarrow> pw_pool (lock_as l E w) = pw_pool w"
  by (simp add: await_quiet)

lemma logged_quiet:
  assumes "calm_setting C E H" and "all_alive (pw_pool w)" and "i < length (pp_slots (pw_pool w))"
  shows "acts_as (logged_command E r i cmd w) (command_spec (ch_os C) i cmd (pw_pool w))"
proof -
  note q = calm_settingD [OF assms(1)]
  have al: "h_alive (pp_slots (pw_pool w) ! i)"
    using assms(2,3) by (simp add: all_alive_def list_all_length)
  obtain a rt where h: "handle_command (ch_os C) (h_bridge (pp_slots (pw_pool w) ! i)) cmd
      (slot_rt (pw_pool w) i) = (a, rt)" by fastforce
  obtain w1 where s: "send_command E i cmd w = (a, w1)"
    and p1: "pw_pool w1 = on_slot i (\<lambda>_. rt) (pw_pool w)"
    using al assms(3) h await_quiet [OF q(1), of w] q(2)
    by (simp add: send_command_def Let_def log_entry_def)
  have "pw_pool (log_pool_occupancy E r w1) = on_slot i (\<lambda>_. rt) (pw_pool w)"
    using log_quiet [OF q(1), of w1 r] p1 assms(2) by (simp add: all_alive_on_slot)
  with s h p1 show ?thesis
    by (auto simp: logged_command_def command_spec_def acts_as_def split: sum.split)
qed

definition send_spec ::
  "calm_host \<Rightarrow> nat \<Rightarrow> http_method \<Rightarrow> string \<Rightarrow> string \<Rightarrow> string option \<Rightarrow> process_pool
     \<Rightarrow> api_error + proxy_response" where
  "send_spec C i m path body ct p =
     map_err ApiBackend (send_unix_http_request (ch_transport C) (vm_socket_path i p) m path body ct)"

lemma request_quiet:
  assumes "calm_setting C E H"
  shows "acts_as (proxy_vm_request_with_content_type E i m path b ct w)
    (map_err Backend (send_unix_http_request (ch_transport C) (vm_socket_path i (pw_pool w)) m path b ct),
     pw_pool w)"
  using calm_settingD(3) [OF assms] await_quiet [OF calm_settingD(1) [OF assms], of w]
  by (simp add: acts_as_def proxy_vm_request_with_content_type_def Let_def log_entry_def)

lemma find_quiet:
  assumes "quiet_env E" and "all_alive (pw_pool w)"
  shows "acts_as (find_vm_slot_status_by_name E name w)
    (Inr (map_option (slot_st (pw_pool w))
       (find (\<lambda>i. ss_name (slot_st (pw_pool w) i) = Some name) [0..<length (pp_slots (pw_pool w))])),
     pw_pool w)"
  using list_quiet [OF assms]
  by (auto simp: find_vm_slot_status_by_name_def acts_as_def find_map comp_def)

section \<open>Waiting\<close>

definition slot_ready :: "calm_host \<Rightarrow> nat \<Rightarrow> process_pool \<Rightarrow> bool" where
  "slot_ready C i p = (ss_pid (slot_st p i) \<noteq> None \<and> ch_connect C (vm_socket_path i p))"

definition not_ready :: "nat \<Rightarrow> api_error" where
  "not_ready i = ApiBackend (''slot '' @ show_nat i @ '' did not become ready'')"

lemma wait_quiet:
  assumes C: "calm_setting C E H" and "all_alive (pw_pool w)" and "i < length (pp_slots (pw_pool w))"
  shows "\<exists>y. wait_loop (process_pool_facade E) (pool_service_env E H) i start w = Some y
    \<and> acts_as y (if slot_ready C i (pw_pool w) then Inr () else Inl (not_ready i), pw_pool w)"
  using assms(2,3)
proof (induction "start + ready_deadline_ms - pw_clock w" arbitrary: w rule: less_induct)
  case less
  let ?F = "process_pool_facade E" and ?R = "pool_service_env E H" and ?p = "pw_pool w"
  note q = calm_settingD [OF C]
  obtain w1 where g: "get_vm_slot_status E i (lock_as Read_held E w) = (Inr (slot_st ?p i), w1)"
    and p1: "pw_pool w1 = ?p"
    using get_status_quiet [OF q(1), of "lock_as Read_held E w" i] less.prems pool_lock_quiet [OF q(1)]
    by auto
  have "pw_clock (lock_as Read_held E w) \<le> pw_clock w1"
    using send_command_clock [of "lock_as Read_held E w" E i GetVmStatus] g
    by (simp add: get_vm_slot_status_def)
  then have c1: "pw_clock w \<le> pw_clock w1" using await_clock [of w E] by simp
  let ?a = "try_connect ?R (vm_socket_path i ?p) (slot_st ?p i) (unlock w1)"
  have fa: "fst ?a = slot_ready C i ?p"
    by (simp add: try_connect_def slot_ready_def q)
  have pa: "pw_pool (snd ?a) = ?p"
    using p1 await_quiet [OF q(1)] by (simp add: try_connect_def)
  have ca: "pw_clock w \<le> pw_clock (snd ?a)"
    using c1 await_clock [of "unlock w1" E] by (simp add: try_connect_def)
  have step: "wait_loop ?F ?R i start w =
      (if fst ?a then Some (Inr (), snd ?a)
       else if ready_deadline_ms \<le> pw_clock (snd ?a) - start then Some (Inl (not_ready i), snd ?a)
       else wait_loop ?F ?R i start (sleep_ms E ready_poll_ms (snd ?a)))"
    using g p1 by (simp add: wait_loop.simps [of ?F ?R i start w] not_ready_def Let_def)
  show ?case
  proof (cases "fst ?a \<or> ready_deadline_ms \<le> pw_clock (snd ?a) - start")
    case True
    with step fa pa show ?thesis by (auto simp: acts_as_def)
  next
    case False
    let ?w3 = "sleep_ms E ready_poll_ms (snd ?a)"
    have p3: "pw_pool ?w3 = ?p" using await_quiet [OF q(1)] pa by simp
    have "pw_clock (snd ?a) + ready_poll_ms \<le> pw_clock ?w3" by (simp add: sleep_ms_def)
    with ca False have "start + ready_deadline_ms - pw_clock ?w3 < start + ready_deadline_ms - pw_clock w"
      by (simp add: ready_poll_ms_def ready_deadline_ms_def not_le) linarith
    from less.hyps [OF this] p3 less.prems obtain y
      where "wait_loop ?F ?R i start ?w3 = Some y"
        "acts_as y (if slot_ready C i ?p then Inr () else Inl (not_ready i), ?p)" by auto
    with step False show ?thesis by auto
  qed
qed

section \<open>Creating\<close>

definition finish_spec ::
  "calm_host \<Rightarrow> nat \<Rightarrow> process_pool \<Rightarrow> (api_error + vm_runtime) \<times> process_pool" where
  "finish_spec C i p =
     (if \<not> slot_ready C i p then (Inl (not_ready i), p)
      else
        (case command_spec (ch_os C) i (MarkVmBooted (ch_now C)) p of
           (Inl err, p1) \<Rightarrow> (Inl (api_error_from err), p1)
         | (Inr st, p1) \<Rightarrow> (map_err api_error_from (try_into_runtime st), p1)))"

text \<open>A request whose refusal resets the slot.\<close>

definition checked_spec ::
  "calm_host \<Rightarrow> nat \<Rightarrow> api_error + proxy_response \<Rightarrow> process_pool
     \<Rightarrow> (api_error + 'a) \<times> process_pool \<Rightarrow> (api_error + 'a) \<times> process_pool" where
  "checked_spec C i answer p next =
     (case answer of
        Inl err \<Rightarrow> (Inl err, p)
      | Inr response \<Rightarrow>
          if 400 \<le> pr_status response
          then (Inl (ApiBackend (format_backend_error response)),
                snd (command_spec (ch_os C) i ResetVm p))
          else next)"

definition boot_spec ::
  "calm_host \<Rightarrow> boot_config \<Rightarrow> nat \<Rightarrow> process_pool \<Rightarrow> (api_error + vm_runtime) \<times> process_pool" where
  "boot_spec C c i p =
     (if bc_snapshot_path c = None
      then checked_spec C i (send_spec C i Method_PUT ''/api/v1/vm.boot'' [] None p) p (finish_spec C i p)
      else finish_spec C i p)"

definition request_spec ::
  "calm_host \<Rightarrow> boot_config \<Rightarrow> slot_status \<Rightarrow> process_pool \<Rightarrow> (api_error + vm_runtime) \<times> process_pool" where
  "request_spec C c st p =
     (case ch_to_vec C (create_body c st) of
        Inl err \<Rightarrow> (Inl (ApiBackend err), p)
      | Inr body \<Rightarrow>
          checked_spec C (ss_slot st)
            (send_spec C (ss_slot st) Method_PUT (create_path c) body (Some ''application/json'') p) p
            (boot_spec C c (ss_slot st) p))"

definition create_spec ::
  "calm_host \<Rightarrow> boot_config \<Rightarrow> process_pool \<Rightarrow> (api_error + vm_runtime) \<times> process_pool" where
  "create_spec C c p =
     (case validate_boot_config c of
        Inl err \<Rightarrow> (Inl err, p)
      | Inr _ \<Rightarrow>
          (case allocate_spec (co_tap (ch_os C)) (bc_name c) (mac_for_name (ch_sha256 C) (bc_name c)) p of
             (Inl err, p1) \<Rightarrow> (Inl (api_error_from err), p1)
           | (Inr st, p1) \<Rightarrow>
               if \<not> slot_ready C (ss_slot st) p1 then (Inl (not_ready (ss_slot st)), p1)
               else request_spec C c st p1))"

lemma cleanup_quiet:
  assumes "calm_setting C E H" and "all_alive (pw_pool w)" and "i < length (pp_slots (pw_pool w))"
  shows "pw_pool (cleanup_reserved_vm (process_pool_facade E) (pool_service_env E H) i w)
    = snd (command_spec (ch_os C) i ResetVm (pw_pool w))"
  using logged_quiet [OF assms(1), of "lock_as Read_held E w" i "''reset_vm_slot''" ResetVm] assms
    pool_lock_quiet [OF calm_settingD(1) [OF assms(1)]]
  by (simp add: cleanup_reserved_vm_def reset_vm_slot_def acts_as_def)

lemma finish_quiet:
  assumes "calm_setting C E H" and "all_alive (pw_pool w)" and "i < length (pp_slots (pw_pool w))"
  shows "\<exists>y. finish_create (process_pool_facade E) (pool_service_env E H) i (ch_now C) w = Some y
    \<and> acts_as y (finish_spec C i (pw_pool w))"
proof -
  let ?F = "process_pool_facade E" and ?R = "pool_service_env E H" and ?p = "pw_pool w"
  obtain s w1 where wt: "wait_loop ?F ?R i (pw_clock w) w = Some (s, w1)"
    and s: "s = (if slot_ready C i ?p then Inr () else Inl (not_ready i))" and p1: "pw_pool w1 = ?p"
    using wait_quiet [OF assms, of "pw_clock w"] by (auto simp: acts_as_def)
  have lk: "pw_pool (lock_as Read_held E w1) = ?p"
    using pool_lock_quiet [OF calm_settingD(1) [OF assms(1)]] p1 by simp
  obtain a w2 where m: "mark_vm_slot_booted E i (ch_now C) (lock_as Read_held E w1) = (a, w2)"
    by fastforce
  then have "acts_as (a, w2) (command_spec (ch_os C) i (MarkVmBooted (ch_now C)) ?p)"
    using logged_quiet [OF assms(1), of "lock_as Read_held E w1" i] lk assms(2,3)
    unfolding mark_vm_slot_booted_def by metis
  with wt s m p1 show ?thesis
    by (cases a)
      (auto simp: finish_create_def wait_for_slot_ready_def finish_spec_def acts_as_def
        split: prod.splits sum.splits)
qed


lemma checked_quiet:
  assumes C: "calm_setting C E H" "all_alive (pw_pool w)" "i < length (pp_slots (pw_pool w))"
    and rq: "proxy_vm_request_with_content_type E i m path b ct w = (q, w1)"
    and p: "pw_pool w = p"
  shows "pw_pool w1 = p" and "q = Inl err \<Longrightarrow> checked_spec C i (send_spec C i m path b ct p) p nxt
      = (Inl (api_error_from err), p)"
    and "q = Inr resp \<Longrightarrow> checked_spec C i (send_spec C i m path b ct p) p nxt
      = (if 400 \<le> pr_status resp
         then (Inl (ApiBackend (format_backend_error resp)),
               pw_pool (cleanup_reserved_vm (process_pool_facade E) (pool_service_env E H) i (unlock w1)))
         else nxt)"
proof -
  have a: "q = map_err Backend (send_unix_http_request (ch_transport C) (vm_socket_path i p) m path b ct)"
    and p1: "pw_pool w1 = p"
    using request_quiet [OF C(1), of i m path b ct w] rq p by (simp_all add: acts_as_pair)
  show "pw_pool w1 = p" by (rule p1)
  show "q = Inl err \<Longrightarrow> checked_spec C i (send_spec C i m path b ct p) p nxt = (Inl (api_error_from err), p)"
    using a by (auto simp: checked_spec_def send_spec_def map_err_eq_Inl_iff)
  show "q = Inr resp \<Longrightarrow> checked_spec C i (send_spec C i m path b ct p) p nxt
      = (if 400 \<le> pr_status resp
         then (Inl (ApiBackend (format_backend_error resp)),
               pw_pool (cleanup_reserved_vm (process_pool_facade E) (pool_service_env E H) i (unlock w1)))
         else nxt)"
    using a cleanup_quiet [OF C(1), of "unlock w1" i] C(2,3) p p1
    by (auto simp: checked_spec_def send_spec_def)
qed

lemma boot_quiet:
  assumes C: "calm_setting C E H" "all_alive (pw_pool w)" "i < length (pp_slots (pw_pool w))"
  shows "\<exists>y. boot_created (process_pool_facade E) (pool_service_env E H) c i (ch_now C) w = Some y
    \<and> acts_as y (boot_spec C c i (pw_pool w))"
proof (cases "bc_snapshot_path c = None")
  case False
  then obtain snapshot where "bc_snapshot_path c = Some snapshot" by blast
  with finish_quiet [OF C(1), of "unlock w" i] C(2,3) show ?thesis
    by (simp add: boot_created_def boot_spec_def)
next
  case True
  obtain q w1 where rq: "proxy_vm_request_with_content_type E i Method_PUT ''/api/v1/vm.boot'' [] None w = (q, w1)"
    by fastforce
  note ck = checked_quiet [OF C rq refl]
  show ?thesis
  proof (cases q)
    case (Inl err)
    with True rq ck(1) ck(2) [OF Inl, of "finish_spec C i (pw_pool w)"] show ?thesis by (simp add: boot_created_def boot_spec_def acts_as_pair)
  next
    case (Inr resp)
    with True rq ck(1) ck(3) [OF Inr, of "finish_spec C i (pw_pool w)"] finish_quiet [OF C(1), of "unlock w1" i] C(2,3) show ?thesis
      by (auto simp: boot_created_def boot_spec_def acts_as_def)
  qed
qed

lemma create_on_slot_quiet:
  assumes C: "calm_setting C E H" "all_alive (pw_pool w)" "ss_slot st < length (pp_slots (pw_pool w))"
  shows "\<exists>y. create_on_slot (process_pool_facade E) (pool_service_env E H) c st w = Some y
    \<and> acts_as y (request_spec C c st (pw_pool w))"
proof (cases "ch_to_vec C (create_body c st)")
  case (Inl err)
  then show ?thesis
    using calm_settingD(7) [OF C(1)] by (simp add: create_on_slot_def request_spec_def acts_as_def Let_def)
next
  case (Inr b)
  let ?i = "ss_slot st" and ?l = "lock_as Read_held E w"
  have lp: "pw_pool ?l = pw_pool w" using pool_lock_quiet [OF calm_settingD(1) [OF C(1)]] .
  obtain q w1 where rq: "proxy_vm_request_with_content_type E ?i Method_PUT (create_path c) b
      (Some ''application/json'') ?l = (q, w1)" by fastforce
  note ck = checked_quiet [OF C(1) _ _ rq lp, unfolded lp, OF C(2,3)]
  show ?thesis
  proof (cases q)
    case (Inl err)
    with Inr rq ck(1) ck(2) [OF Inl, of "boot_spec C c ?i (pw_pool w)"] calm_settingD(5,7) [OF C(1)] show ?thesis
      by (simp add: create_on_slot_def request_spec_def acts_as_pair Let_def)
  next
    case q: (Inr resp)
    with Inr rq ck(1) ck(3) [OF q, of "boot_spec C c ?i (pw_pool w)"] boot_quiet [OF C(1), of w1 ?i c] C(2,3) calm_settingD(5,7) [OF C(1)]
    show ?thesis
      by (simp add: create_on_slot_def request_spec_def acts_as_pair Let_def)
  qed
qed

definition slot_of_name :: "string \<Rightarrow> process_pool \<Rightarrow> nat option" where
  "slot_of_name name p = find (\<lambda>i. ss_name (slot_st p i) = Some name) [0..<length (pp_slots p)]"

lemma slot_of_name_Some:
  "slot_of_name name p = Some i \<Longrightarrow> i < length (pp_slots p) \<and> ss_name (slot_st p i) = Some name"
  by (auto simp: slot_of_name_def dest: find_SomeD)

lemma slot_of_name_None: "slot_of_name name p = None \<longleftrightarrow> \<not> name_used name p"
  by (auto simp: slot_of_name_def find_None_iff_all name_used_iff)

lemma slot_of_name_sole:
  assumes "i < length (pp_slots p)" and "ss_name (slot_st p i) = Some name"
    and "\<forall>j < length (pp_slots p). j \<noteq> i \<longrightarrow> ss_name (slot_st p j) \<noteq> Some name"
  shows "slot_of_name name p = Some i"
proof -
  have "slot_of_name name p \<noteq> None"
    using assms(1,2) by (auto simp: slot_of_name_None name_used_iff)
  then obtain j where j: "slot_of_name name p = Some j" by blast
  with slot_of_name_Some [OF j] assms(3) have "j = i" by blast
  with j show ?thesis by simp
qed

lemma reserve_spec_Inr:
  assumes "reserve_spec os i name mac p = (Inr st, p1)" and "i < length (pp_slots p)"
    and "all_alive p" and "numbered p"
  shows "all_alive p1 \<and> numbered p1 \<and> ss_slot st = i \<and> i < length (pp_slots p1) \<and> slot_st p1 i = st
    \<and> reserved_for name mac st \<and> ss_pid st = ss_pid (slot_st p i)
    \<and> (\<not> name_used name p \<longrightarrow>
         (\<forall>j < length (pp_slots p1). j \<noteq> i \<longrightarrow> ss_name (slot_st p1 j) \<noteq> Some name))
    \<and> (\<forall>j < length (pp_slots p). j \<noteq> i \<longrightarrow> slot_st p1 j = slot_st p j)
    \<and> length (pp_slots p1) = length (pp_slots p) \<and> pp_vm_path p1 = pp_vm_path p"
proof -
  let ?st = "reserve_status name mac (tap_name i) (slot_st p i)"
  from assms(1) have st: "st = ?st"
    and p1: "p1 = on_slot i (\<lambda>rt. log_os [Os_tap (tap_name i)] (rt\<lparr>rt_status := ?st\<rparr>)) p"
    by (auto simp: reserve_spec_def Let_def split: sum.splits)
  have al: "h_alive (pp_slots p ! i)" using assms(2,3) by (simp add: all_alive_def list_all_length)
  have slot: "ss_slot ?st = i" using assms(2,4) by (simp add: numbered_def reserve_status_def)
  have s: "slot_st p1 j = (if j = i then ?st else slot_st p j)" if "j < length (pp_slots p)" for j
    using that al by (simp add: p1 slot_st_def slot_rt_on_slot log_os_def)
  have "all_alive p1" using assms(3) by (simp add: p1 all_alive_on_slot)
  moreover have "numbered p1" using assms(4) s slot by (simp add: numbered_def p1)
  moreover have "reserved_for name mac ?st"
    using slot by (simp add: reserved_for_def) (simp add: reserve_status_def)
  moreover have "\<not> name_used name p \<longrightarrow>
      (\<forall>j < length (pp_slots p1). j \<noteq> i \<longrightarrow> ss_name (slot_st p1 j) \<noteq> Some name)"
    using s by (simp add: name_used_iff p1)
  moreover have "ss_pid ?st = ss_pid (slot_st p i)" by (simp add: reserve_status_def)
  ultimately show ?thesis using st slot s assms(2) by (simp add: p1)
qed

lemma allocate_spec_Inr:
  assumes "allocate_spec os name mac p = (Inr st, p1)" and "all_alive p" and "numbered p"
  shows "all_alive p1 \<and> numbered p1 \<and> ss_slot st < length (pp_slots p1) \<and> slot_st p1 (ss_slot st) = st
    \<and> reserved_for name mac st \<and> \<not> name_used name p
    \<and> (\<forall>j < length (pp_slots p1). j \<noteq> ss_slot st \<longrightarrow> ss_name (slot_st p1 j) \<noteq> Some name)
    \<and> (\<forall>j < length (pp_slots p). j \<noteq> ss_slot st \<longrightarrow> slot_st p1 j = slot_st p j)
    \<and> (ss_slot st < length (pp_slots p) \<longrightarrow> ss_state (slot_st p (ss_slot st)) = Empty)
    \<and> length (pp_slots p) \<le> length (pp_slots p1)"
proof -
  from assms(1) have free: "\<not> name_used name p" by (auto simp: allocate_spec_def split: if_splits)
  show ?thesis
  proof (cases "empty_slot p")
    case (Some i)
    with assms(1) free have r: "reserve_spec os i name mac p = (Inr st, p1)"
      by (simp add: allocate_spec_def empty_slot_def)
    from reserve_spec_Inr [OF r _ assms(2,3)] empty_slot_Some [OF Some] free show ?thesis
      by (simp add: name_used_iff)
  next
    case None
    with assms(1) free
    have r: "reserve_spec os (length (pp_slots p)) name mac (extend_slots 1 p) = (Inr st, p1)"
      by (auto simp: allocate_spec_def empty_slot_def split: if_splits)
    from reserve_spec_Inr [OF r _ all_alive_extend [OF assms(2)] numbered_extend [OF assms(3)]] free
    show ?thesis
      by (simp add: name_used_extend slot_st_extend_old [unfolded One_nat_def])
        (simp add: name_used_iff less_Suc_eq)
  qed
qed

lemma create_quiet:
  assumes "calm_setting C E H" and "all_alive (pw_pool w)" and "numbered (pw_pool w)"
  shows "\<exists>r w'. create_vm E H c w = Some (r, w')
    \<and> r = fst (create_spec C c (pw_pool w)) \<and> pw_pool w' = snd (create_spec C c (pw_pool w))"
proof (cases "validate_boot_config c")
  case (Inl err)
  then show ?thesis by (simp add: create_vm_def create_vm_with_pool_def create_spec_def)
next
  case (Inr u)
  let ?F = "process_pool_facade E" and ?R = "pool_service_env E H" and ?p = "pw_pool w"
  let ?l = "lock_as Write_held E w" and ?mac = "mac_for_name (ch_sha256 C) (bc_name c)"
  note q = calm_settingD [OF assms(1)]
  have lp: "pw_pool ?l = ?p" using pool_lock_quiet [OF q(1)] .
  obtain a w1 where al: "allocate_vm_slot E (bc_name c) ?mac ?l = (a, w1)" by fastforce
  have a: "a = fst (allocate_spec (co_tap (ch_os C)) (bc_name c) ?mac ?p)"
    and p1: "pw_pool w1 = snd (allocate_spec (co_tap (ch_os C)) (bc_name c) ?mac ?p)"
    using allocate_quiet [OF q(1,2), of ?l "bc_name c" ?mac] al lp assms(2,3) by simp_all
  show ?thesis
  proof (cases a)
    case (Inl err)
    with Inr al a p1 q(6) show ?thesis
      by (auto simp: create_vm_def create_vm_with_pool_def create_spec_def split: prod.splits)
  next
    case st: (Inr st)
    with a p1 have sp: "allocate_spec (co_tap (ch_os C)) (bc_name c) ?mac ?p = (Inr st, pw_pool w1)"
      by (metis prod.collapse)
    note alloc = allocate_spec_Inr [OF sp assms(2,3)]
    have wt: "\<exists>y. wait_for_slot_ready ?F ?R (ss_slot st) (unlock w1) = Some y
        \<and> acts_as y (if slot_ready C (ss_slot st) (pw_pool w1) then Inr () else Inl (not_ready (ss_slot st)),
            pw_pool w1)"
      using wait_quiet [OF assms(1), of "unlock w1" "ss_slot st"] alloc
      by (simp add: wait_for_slot_ready_def)
    then obtain s w2 where wt: "wait_for_slot_ready ?F ?R (ss_slot st) (unlock w1) = Some (s, w2)"
      and s: "s = (if slot_ready C (ss_slot st) (pw_pool w1) then Inr () else Inl (not_ready (ss_slot st)))"
      and p2: "pw_pool w2 = pw_pool w1"
      by (auto simp: acts_as_def)
    obtain r w3 where cr: "create_on_slot ?F ?R c st w2 = Some (r, w3)"
      and sp3: "acts_as (r, w3) (request_spec C c st (pw_pool w1))"
      using create_on_slot_quiet [OF assms(1), of w2 st c] alloc p2 by auto
    with Inr st al wt s p2 sp q(6) cr show ?thesis
      using acts_asD [OF sp3]
      by (simp add: create_vm_def create_vm_with_pool_def create_spec_def)
  qed
qed

text \<open>
  C7: Creation without interference.  When no other task runs in between, \<open>create_vm\<close>, with
  all its awaits, locks and polling, returns and is exactly \<open>create_spec\<close> on the pool:
  validation first, then the allocation, then a ready slot or an error, the create or
  restore request, for a fresh VM the boot request, and last the change to occupied; a
  refused request resets the slot, while a slot that is not ready, a body that cannot be
  serialised or a request that cannot be delivered leaves it reserved.
\<close>

theorem create_vm_refines:
  assumes "calm_setting C E H" and "all_alive (pw_pool w)" and "numbered (pw_pool w)"
  shows "\<exists>r w'. create_vm E H c w = Some (r, w')
    \<and> r = fst (create_spec C c (pw_pool w)) \<and> pw_pool w' = snd (create_spec C c (pw_pool w))"
  using assms by (rule create_quiet)

section \<open>Deleting\<close>

text \<open>The slot of a running VM, or the error of a control call.\<close>

definition running_spec :: "string \<Rightarrow> process_pool \<Rightarrow> api_error + nat" where
  "running_spec name p =
     (case slot_of_name name p of
        None \<Rightarrow> Inl (NotFound (''VM '' @ quoted name @ '' not found''))
      | Some i \<Rightarrow>
          if ss_state (slot_st p i) \<noteq> Occupied
          then Inl (Conflict (''VM '' @ quoted name @ '' is not running''))
          else Inr i)"

lemma running_quiet:
  assumes "calm_setting C E H" and "all_alive (pw_pool w)" and "numbered (pw_pool w)"
  shows "\<exists>w1. running_slot (process_pool_facade E) name (lock_as Read_held E w)
      = (map_sum id (slot_st (pw_pool w)) (running_spec name (pw_pool w)), w1) \<and> pw_pool w1 = pw_pool w
    \<and> (\<forall>i. running_spec name (pw_pool w) = Inr i \<longrightarrow>
         i < length (pp_slots (pw_pool w)) \<and> ss_slot (slot_st (pw_pool w) i) = i)"
proof -
  note q = calm_settingD [OF assms(1)]
  have lp: "pw_pool (lock_as Read_held E w) = pw_pool w" using pool_lock_quiet [OF q(1)] .
  obtain w1 where f: "find_vm_slot_status_by_name E name (lock_as Read_held E w)
      = (Inr (map_option (slot_st (pw_pool w)) (slot_of_name name (pw_pool w))), w1)"
    and p1: "pw_pool w1 = pw_pool w"
    using find_quiet [OF q(1), of "lock_as Read_held E w" name] lp assms(2)
    by (auto simp: acts_as_def slot_of_name_def) (metis prod.collapse)
  show ?thesis
  proof (cases "slot_of_name name (pw_pool w)")
    case None
    with f p1 show ?thesis by (simp add: running_slot_def running_spec_def)
  next
    case (Some i)
    with f p1 slot_of_name_Some [OF Some] assms(3) show ?thesis
      by (auto simp: running_slot_def running_spec_def numbered_def)
  qed
qed

definition delete_spec ::
  "calm_host \<Rightarrow> string \<Rightarrow> process_pool \<Rightarrow> (api_error + unit) \<times> process_pool" where
  "delete_spec C name p =
     (case running_spec name p of
        Inl err \<Rightarrow> (Inl err, p)
      | Inr i \<Rightarrow>
          checked_spec C i (send_spec C i Method_PUT ''/api/v1/vm.shutdown'' [] None p) p
            (checked_spec C i (send_spec C i Method_PUT ''/api/v1/vm.delete'' [] None p) p
              (case command_spec (ch_os C) i ReleaseVm p of
                 (r, p1) \<Rightarrow> (map_sum api_error_from (\<lambda>_. ()) r, p1))))"

lemma delete_stopped_quiet:
  assumes C: "calm_setting C E H" "all_alive (pw_pool w)" "i < length (pp_slots (pw_pool w))"
  shows "acts_as (delete_stopped (process_pool_facade E) (pool_service_env E H) i w)
    (checked_spec C i (send_spec C i Method_PUT ''/api/v1/vm.delete'' [] None (pw_pool w)) (pw_pool w)
      (case command_spec (ch_os C) i ReleaseVm (pw_pool w) of
         (r, p1) \<Rightarrow> (map_sum api_error_from (\<lambda>_. ()) r, p1)))"
    (is "acts_as _ (checked_spec C i ?send ?p ?next)")
proof -
  obtain q w1 where rq: "proxy_vm_request_with_content_type E i Method_PUT ''/api/v1/vm.delete'' [] None w = (q, w1)"
    by fastforce
  note ck = checked_quiet [OF C rq refl]
  obtain a w2 where rl: "release_vm_slot E i w1 = (a, w2)" by fastforce
  then have "acts_as (a, w2) (command_spec (ch_os C) i ReleaseVm (pw_pool w))"
    using logged_quiet [OF C(1), of w1 i] ck(1) C(2,3) unfolding release_vm_slot_def by metis
  then have rel: "command_spec (ch_os C) i ReleaseVm (pw_pool w) = (a, pw_pool w2)"
    by (auto simp: acts_as_def intro: prod_eqI)
  show ?thesis
  proof (cases q)
    case (Inl err)
    with rq ck(1) ck(2) [OF Inl, of ?next] show ?thesis
      by (simp add: delete_stopped_def acts_as_pair)
  next
    case (Inr resp)
    with rq rl rel ck(1) ck(3) [OF Inr, of ?next] show ?thesis
      by (cases a) (auto simp: delete_stopped_def acts_as_def)
  qed
qed

lemma delete_quiet:
  assumes "calm_setting C E H" and "all_alive (pw_pool w)" and "numbered (pw_pool w)"
  shows "fst (delete_vm E H name w) = fst (delete_spec C name (pw_pool w))
    \<and> pw_pool (snd (delete_vm E H name w)) = snd (delete_spec C name (pw_pool w))"
proof -
  obtain w1 where f: "running_slot (process_pool_facade E) name (lock_as Read_held E w)
      = (map_sum id (slot_st (pw_pool w)) (running_spec name (pw_pool w)), w1)"
    and p1: "pw_pool w1 = pw_pool w"
    and num: "\<And>i. running_spec name (pw_pool w) = Inr i \<Longrightarrow>
        i < length (pp_slots (pw_pool w)) \<and> ss_slot (slot_st (pw_pool w) i) = i"
    using running_quiet [OF assms, of name] by blast
  show ?thesis
  proof (cases "running_spec name (pw_pool w)")
    case (Inl err)
    with f p1 show ?thesis by (simp add: delete_vm_def delete_vm_with_pool_def delete_spec_def)
  next
    case (Inr i)
    with num have i: "i < length (pp_slots (pw_pool w))" "ss_slot (slot_st (pw_pool w) i) = i" by auto
    obtain q w2 where rq: "proxy_vm_request_with_content_type E i Method_PUT ''/api/v1/vm.shutdown'' [] None w1 = (q, w2)"
      by fastforce
    let ?next = "checked_spec C i (send_spec C i Method_PUT ''/api/v1/vm.delete'' [] None (pw_pool w)) (pw_pool w)
        (case command_spec (ch_os C) i ReleaseVm (pw_pool w) of
           (r, p1) \<Rightarrow> (map_sum api_error_from (\<lambda>_. ()) r, p1))"
    note ck = checked_quiet [OF assms(1) _ _ rq p1, unfolded p1, OF assms(2) i(1)]
    have d: "acts_as (delete_stopped (process_pool_facade E) (pool_service_env E H) i w2) ?next"
      using delete_stopped_quiet [OF assms(1), of w2 i] ck(1) assms(2) i(1) by simp
    show ?thesis
    proof (cases q)
      case (Inl err)
      with Inr f i rq ck(1) ck(2) [OF Inl, of ?next] show ?thesis
        by (simp add: delete_vm_def delete_vm_with_pool_def delete_spec_def Let_def)
    next
      case q: (Inr resp)
      with Inr f i rq ck(1) ck(3) [OF q, of ?next] acts_asD [OF d] show ?thesis
        by (simp add: delete_vm_def delete_vm_with_pool_def delete_spec_def Let_def)
    qed
  qed
qed

text \<open>
  C8: Deletion without interference.  When no other task runs in between, \<open>delete_vm\<close> is
  exactly \<open>delete_spec\<close> on the pool: an unknown name is not found, a slot that is not
  occupied is a conflict, a refused shutdown or delete call resets the slot, an undelivered
  one leaves it as it was, and after both calls the slot is released.
\<close>

theorem delete_vm_refines:
  assumes "calm_setting C E H" and "all_alive (pw_pool w)" and "numbered (pw_pool w)"
  shows "fst (delete_vm E H name w) = fst (delete_spec C name (pw_pool w))
    \<and> pw_pool (snd (delete_vm E H name w)) = snd (delete_spec C name (pw_pool w))"
  using assms by (rule delete_quiet)

end
