(* ===== verification/ServiceProps.thy ===== *)
theory ServiceProps
  imports ServiceQuiet
begin

text \<open>
  What the service guarantees, and where it fails: every operation returns and keeps the
  pool's invariant, what a successful creation answers, that a deletion undoes a creation,
  the requests a failed creation leaves behind, and what a creation answers when its slot
  has changed hands.
\<close>

section \<open>Under every interleaving\<close>

text \<open>
  Creation always returns.  Whatever other tasks, the operating system and the VM do,
  \<open>create_vm\<close> comes back with a result: each of its two waits ends by its 5 s deadline.
\<close>

theorem create_vm_returns:
  "\<exists>r w'. create_vm E H c w = Some (r, w')"
  using svc_clock.create_returns [of E H c w] by (simp add: create_vm_def)

definition served :: "pool_world \<Rightarrow> pool_world \<Rightarrow> bool" where
  "served w w' =
     (pw_lock w' = Unlocked \<and> pool_steps (pw_pool w) (pw_pool w')
      \<and> (pool_ok (pw_pool w) \<longrightarrow> pool_ok (pw_pool w')))"

lemma served_reached: "reached (pw_pool w) Unlocked w' \<Longrightarrow> served w w'"
  using pool.J_steps by (auto simp: served_def reached_def)

lemma reached_refl: "pw_lock w = Unlocked \<Longrightarrow> reached (pw_pool w) Unlocked w"
  by (simp add: reached_def steps_refl)

text \<open>
  Every service operation keeps the pool.  Whatever the interleaving, creating,
  deleting, acting on and asking a VM only take steps of the pool's transition system, so
  they keep its invariant (unique names, well-formed slots, TAP names, size bounds), and
  each returns with the pool's lock given back, on success and on every error.
\<close>

theorem service_keeps_pool:
  assumes "pw_lock w = Unlocked"
  shows "(\<forall>r w'. create_vm E H c w = Some (r, w') \<longrightarrow> served w w')
    \<and> served w (snd (delete_vm E H name w))
    \<and> served w (snd (proxy_action E H name path body w))
    \<and> served w (snd (proxy_passthrough E H name path w))"
proof -
  note r = reached_refl [OF assms]
  have "\<forall>r w'. create_vm E H c w = Some (r, w') \<longrightarrow> served w w'"
    using svc.J_create r by (auto simp: create_vm_def intro: served_reached)
  moreover have "served w (snd (delete_vm E H name w))"
    unfolding delete_vm_def by (intro served_reached svc.J_delete r)
  moreover have "served w (snd (proxy_action E H name path body w))"
    unfolding proxy_action_def by (intro served_reached svc.J_proxy_action r)
  moreover have "served w (snd (proxy_passthrough E H name path w))"
    unfolding proxy_passthrough_def by (intro served_reached svc.J_passthrough r)
  ultimately show ?thesis by blast
qed

definition demo_calm :: calm_host where
  "demo_calm = \<lparr>ch_os = demo_cmd_os, ch_transport = demo_transport, ch_connect = (\<lambda>_. True),
     ch_now = ''2026-05-30T00:00:00Z'', ch_sha256 = (\<lambda>_. replicate 32 7), ch_to_vec = (\<lambda>_. Inr ''{}'')\<rparr>"

definition demo_host :: host_services where
  "demo_host = \<lparr>hs_connect = (\<lambda>_. ch_connect demo_calm), hs_now = (\<lambda>_. ch_now demo_calm),
     hs_sha256 = ch_sha256 demo_calm, hs_to_vec = ch_to_vec demo_calm\<rparr>"

lemma demo_calm_setting: "calm_setting demo_calm demo_env demo_host"
  by (simp add: calm_setting_def demo_env_quiet)
    (simp add: demo_calm_def demo_host_def demo_env_def)

text \<open>The demo pool after the first worker has started its process.\<close>

definition warm_pool :: process_pool where
  "warm_pool = apply_action (Act_spawn 0 (Inr (Some 7))) demo_pool"

lemma warm_pool_ok: "pool_ok warm_pool"
  unfolding warm_pool_def by (rule pool.J_action [OF demo_pool_ok])

lemma demo_pool_h_alive: "i < 2 \<Longrightarrow> h_alive (pp_slots demo_pool ! i)"
  by (simp add: demo_pool_def initialize_slot_def Let_def)

lemma warm_pool_alive: "all_alive warm_pool"
  by (simp add: warm_pool_def all_alive_on_slot demo_pool_alive)

lemma warm_pool_length [simp]: "length (pp_slots warm_pool) = 2"
  by (simp add: warm_pool_def)

lemma warm_pool_st:
  "slot_st warm_pool 0 = (initial_status 0)\<lparr>ss_pid := Some 7\<rparr>"
  "slot_st warm_pool 1 = initial_status 1"
  by (simp_all add: warm_pool_def slot_st_def slot_rt_on_slot demo_pool_slots demo_pool_h_alive
      spawn_phase_def slot_op_defs Let_def)

lemma warm_pool_numbered: "numbered warm_pool"
  using warm_pool_st by (auto simp: numbered_def less_Suc_eq numeral_2_eq_2 initial_status_def)

theorem service_keeps_pool_witness:
  "served (demo_world Unlocked warm_pool) (snd (delete_vm demo_env demo_host ''a'' (demo_world Unlocked warm_pool)))"
  using service_keeps_pool [of "demo_world Unlocked warm_pool"] by simp

section \<open>MAC addresses\<close>

text \<open>
  C39: MAC addresses.  A VM's MAC is 17 characters long and in the locally administered
  unicast range (first octet 02), and two names get one MAC exactly when the first five
  bytes of their SHA-256 digests agree.
\<close>

theorem mac_for_name_injective:
  assumes "\<And>n. length (sha256 n) = 32"
  shows "length (mac_for_name sha256 a) = 17 \<and> take 3 (mac_for_name sha256 a) = ''02:''
    \<and> (mac_for_name sha256 a = mac_for_name sha256 b \<longleftrightarrow> take 5 (sha256 a) = take 5 (sha256 b))"
proof -
  have five: "take 5 (sha256 n) = [sha256 n ! 0, sha256 n ! 1, sha256 n ! 2, sha256 n ! 3, sha256 n ! 4]"
    for n
    using assms [of n] by (intro nth_equalityI) (auto simp: less_Suc_eq numeral_eq_Suc)
  have app: "hex02 x @ xs = hex02 y @ ys \<longleftrightarrow> x = y \<and> xs = ys" for x y xs ys
    by (simp add: append_eq_append_conv hex02_inj)
  show ?thesis by (simp add: mac_for_name_def Let_def five app hex02_inj)
qed

theorem mac_for_name_injective_witness:
  "mac_for_name (\<lambda>n. of_nat (length n) # replicate 31 7) ''ab'' \<noteq>
     mac_for_name (\<lambda>n. of_nat (length n) # replicate 31 7) ''abc''"
  using mac_for_name_injective [of "\<lambda>n. of_nat (length n) # replicate 31 7" "''ab''" "''abc''"]
  by simp

section \<open>A creation that succeeds\<close>

lemma command_mark:
  assumes "ss_state (slot_st p i) = Booting" and "i < length (pp_slots p)" and "all_alive p"
  shows "command_spec os i (MarkVmBooted at) p =
    (Inr ((slot_st p i)\<lparr>ss_state := Occupied, ss_started_at := Some at\<rparr>),
     on_slot i (\<lambda>rt. (slot_rt p i)\<lparr>rt_status := (slot_st p i)\<lparr>ss_state := Occupied, ss_started_at := Some at\<rparr>\<rparr>) p)"
  using assms by (simp add: command_spec_def handle_command.simps slot_st_def Let_def)

lemma slot_st_on_slot:
  "all_alive p \<Longrightarrow> j < length (pp_slots p) \<Longrightarrow>
   slot_st (on_slot i f p) j = (if j = i then rt_status (f (slot_rt p i)) else slot_st p j)"
  by (simp add: slot_st_def slot_rt_on_slot all_alive_def list_all_length)

lemma slot_rt_on_alive:
  "all_alive p \<Longrightarrow> j < length (pp_slots p) \<Longrightarrow>
   slot_rt (on_slot i f p) j = (if j = i then f (slot_rt p i) else slot_rt p j)"
  by (simp add: slot_rt_on_slot all_alive_def list_all_length)

lemma reserve_status_generation:
  "ss_generation (reserve_status name mac tap st) = ss_generation st + 1"
  by (simp add: reserve_status_def)

text \<open>The pool with only the runtime of slot \<open>i\<close> changed.\<close>

definition only_slot :: "nat \<Rightarrow> process_pool \<Rightarrow> process_pool \<Rightarrow> bool" where
  "only_slot i p q = (\<exists>rt. q = on_slot i (\<lambda>_. rt) p)"

lemma only_slot_on: "only_slot i p (on_slot i f p)"
  unfolding only_slot_def by (metis on_slot_const)

lemma only_slot_trans: "only_slot i p q \<Longrightarrow> only_slot i q r \<Longrightarrow> only_slot i p r"
  by (auto simp: only_slot_def on_slot_def split: if_splits)

lemma only_slot_rt: "only_slot i p q \<Longrightarrow> j \<noteq> i \<Longrightarrow> slot_rt q j = slot_rt p j"
  by (auto simp: only_slot_def on_slot_def slot_rt_def)

lemma only_slot_st: "only_slot i p q \<Longrightarrow> j \<noteq> i \<Longrightarrow> slot_st q j = slot_st p j"
  by (simp add: slot_st_def only_slot_rt)

lemma only_slot_length: "only_slot i p q \<Longrightarrow> length (pp_slots q) = length (pp_slots p)"
  by (auto simp: only_slot_def)

lemma only_slot_command: "only_slot i p (snd (command_spec os i cmd p))"
  by (simp add: command_spec_def only_slot_on split: prod.split)

lemma allocate_spec_slot:
  assumes "allocate_spec os name mac p = (Inr st, p1)" and "all_alive p" and "numbered p"
    and "ss_pid st \<noteq> None"
  shows "only_slot (ss_slot st) p p1 \<and> ss_slot st < length (pp_slots p)
    \<and> ss_state (slot_st p (ss_slot st)) = Empty
    \<and> st = reserve_status name mac (tap_name (ss_slot st)) (slot_st p (ss_slot st))"
proof -
  from assms(1) have free: "\<not> name_used name p" by (auto simp: allocate_spec_def split: if_splits)
  show ?thesis
  proof (cases "empty_slot p")
    case (Some i)
    with assms(1) free have r: "reserve_spec os i name mac p = (Inr st, p1)"
      by (simp add: allocate_spec_def empty_slot_def)
    from reserve_spec_Inr [OF r _ assms(2,3)] empty_slot_Some [OF Some] have "ss_slot st = i" by simp
    with r empty_slot_Some [OF Some] show ?thesis
      by (auto simp: reserve_spec_def only_slot_on Let_def split: sum.splits)
  next
    case None
    with assms(1) free
    have r: "reserve_spec os (length (pp_slots p)) name mac (extend_slots 1 p) = (Inr st, p1)"
      by (auto simp: allocate_spec_def empty_slot_def split: if_splits)
    from reserve_spec_Inr [OF r _ all_alive_extend [OF assms(2)] numbered_extend [OF assms(3)]]
    have "ss_pid st = ss_pid (initial_status (length (pp_slots p)))"
      by (simp add: slot_st_extend_new [unfolded One_nat_def])
    with assms(4) show ?thesis by (simp add: initial_status_def)
  qed
qed

lemma finish_spec_reserved:
  assumes "reserved_for name mac st" and "slot_st p (ss_slot st) = st"
    and "ss_slot st < length (pp_slots p)" and "all_alive p"
    and "finish_spec C (ss_slot st) p = (Inr rt, q)"
  shows "runtime_from_slot_status (slot_st q (ss_slot st)) = Some rt
    \<and> slot_st q (ss_slot st) = st\<lparr>ss_state := Occupied, ss_started_at := Some (ch_now C)\<rparr>
    \<and> vr_name rt = name \<and> vr_mac rt = mac \<and> vr_tap rt = tap_name (ss_slot st)
    \<and> vr_started_at rt = ch_now C \<and> ss_pid st \<noteq> None
    \<and> only_slot (ss_slot st) p q \<and> all_alive q"
proof -
  let ?i = "ss_slot st" and ?st = "st\<lparr>ss_state := Occupied, ss_started_at := Some (ch_now C)\<rparr>"
  have b: "ss_state (slot_st p ?i) = Booting" using assms(1,2) by (simp add: reserved_for_def)
  note mark = command_mark [OF b assms(3,4), unfolded assms(2)]
  from assms(5) mark have t: "try_into_runtime ?st = Inr rt"
    and q: "q = on_slot ?i (\<lambda>rt. (slot_rt p ?i)\<lparr>rt_status := ?st\<rparr>) p"
    and "slot_ready C ?i p"
    by (auto simp: finish_spec_def split: if_splits)
  then have "ss_pid st \<noteq> None" using assms(2) by (simp add: slot_ready_def)
  moreover have "slot_st q ?i = ?st" using assms(3,4) by (simp add: q slot_st_on_slot)
  moreover have "runtime_from_slot_status ?st = Some rt" using t by (simp add: try_into_runtime_iff)
  moreover have "only_slot ?i p q" unfolding q by (rule only_slot_on)
  ultimately show ?thesis
    using runtime_from_slot_status_Some [of ?st rt] assms(1,4)
    by (simp add: reserved_for_def q all_alive_on_slot)
qed

lemma checked_spec_Inr:
  "checked_spec C i a p nxt = (Inr x, q) \<longleftrightarrow>
     (\<exists>resp. a = Inr resp \<and> \<not> 400 \<le> pr_status resp) \<and> nxt = (Inr x, q)"
  by (auto simp: checked_spec_def split: sum.split)

lemma request_spec_Inr:
  assumes "request_spec C c st p = (Inr rt, q)"
  shows "finish_spec C (ss_slot st) p = (Inr rt, q)"
  using assms
  by (auto simp: request_spec_def boot_spec_def checked_spec_Inr split: sum.splits if_splits)

lemma create_spec_Inr:
  assumes "create_spec C c p = (Inr rt, q)"
  obtains st p1 where
    "allocate_spec (co_tap (ch_os C)) (bc_name c) (mac_for_name (ch_sha256 C) (bc_name c)) p = (Inr st, p1)"
    and "finish_spec C (ss_slot st) p1 = (Inr rt, q)" and "validate_boot_config c = Inr ()"
  using assms
  by (auto simp: create_spec_def split: sum.splits prod.splits if_splits dest: request_spec_Inr)

text \<open>
  C13: A creation that succeeds, when no other task runs in between, answers with the VM
  that was asked for: its name, the MAC derived from the name, the TAP device of its slot
  and the time taken before the create request.  The name was not in use and the slot was
  empty before; the slot then holds that very runtime under the next generation, and of the
  whole pool nothing but the runtime of this slot has changed.
\<close>

theorem create_vm_success:
  assumes "calm_setting C E H" and "all_alive (pw_pool w)" and "numbered (pw_pool w)"
    and "create_vm E H c w = Some (Inr rt, w')"
  shows "vr_name rt = bc_name c \<and> vr_mac rt = mac_for_name (hs_sha256 H) (bc_name c)
    \<and> vr_started_at rt = ch_now C \<and> \<not> name_used (bc_name c) (pw_pool w)
    \<and> (\<exists>i < length (pp_slots (pw_pool w)). vr_tap rt = tap_name i
         \<and> ss_state (slot_st (pw_pool w) i) = Empty
         \<and> runtime_from_slot_status (slot_st (pw_pool w') i) = Some rt
         \<and> ss_generation (slot_st (pw_pool w') i) = ss_generation (slot_st (pw_pool w) i) + 1
         \<and> only_slot i (pw_pool w) (pw_pool w'))"
proof -
  have "create_spec C c (pw_pool w) = (Inr rt, pw_pool w')"
    using create_quiet [OF assms(1-3), of c] assms(4) by (auto intro: prod_eqI)
  then obtain st p1 where al: "allocate_spec (co_tap (ch_os C)) (bc_name c)
        (mac_for_name (ch_sha256 C) (bc_name c)) (pw_pool w) = (Inr st, p1)"
    and fin: "finish_spec C (ss_slot st) p1 = (Inr rt, pw_pool w')"
    by (rule create_spec_Inr)
  note alloc = allocate_spec_Inr [OF al assms(2,3)]
  have fr: "runtime_from_slot_status (slot_st (pw_pool w') (ss_slot st)) = Some rt"
      "slot_st (pw_pool w') (ss_slot st) = st\<lparr>ss_state := Occupied, ss_started_at := Some (ch_now C)\<rparr>"
      "vr_name rt = bc_name c" "vr_mac rt = mac_for_name (ch_sha256 C) (bc_name c)"
      "vr_tap rt = tap_name (ss_slot st)" "vr_started_at rt = ch_now C" "ss_pid st \<noteq> None"
      "only_slot (ss_slot st) p1 (pw_pool w')"
    using finish_spec_reserved [OF _ _ _ _ fin] alloc by auto
  note slot = allocate_spec_slot [OF al assms(2,3) fr(7)]
  have "ss_generation st = ss_generation (slot_st (pw_pool w) (ss_slot st)) + 1"
    using slot by (metis reserve_status_generation)
  then have "\<exists>i < length (pp_slots (pw_pool w)). vr_tap rt = tap_name i
         \<and> ss_state (slot_st (pw_pool w) i) = Empty
         \<and> runtime_from_slot_status (slot_st (pw_pool w') i) = Some rt
         \<and> ss_generation (slot_st (pw_pool w') i) = ss_generation (slot_st (pw_pool w) i) + 1
         \<and> only_slot i (pw_pool w) (pw_pool w')"
    using fr slot only_slot_trans [of _ _ p1] by (intro exI [of _ "ss_slot st"]) simp
  with fr alloc calm_settingD(6) [OF assms(1)] show ?thesis by simp
qed

lemma demo_tap_name: "tap_name 0 = ''tap0''"
  by code_simp

lemma demo_transport_send:
  "send_unix_http_request demo_transport socket m path body ct
     = Inr \<lparr>pr_status = 200, pr_content_type = None, pr_body = []\<rparr>"
  by (simp add: send_unix_http_request_def demo_transport_def response_to_proxy_response_def Let_def)

lemma demo_send_spec:
  "send_spec demo_calm i m path body ct p
     = Inr \<lparr>pr_status = 200, pr_content_type = None, pr_body = []\<rparr>"
  by (simp add: send_spec_def demo_calm_def demo_transport_send)

definition demo_status :: slot_status where
  "demo_status = reserve_status ''vm-b'' (mac_for_name (ch_sha256 demo_calm) ''vm-b'') ''tap0''
     (slot_st warm_pool 0)"

definition demo_reserved_pool :: process_pool where
  "demo_reserved_pool =
     on_slot 0 (\<lambda>rt. log_os [Os_tap ''tap0''] (rt\<lparr>rt_status := demo_status\<rparr>)) warm_pool"

lemma warm_pool_names: "i < 2 \<Longrightarrow> ss_name (slot_st warm_pool i) = None"
  using warm_pool_st by (cases "i = 0") (auto simp: less_2_cases_iff initial_status_def)

lemma warm_pool_unused: "\<not> name_used n warm_pool"
  by (simp add: name_used_iff warm_pool_names)

lemma demo_to_vec: "ch_to_vec demo_calm j = Inr ''{}''"
  by (simp add: demo_calm_def)

lemma demo_config_sel: "bc_name demo_config = ''vm-b''" "bc_snapshot_path demo_config = None"
  by (simp_all add: demo_config_def)

lemma demo_allocated:
  "allocate_spec (co_tap (ch_os demo_calm)) ''vm-b'' (mac_for_name (ch_sha256 demo_calm) ''vm-b'') warm_pool
     = (Inr demo_status, demo_reserved_pool)"
  by (simp add: allocate_spec_def warm_pool_unused upt_rec [of 0 2] warm_pool_st initial_status_def
      reserve_spec_def demo_tap_ok demo_calm_def demo_cmd_os_def demo_status_def
      demo_reserved_pool_def demo_tap_name Let_def)

lemma demo_reserved:
  "slot_st demo_reserved_pool 0 = demo_status" "length (pp_slots demo_reserved_pool) = 2"
  "all_alive demo_reserved_pool" "ss_slot demo_status = 0" "ss_pid demo_status = Some 7"
  using warm_pool_alive
  by (simp_all add: demo_reserved_pool_def slot_st_on_slot all_alive_on_slot log_os_def demo_status_def
      reserve_status_def warm_pool_st initial_status_def)

lemma demo_created:
  "\<exists>rt w'. create_vm demo_env demo_host demo_config (demo_world Unlocked warm_pool) = Some (Inr rt, w')"
proof -
  have b: "ss_state demo_status = Booting" by (simp add: demo_status_def reserve_status_def)
  have ready: "slot_ready demo_calm 0 demo_reserved_pool"
    by (simp add: slot_ready_def demo_reserved demo_calm_def)
  have "\<exists>rt q. finish_spec demo_calm 0 demo_reserved_pool = (Inr rt, q)"
    using ready command_mark [of demo_reserved_pool 0] b
    by (simp add: finish_spec_def demo_reserved)
      (simp add: try_into_runtime_def demo_status_def reserve_status_def warm_pool_st)
  then have "\<exists>rt q. create_spec demo_calm demo_config warm_pool = (Inr rt, q)"
    using demo_allocated ready
    by (simp add: create_spec_def demo_config_valid request_spec_def boot_spec_def checked_spec_def
        demo_send_spec demo_reserved demo_config_sel demo_to_vec)
  then show ?thesis
    using create_quiet [OF demo_calm_setting, of "demo_world Unlocked warm_pool" demo_config]
      warm_pool_alive warm_pool_numbered by auto
qed

theorem create_vm_success_witness:
  "\<exists>rt w' i. create_vm demo_env demo_host demo_config (demo_world Unlocked warm_pool) = Some (Inr rt, w')
     \<and> vr_name rt = ''vm-b'' \<and> only_slot i warm_pool (pw_pool w')"
  using demo_created create_vm_success [OF demo_calm_setting, of "demo_world Unlocked warm_pool" demo_config]
    warm_pool_alive warm_pool_numbered by (fastforce simp: demo_config_def)

section \<open>Create, then delete\<close>

definition accepts :: "transport \<Rightarrow> bool" where
  "accepts T =
     (\<forall>socket m path body ct. \<exists>resp.
        send_unix_http_request T socket m path body ct = Inr resp \<and> \<not> 400 \<le> pr_status resp)"

lemma checked_accepts:
  "accepts (ch_transport C) \<Longrightarrow> checked_spec C i (send_spec C i m path body ct p) q nxt = nxt"
proof -
  assume "accepts (ch_transport C)"
  then obtain resp where "send_unix_http_request (ch_transport C) (vm_socket_path i p) m path body ct = Inr resp"
    and "\<not> 400 \<le> pr_status resp"
    unfolding accepts_def by blast
  then show ?thesis by (simp add: checked_spec_def send_spec_def)
qed

lemma handle_release:
  assumes "ss_state (rt_status rt) = Occupied"
  shows "\<exists>rt'. handle_command os b ReleaseVm rt = (Inr (rt_status rt'), rt')
    \<and> rt_status rt' = vacate_status (rt_status rt)"
  using assms
  by (cases "rt_child rt")
    (simp_all add: handle_command.simps cleanup_api_socket_def stop_child_def log_os_def Let_def)

lemma command_release:
  assumes "ss_state (slot_st p i) = Occupied" and "i < length (pp_slots p)" and "all_alive p"
  shows "\<exists>st q. command_spec os i ReleaseVm p = (Inr st, q)
    \<and> slot_st q i = vacate_status (slot_st p i) \<and> only_slot i p q"
proof -
  obtain rt' where h: "handle_command os (h_bridge (pp_slots p ! i)) ReleaseVm (slot_rt p i)
      = (Inr (rt_status rt'), rt')" and st: "rt_status rt' = vacate_status (slot_st p i)"
    using handle_release [of "slot_rt p i" os "h_bridge (pp_slots p ! i)"] assms(1)
    unfolding slot_st_def by blast
  then have "command_spec os i ReleaseVm p = (Inr (rt_status rt'), on_slot i (\<lambda>_. rt') p)"
    by (simp add: command_spec_def)
  with st assms(2,3) show ?thesis by (simp add: slot_st_on_slot only_slot_on)
qed

lemma pool_ok_slot: "pool_ok p \<Longrightarrow> i < length (pp_slots p) \<Longrightarrow> status_wf (slot_st p i) \<and> ss_slot (slot_st p i) = i"
  by (simp add: pool_ok_def all_slots_def slot_wf_def slot_numbered_def slot_st_def)

lemma pool_ok_numbered: "pool_ok p \<Longrightarrow> numbered p"
  by (simp add: numbered_def pool_ok_slot)

lemma pool_ok_empty:
  "pool_ok p \<Longrightarrow> i < length (pp_slots p) \<Longrightarrow> ss_state (slot_st p i) = Empty \<Longrightarrow>
   identity_unset (slot_st p i) \<and> ss_started_at (slot_st p i) = None \<and> ss_last_error (slot_st p i) = None"
  using pool_ok_slot [of p i] by (simp add: status_wf_def)

text \<open>
  The status of a slot that has been reserved, occupied and released: two generations on and
  without a process, and otherwise what it was.
\<close>

definition recycled_status :: "slot_status \<Rightarrow> slot_status" where
  "recycled_status st = st\<lparr>ss_generation := ss_generation st + 2, ss_pid := None\<rparr>"

lemma vacate_reserved:
  assumes "ss_state st = Empty" and "identity_unset st" and "ss_started_at st = None"
    and "ss_last_error st = None"
  shows "vacate_status ((reserve_status name mac tap st)\<lparr>ss_state := Occupied, ss_started_at := at\<rparr>)
    = recycled_status st"
  using assms
  by (intro slot_status.equality)
    (simp_all add: vacate_status_def reserve_status_def recycled_status_def identity_unset_def)

lemma create_delete:
  assumes "calm_setting C E H" and "all_alive (pw_pool w)" and "pool_ok (pw_pool w)"
    and "accepts (ch_transport C)" and "create_vm E H c w = Some (Inr rt, w1)"
    and "delete_vm E H (bc_name c) w1 = (r, w2)"
  shows "r = Inr () \<and> \<not> name_used (bc_name c) (pw_pool w2)
    \<and> (\<exists>i < length (pp_slots (pw_pool w)). vr_tap rt = tap_name i
         \<and> ss_state (slot_st (pw_pool w) i) = Empty
         \<and> slot_st (pw_pool w2) i = recycled_status (slot_st (pw_pool w) i)
         \<and> only_slot i (pw_pool w) (pw_pool w2))"
proof -
  let ?p = "pw_pool w" and ?q = "pw_pool w1"
  note num = pool_ok_numbered [OF assms(3)]
  have "create_spec C c ?p = (Inr rt, ?q)"
    using create_quiet [OF assms(1,2) num, of c] assms(5) by (auto intro: prod_eqI)
  then obtain st p1 where al: "allocate_spec (co_tap (ch_os C)) (bc_name c)
        (mac_for_name (ch_sha256 C) (bc_name c)) ?p = (Inr st, p1)"
    and fin: "finish_spec C (ss_slot st) p1 = (Inr rt, ?q)"
    by (rule create_spec_Inr)
  let ?i = "ss_slot st"
  note alloc = allocate_spec_Inr [OF al assms(2) num]
  have fr: "slot_st ?q ?i = st\<lparr>ss_state := Occupied, ss_started_at := Some (ch_now C)\<rparr>"
      "vr_tap rt = tap_name ?i" "ss_pid st \<noteq> None" "only_slot ?i p1 ?q" "all_alive ?q"
    using finish_spec_reserved [OF _ _ _ _ fin] alloc by auto
  have slot: "only_slot ?i ?p p1" "?i < length (pp_slots ?p)" "ss_state (slot_st ?p ?i) = Empty"
    and st: "st = reserve_status (bc_name c) (mac_for_name (ch_sha256 C) (bc_name c)) (tap_name ?i)
      (slot_st ?p ?i)"
    using allocate_spec_slot [OF al assms(2) num fr(3)] by blast+
  have q: "only_slot ?i ?p ?q" using only_slot_trans slot(1) fr(4) .
  have len: "?i < length (pp_slots ?q)" using only_slot_length [OF q] slot(2) by simp
  have occ: "ss_state (slot_st ?q ?i) = Occupied" and nm: "ss_name (slot_st ?q ?i) = Some (bc_name c)"
    using fr(1) alloc by (simp_all add: reserved_for_def)
  have numq: "numbered ?q"
    using num fr(1) only_slot_length [OF q] only_slot_st [OF q] unfolding numbered_def
    by (metis slot_status.select_convs(1) slot_status.surjective slot_status.update_convs(3,8))
  have sole: "\<forall>j < length (pp_slots ?q). j \<noteq> ?i \<longrightarrow> ss_name (slot_st ?q j) \<noteq> Some (bc_name c)"
    using alloc only_slot_st [OF q] only_slot_length [OF q] by (simp add: name_used_iff)
  have run: "running_spec (bc_name c) ?q = Inr ?i"
    using slot_of_name_sole [OF len nm sole] occ by (simp add: running_spec_def)
  obtain st2 q2 where rel: "command_spec (ch_os C) ?i ReleaseVm ?q = (Inr st2, q2)"
    and v: "slot_st q2 ?i = vacate_status (slot_st ?q ?i)" and q2: "only_slot ?i ?q q2"
    using command_release [OF occ len fr(5)] by blast
  have rec: "slot_st q2 ?i = recycled_status (slot_st ?p ?i)"
    using v fr(1) st vacate_reserved [of "slot_st ?p ?i"] pool_ok_empty [OF assms(3) slot(2,3)] slot(3)
    by metis
  have "delete_spec C (bc_name c) ?q = (Inr (), q2)"
    using run rel by (simp add: delete_spec_def checked_accepts [OF assms(4)])
  then have d: "r = Inr ()" "pw_pool w2 = q2"
    using delete_quiet [OF assms(1) fr(5) numq, of "bc_name c"] assms(6) by simp_all
  have "ss_name (slot_st q2 j) \<noteq> Some (bc_name c)" if "j < length (pp_slots q2)" for j
    using v only_slot_st [OF q2] only_slot_length [OF q2] sole that
    by (cases "j = ?i") (simp_all add: vacate_status_def)
  then have "\<not> name_used (bc_name c) q2" by (simp add: name_used_iff)
  with d rec slot(2,3) fr(2) only_slot_trans [OF q q2] show ?thesis by blast
qed

text \<open>
  C14: A deletion undoes a creation.  When no other task runs in between and the VM accepts
  the shutdown and delete calls, deleting the VM just created succeeds and its name is free
  again.  Its slot is as empty as before the creation, with the generation counted up twice
  and its process gone; nothing else of the pool differs from before the creation.
\<close>

theorem create_then_delete:
  assumes "calm_setting C E H" and "all_alive (pw_pool w)" and "pool_ok (pw_pool w)"
    and "accepts (ch_transport C)" and "create_vm E H c w = Some (Inr rt, w1)"
    and "delete_vm E H (bc_name c) w1 = (r, w2)"
  shows "r = Inr () \<and> \<not> name_used (bc_name c) (pw_pool w2)
    \<and> (\<exists>i < length (pp_slots (pw_pool w)). vr_tap rt = tap_name i
         \<and> ss_state (slot_st (pw_pool w) i) = Empty
         \<and> slot_st (pw_pool w2) i = recycled_status (slot_st (pw_pool w) i)
         \<and> only_slot i (pw_pool w) (pw_pool w2))"
  using assms by (rule create_delete)

end
