(* ===== verification/HostMetrics.thy ===== *)
theory HostMetrics
  imports ProcText
begin

text \<open>
  \<open>src/host_metrics.rs\<close>: the host's metrics, read from \<open>/proc\<close>.  An \<open>io::Error\<close> is its
  text.  Sums of ticks are \<open>u64\<close> words, so they wrap as the release build does.
\<close>

section \<open>Types\<close>

record 'f load_average =
  la_one_minute :: 'f
  la_five_minutes :: 'f
  la_fifteen_minutes :: 'f

record cpu_metrics =
  cm_logical_cores :: nat
  cm_total_ticks :: u64
  cm_idle_ticks :: u64
  cm_busy_ticks :: u64

record memory_metrics =
  mm_total_bytes :: u64
  mm_available_bytes :: u64
  mm_used_bytes :: u64
  mm_free_bytes :: u64
  mm_buffers_bytes :: u64
  mm_cached_bytes :: u64
  mm_swap_total_bytes :: u64
  mm_swap_free_bytes :: u64
  mm_swap_used_bytes :: u64

record process_metrics =
  pm_running :: u64
  pm_total :: u64

record 'f host_metrics =
  hm_collected_at :: string
  hm_hostname :: string
  hm_uptime_seconds :: 'f
  hm_load_average :: "'f load_average"
  hm_cpu :: cpu_metrics
  hm_memory :: memory_metrics
  hm_processes :: process_metrics

section \<open>Readers\<close>

definition read_hostname :: "read_file \<Rightarrow> string + string" where
  "read_hostname read = map_sum id trim (read ''/proc/sys/kernel/hostname'')"

definition read_uptime_seconds :: "read_file \<Rightarrow> 'f parse_f64 \<Rightarrow> string + 'f" where
  "read_uptime_seconds read parse =
     (case read ''/proc/uptime'' of
        Inl err \<Rightarrow> Inl err
      | Inr raw \<Rightarrow>
          (case split_whitespace raw of
             [] \<Rightarrow> Inl ''missing uptime''
           | first # _ \<Rightarrow> map_err (\<lambda>err. ''invalid uptime value: '' @ err) (parse first)))"

definition nth_field :: "string list \<Rightarrow> nat \<Rightarrow> string option" where
  "nth_field ws i = (if i < length ws then Some (ws ! i) else None)"

definition parse_f64_field :: "'f parse_f64 \<Rightarrow> string option \<Rightarrow> string \<Rightarrow> string + 'f" where
  "parse_f64_field parse field name =
     (case field of
        None \<Rightarrow> Inl (''missing '' @ name)
      | Some raw \<Rightarrow> map_err (\<lambda>err. ''invalid '' @ name @ '': '' @ err) (parse raw))"

definition parse_process_field :: "string \<Rightarrow> string + process_metrics" where
  "parse_process_field proc_field =
     (case split_once (CHR ''/'') proc_field of
        None \<Rightarrow> Inl ''invalid loadavg process field format''
      | Some (running_str, total_str) \<Rightarrow>
          (case parse_u64_text running_str of
             Inl err \<Rightarrow> Inl (''invalid running process count: '' @ err)
           | Inr running \<Rightarrow>
               (case parse_u64_text total_str of
                  Inl err \<Rightarrow> Inl (''invalid total process count: '' @ err)
                | Inr tot \<Rightarrow> Inr \<lparr>pm_running = running, pm_total = tot\<rparr>)))"

definition read_loadavg_and_processes ::
  "read_file \<Rightarrow> 'f parse_f64 \<Rightarrow> string + 'f load_average \<times> process_metrics" where
  "read_loadavg_and_processes read parse =
     (case read ''/proc/loadavg'' of
        Inl err \<Rightarrow> Inl err
      | Inr raw \<Rightarrow>
          (let ws = split_whitespace raw in
           case parse_f64_field parse (nth_field ws 0) ''loadavg.one'' of
             Inl err \<Rightarrow> Inl err
           | Inr one \<Rightarrow>
           (case parse_f64_field parse (nth_field ws 1) ''loadavg.five'' of
             Inl err \<Rightarrow> Inl err
           | Inr five \<Rightarrow>
           (case parse_f64_field parse (nth_field ws 2) ''loadavg.fifteen'' of
             Inl err \<Rightarrow> Inl err
           | Inr fifteen \<Rightarrow>
           (case nth_field ws 3 of
             None \<Rightarrow> Inl ''missing loadavg proc field''
           | Some proc_field \<Rightarrow>
               map_sum id (\<lambda>pm. (\<lparr>la_one_minute = one, la_five_minutes = five,
                                   la_fifteen_minutes = fifteen\<rparr>, pm))
                 (parse_process_field proc_field))))))"

fun parse_ticks :: "string list \<Rightarrow> string + u64 list" where
  "parse_ticks [] = Inr []"
| "parse_ticks (w # ws) =
     (case parse_u64_text w of
        Inl err \<Rightarrow> Inl (''invalid cpu tick value: '' @ err)
      | Inr t \<Rightarrow> map_sum id ((#) t) (parse_ticks ws))"

definition cpu_metrics_of :: "nat \<Rightarrow> u64 list \<Rightarrow> string + cpu_metrics" where
  "cpu_metrics_of cores ticks =
     (if length ticks < 4 then Inl ''cpu stat line has fewer than 4 fields''
      else
        (let idle = ticks ! 3;
             iowait = (if 4 < length ticks then ticks ! 4 else 0);
             total_ticks = sum_list ticks;
             idle_ticks = sat_add idle iowait
         in Inr \<lparr>cm_logical_cores = cores, cm_total_ticks = total_ticks, cm_idle_ticks = idle_ticks,
                 cm_busy_ticks = sat_sub total_ticks idle_ticks\<rparr>))"

text \<open>\<open>cores\<close> is \<open>available_parallelism\<close>, one when the system cannot tell.\<close>

definition read_cpu_metrics :: "read_file \<Rightarrow> nat option \<Rightarrow> string + cpu_metrics" where
  "read_cpu_metrics read parallelism =
     (case read ''/proc/stat'' of
        Inl err \<Rightarrow> Inl err
      | Inr raw \<Rightarrow>
          (case find (\<lambda>line. starts_with line ''cpu '') (str_lines raw) of
             None \<Rightarrow> Inl ''missing cpu stat line''
           | Some cpu_line \<Rightarrow>
               (case parse_ticks (drop 1 (split_whitespace cpu_line)) of
                  Inl err \<Rightarrow> Inl err
                | Inr ticks \<Rightarrow>
                    cpu_metrics_of (case parallelism of Some n \<Rightarrow> n | None \<Rightarrow> 1) ticks)))"

fun meminfo_loop :: "string list \<Rightarrow> (string \<rightharpoonup> u64) \<Rightarrow> string + (string \<rightharpoonup> u64)" where
  "meminfo_loop [] values = Inr values"
| "meminfo_loop (line # lines) values =
     (case split_once (CHR '':'') line of
        None \<Rightarrow> meminfo_loop lines values
      | Some (key_raw, value_raw) \<Rightarrow>
          (let key = trim key_raw in
           case split_whitespace value_raw of
             [] \<Rightarrow> meminfo_loop lines values
           | value # _ \<Rightarrow>
               (case parse_u64_text value of
                  Inl err \<Rightarrow> Inl (''invalid meminfo value for '' @ key @ '': '' @ err)
                | Inr parsed \<Rightarrow> meminfo_loop lines (values(key \<mapsto> parsed)))))"

definition parse_meminfo_kib :: "string \<Rightarrow> string + (string \<rightharpoonup> u64)" where
  "parse_meminfo_kib raw = meminfo_loop (str_lines raw) (\<lambda>_. None)"

definition required_meminfo_kib :: "(string \<rightharpoonup> u64) \<Rightarrow> string \<Rightarrow> string + u64" where
  "required_meminfo_kib meminfo key = ok_or (''missing meminfo key: '' @ key) (meminfo key)"

definition optional_kib :: "(string \<rightharpoonup> u64) \<Rightarrow> string \<Rightarrow> u64" where
  "optional_kib meminfo key = (case meminfo key of Some v \<Rightarrow> v | None \<Rightarrow> 0)"

definition memory_metrics_of :: "(string \<rightharpoonup> u64) \<Rightarrow> string + memory_metrics" where
  "memory_metrics_of meminfo =
     (case required_meminfo_kib meminfo ''MemTotal'' of
        Inl err \<Rightarrow> Inl err
      | Inr total_kib \<Rightarrow>
      (case required_meminfo_kib meminfo ''MemAvailable'' of
        Inl err \<Rightarrow> Inl err
      | Inr available_kib \<Rightarrow>
      (case required_meminfo_kib meminfo ''MemFree'' of
        Inl err \<Rightarrow> Inl err
      | Inr free_kib \<Rightarrow>
        (let buffers_kib = optional_kib meminfo ''Buffers'';
             cached_kib = optional_kib meminfo ''Cached'';
             swap_total_kib = optional_kib meminfo ''SwapTotal'';
             swap_free_kib = optional_kib meminfo ''SwapFree'';
             used_kib = sat_sub total_kib available_kib;
             swap_used_kib = sat_sub swap_total_kib swap_free_kib
         in Inr \<lparr>mm_total_bytes = kib_to_bytes total_kib,
                 mm_available_bytes = kib_to_bytes available_kib,
                 mm_used_bytes = kib_to_bytes used_kib,
                 mm_free_bytes = kib_to_bytes free_kib,
                 mm_buffers_bytes = kib_to_bytes buffers_kib,
                 mm_cached_bytes = kib_to_bytes cached_kib,
                 mm_swap_total_bytes = kib_to_bytes swap_total_kib,
                 mm_swap_free_bytes = kib_to_bytes swap_free_kib,
                 mm_swap_used_bytes = kib_to_bytes swap_used_kib\<rparr>))))"

definition read_memory_metrics :: "read_file \<Rightarrow> string + memory_metrics" where
  "read_memory_metrics read =
     (case read ''/proc/meminfo'' of
        Inl err \<Rightarrow> Inl err
      | Inr raw \<Rightarrow>
          (case parse_meminfo_kib raw of
             Inl err \<Rightarrow> Inl err
           | Inr meminfo \<Rightarrow> memory_metrics_of meminfo))"

definition collect_host_metrics ::
  "read_file \<Rightarrow> 'f parse_f64 \<Rightarrow> nat option \<Rightarrow> string \<Rightarrow> string + 'f host_metrics" where
  "collect_host_metrics read parse parallelism collected_at =
     (case read_hostname read of Inl err \<Rightarrow> Inl err | Inr hostname \<Rightarrow>
     (case read_uptime_seconds read parse of Inl err \<Rightarrow> Inl err | Inr uptime \<Rightarrow>
     (case read_loadavg_and_processes read parse of Inl err \<Rightarrow> Inl err | Inr (load, processes) \<Rightarrow>
     (case read_cpu_metrics read parallelism of Inl err \<Rightarrow> Inl err | Inr cpu \<Rightarrow>
     (case read_memory_metrics read of Inl err \<Rightarrow> Inl err | Inr memory \<Rightarrow>
        Inr \<lparr>hm_collected_at = collected_at, hm_hostname = hostname, hm_uptime_seconds = uptime,
             hm_load_average = load, hm_cpu = cpu, hm_memory = memory, hm_processes = processes\<rparr>)))))"

section \<open>CPU ticks\<close>

text \<open>The line the kernel writes for the ticks of all CPUs: two spaces after \<open>cpu\<close>.\<close>

definition cpu_line :: "u64 list \<Rightarrow> string" where
  "cpu_line ticks = ''cpu '' @ spaced (map (\<lambda>t. show_nat (unat t)) ticks)"

lemma parse_ticks_show: "parse_ticks (map (\<lambda>t. show_nat (unat t)) ticks) = Inr ticks"
  by (induction ticks) (simp_all add: parse_u64_show)

lemma split_cpu_line: "split_whitespace (cpu_line ticks) = ''cpu'' # map (\<lambda>t. show_nat (unat t)) ticks"
proof -
  have p: "list_all plain_char ''cpu''" by (simp add: plain_char_def byte_def)
  have "split_whitespace (cpu_line ticks)
      = split_ws (rev ''cpu'') (CHR '' '' # spaced (map (\<lambda>t. show_nat (unat t)) ticks))"
    using split_ws_plain [OF p, of "[]"] by (simp add: split_whitespace_def cpu_line_def)
  also have "\<dots> = ''cpu'' # split_ws [] (spaced (map (\<lambda>t. show_nat (unat t)) ticks))"
    by (simp add: split_ws_space)
  also have "split_ws [] (spaced (map (\<lambda>t. show_nat (unat t)) ticks)) = map (\<lambda>t. show_nat (unat t)) ticks"
    by (subst split_ws_spaced) (simp_all add: list_all_iff plain_show_nat)
  finally show ?thesis .
qed

lemma unat_sum_list:
  "sum_list (map unat (ts :: u64 list)) < 2 ^ 64 \<Longrightarrow> unat (sum_list ts) = sum_list (map unat ts)"
proof (induction ts)
  case (Cons t ts)
  then have "unat (sum_list ts) = sum_list (map unat ts)" by simp
  with Cons.prems show ?case by (simp add: unat_word_ariths)
qed simp

lemma is_line_cpu: "is_line (cpu_line ticks)"
proof (rule is_lineI)
  have "list_all plain (map (\<lambda>t. show_nat (unat t)) ticks)" by (simp add: list_all_iff plain_show_nat)
  moreover have "list_all line_char ''cpu ''" by (simp add: line_char_byte byte_def)
  ultimately show "list_all line_char (cpu_line ticks)" by (simp add: cpu_line_def line_chars_spaced)
qed

text \<open>
  C30: CPU ticks.  From the text the kernel writes (the line of all CPUs first, with at least
  four counters whose sum fits 64 bits), the reader returns the sum as the total, the fourth
  counter plus the fifth, if there is one, as idle, and busy and idle add up to the total.
\<close>

theorem cpu_metrics_roundtrip:
  assumes "read ''/proc/stat'' = Inr (text_of (cpu_line ticks # rest))" and "list_all is_line rest"
    and "4 \<le> length ticks" and "sum_list (map unat ticks) < 2 ^ 64"
  shows "\<exists>cm. read_cpu_metrics read parallelism = Inr cm
    \<and> unat (cm_total_ticks cm) = sum_list (map unat ticks)
    \<and> unat (cm_idle_ticks cm) = unat (ticks ! 3) + (if 4 < length ticks then unat (ticks ! 4) else 0)
    \<and> unat (cm_busy_ticks cm) + unat (cm_idle_ticks cm) = unat (cm_total_ticks cm)"
proof -
  have lines: "str_lines (text_of (cpu_line ticks # rest)) = cpu_line ticks # rest"
    using assms(2) by (intro lines_text_of) (simp add: is_line_cpu)
  have "starts_with (cpu_line ticks) ''cpu ''" by (simp add: starts_with_def cpu_line_def)
  then have r: "read_cpu_metrics read parallelism
      = cpu_metrics_of (case parallelism of Some n \<Rightarrow> n | None \<Rightarrow> 1) ticks"
    by (simp add: read_cpu_metrics_def assms(1) lines split_cpu_line parse_ticks_show)
  let ?iow = "if 4 < length ticks then ticks ! 4 else 0"
  have sum4: "sum_list (map unat ticks)
      = sum_list (map unat (take 3 ticks)) + unat (ticks ! 3) + sum_list (map unat (drop 4 ticks))"
    using assms(3) id_take_nth_drop [of 3 ticks]
    by (metis (no_types, lifting) Suc_le_lessD add.assoc eval_nat_numeral(2,3) list.simps(9) map_append
        semiring_norm(26,27) sum_list.Cons sum_list_append)
  have "unat ?iow \<le> sum_list (map unat (drop 4 ticks))"
    by (cases "drop 4 ticks") (auto simp: hd_drop_conv_nth [symmetric])
  with sum4 have le: "unat (ticks ! 3) + unat ?iow \<le> sum_list (map unat ticks)" by linarith
  then have idle: "unat (sat_add (ticks ! 3) ?iow) = unat (ticks ! 3) + unat ?iow"
    using assms(4) by simp
  have "unat (sum_list ticks) = sum_list (map unat ticks)" using assms(4) by (rule unat_sum_list)
  with r idle le assms(3) show ?thesis
    by (simp add: cpu_metrics_of_def Let_def not_less)
qed

lemma is_line_Nil: "is_line []"
  by (simp add: is_line_def)

theorem cpu_metrics_roundtrip_witness:
  "\<exists>cm. read_cpu_metrics (\<lambda>_. Inr (text_of [cpu_line [5, 6, 7, 100, 20], []])) (Some 4) = Inr cm
     \<and> unat (cm_idle_ticks cm) = 120 \<and> unat (cm_busy_ticks cm) + 120 = 138"
  using cpu_metrics_roundtrip [of "\<lambda>_. Inr (text_of [cpu_line [5, 6, 7, 100, 20], []])" "[5, 6, 7, 100, 20]"
      "[[]]" "Some 4"]
  by (auto simp: is_line_Nil)

section \<open>Memory\<close>

text \<open>
  An entry as the kernel writes it: the key, a colon, some blanks, the number and, except
  for counts of pages such as \<open>HugePages_Total\<close>, the unit.  \<open>pad\<close> and \<open>kb\<close> say for each key
  which blanks and whether there is a unit.
\<close>

definition meminfo_words :: "string \<Rightarrow> bool \<Rightarrow> u64 \<Rightarrow> (string \<times> string) list" where
  "meminfo_words pad kb v = (pad, show_nat (unat v)) # (if kb then [('' '', ''kB'')] else [])"

definition meminfo_line :: "(string \<Rightarrow> string) \<Rightarrow> (string \<Rightarrow> bool) \<Rightarrow> string \<times> u64 \<Rightarrow> string" where
  "meminfo_line pad kb e = fst e @ '':'' @ spread (meminfo_words (pad (fst e)) (kb (fst e)) (snd e))"

definition meminfo_key :: "(string \<Rightarrow> string) \<Rightarrow> string \<Rightarrow> bool" where
  "meminfo_key pad k = (plain k \<and> CHR '':'' \<notin> set k \<and> gap (pad k))"

lemma meminfo_words_ok:
  "gap pad \<Longrightarrow> list_all (\<lambda>(g, w). gap g \<and> plain w) (meminfo_words pad kb v)"
  by (simp add: meminfo_words_def plain_show_nat)
    (simp add: gap_def blank_def byte_space plain_def plain_char_def byte_def)

lemma meminfo_loop_lines:
  "list_all (\<lambda>e. meminfo_key pad (fst e)) es \<Longrightarrow>
   meminfo_loop (map (meminfo_line pad kb) es) m = Inr (m ++ map_of (rev es))"
proof (induction es arbitrary: m)
  case (Cons e es)
  obtain k v where e: "e = (k, v)" by fastforce
  with Cons.prems have k: "plain k" "CHR '':'' \<notin> set k" and p: "gap (pad k)"
    by (simp_all add: meminfo_key_def)
  have sp: "split_once (CHR '':'') (meminfo_line pad kb e) = Some (k, spread (meminfo_words (pad k) (kb k) v))"
    using split_once_append [OF k(2)] by (simp add: meminfo_line_def e)
  have ws: "split_whitespace (spread (meminfo_words (pad k) (kb k) v))
      = show_nat (unat v) # (if kb k then [''kB''] else [])"
    using split_whitespace_spread [OF meminfo_words_ok [OF p]] by (simp add: meminfo_words_def)
  have "meminfo_loop (map (meminfo_line pad kb) (e # es)) m
      = meminfo_loop (map (meminfo_line pad kb) es) (m(k \<mapsto> v))"
    by (simp add: sp ws trim_plain [OF k(1)] parse_u64_show)
  also have "\<dots> = Inr (m(k \<mapsto> v) ++ map_of (rev es))" using Cons by simp
  also have "m(k \<mapsto> v) ++ map_of (rev es) = m ++ map_of (rev (e # es))"
    by (simp add: e map_add_upd_left map_add_def fun_eq_iff split: option.split)
  finally show ?case .
qed simp

lemma is_line_meminfo: "meminfo_key pad (fst e) \<Longrightarrow> is_line (meminfo_line pad kb e)"
proof (rule is_lineI)
  assume k: "meminfo_key pad (fst e)"
  then have "list_all line_char (spread (meminfo_words (pad (fst e)) (kb (fst e)) (snd e)))"
    by (intro line_chars_spread meminfo_words_ok) (simp add: meminfo_key_def)
  moreover have "line_char (CHR '':'')" by (simp add: line_char_byte byte_def)
  ultimately show "list_all line_char (meminfo_line pad kb e)"
    using k by (simp add: meminfo_line_def meminfo_key_def line_chars_plain)
qed

lemma parse_meminfo_lines:
  assumes "list_all (\<lambda>e. meminfo_key pad (fst e)) es"
  shows "parse_meminfo_kib (text_of (map (meminfo_line pad kb) es)) = Inr (map_of (rev es))"
proof -
  have "str_lines (text_of (map (meminfo_line pad kb) es)) = map (meminfo_line pad kb) es"
    using assms by (intro lines_text_of) (simp add: list_all_iff is_line_meminfo)
  then show ?thesis
    using meminfo_loop_lines [OF assms, of kb "\<lambda>_. None"]
    by (simp add: parse_meminfo_kib_def map_add_def)
qed

text \<open>The number of a key in KiB: that of its last line, 0 without one.\<close>

definition kib_of :: "(string \<times> u64) list \<Rightarrow> string \<Rightarrow> nat" where
  "kib_of es key = (case map_of (rev es) key of Some v \<Rightarrow> unat v | None \<Rightarrow> 0)"

definition memory_keys :: "string list" where
  "memory_keys = [''MemTotal'', ''MemAvailable'', ''MemFree'', ''Buffers'', ''Cached'', ''SwapTotal'', ''SwapFree'']"

lemma kib_bytes: "unat v < 2 ^ 54 \<Longrightarrow> unat (kib_to_bytes v) = 1024 * unat v"
  by (simp add: unat_kib_to_bytes)

text \<open>
  C31: Memory information round trip.  From a text of lines as the kernel writes them, with or
  without a unit, in any order and the last line of a key winning, in which total, available
  and free memory occur and the numbers used are below 2^54 KiB, the reader succeeds and every
  field is exactly the number of bytes of its own key: total, available, free, buffers,
  cached, and total and free swap, the last four 0 where the key is missing; the memory and
  the swap used are total minus available and total minus free, or 0 where that is negative.
\<close>

theorem meminfo_roundtrip:
  assumes "read ''/proc/meminfo'' = Inr (text_of (map (meminfo_line pad kb) es))"
    and "list_all (\<lambda>e. meminfo_key pad (fst e)) es"
    and "{''MemTotal'', ''MemAvailable'', ''MemFree''} \<subseteq> fst ` set es"
    and "\<forall>key \<in> set memory_keys. kib_of es key < 2 ^ 54"
  shows "\<exists>mm. read_memory_metrics read = Inr mm
    \<and> unat (mm_total_bytes mm) = 1024 * kib_of es ''MemTotal''
    \<and> unat (mm_available_bytes mm) = 1024 * kib_of es ''MemAvailable''
    \<and> unat (mm_used_bytes mm) = 1024 * (kib_of es ''MemTotal'' - kib_of es ''MemAvailable'')
    \<and> unat (mm_free_bytes mm) = 1024 * kib_of es ''MemFree''
    \<and> unat (mm_buffers_bytes mm) = 1024 * kib_of es ''Buffers''
    \<and> unat (mm_cached_bytes mm) = 1024 * kib_of es ''Cached''
    \<and> unat (mm_swap_total_bytes mm) = 1024 * kib_of es ''SwapTotal''
    \<and> unat (mm_swap_free_bytes mm) = 1024 * kib_of es ''SwapFree''
    \<and> unat (mm_swap_used_bytes mm) = 1024 * (kib_of es ''SwapTotal'' - kib_of es ''SwapFree'')"
proof -
  let ?m = "map_of (rev es)"
  have r: "read_memory_metrics read = memory_metrics_of ?m"
    using assms(1) parse_meminfo_lines [OF assms(2)] by (simp add: read_memory_metrics_def)
  have some: "\<exists>v. ?m key = Some v" if "key \<in> fst ` set es" for key
    using that map_of_eq_None_iff [of "rev es" key] by (cases "?m key") simp_all
  have "''MemTotal'' \<in> fst ` set es" "''MemAvailable'' \<in> fst ` set es" "''MemFree'' \<in> fst ` set es"
    using assms(3) by (simp_all del: set_map image_iff)
  from this [THEN some] obtain tot av fr
    where v: "?m ''MemTotal'' = Some tot" "?m ''MemAvailable'' = Some av" "?m ''MemFree'' = Some fr" by blast
  have o: "unat (optional_kib ?m key) = kib_of es key" for key
    by (simp add: optional_kib_def kib_of_def split: option.split)
  have k: "kib_of es ''MemTotal'' = unat tot" "kib_of es ''MemAvailable'' = unat av" "kib_of es ''MemFree'' = unat fr"
    using v by (simp_all add: kib_of_def)
  have b: "unat tot < 2 ^ 54" "unat av < 2 ^ 54" "unat fr < 2 ^ 54" "kib_of es ''Buffers'' < 2 ^ 54"
    "kib_of es ''Cached'' < 2 ^ 54" "kib_of es ''SwapTotal'' < 2 ^ 54" "kib_of es ''SwapFree'' < 2 ^ 54"
    using assms(4) k by (auto simp: memory_keys_def)
  show ?thesis
    unfolding r memory_metrics_of_def required_meminfo_kib_def Let_def v k
    using b by (simp add: kib_bytes o)
qed

text \<open>A text with a line without unit, a repeated key, and less swap than is free.\<close>

definition demo_meminfo :: "(string \<times> u64) list" where
  "demo_meminfo = [(''MemTotal'', 16384), (''MemFree'', 1), (''MemAvailable'', 8192), (''HugePages_Total'', 0),
     (''Cached'', 512), (''MemFree'', 4096), (''SwapTotal'', 64), (''SwapFree'', 65)]"

definition demo_pad :: "string \<Rightarrow> string" where
  "demo_pad k = replicate (16 - length k) (CHR '' '')"

definition demo_kb :: "string \<Rightarrow> bool" where
  "demo_kb k = (k \<noteq> ''HugePages_Total'')"

lemma demo_meminfo_keys: "list_all (\<lambda>e. meminfo_key demo_pad (fst e)) demo_meminfo"
  by (simp add: demo_meminfo_def meminfo_key_def plain_def plain_char_def byte_def demo_pad_def
      gap_def blank_def numeral_eq_Suc)

theorem meminfo_roundtrip_witness:
  "\<exists>mm. read_memory_metrics (\<lambda>_. Inr (text_of (map (meminfo_line demo_pad demo_kb) demo_meminfo))) = Inr mm
    \<and> unat (mm_total_bytes mm) = 1024 * 16384 \<and> unat (mm_free_bytes mm) = 1024 * 4096
    \<and> unat (mm_used_bytes mm) = 1024 * 8192 \<and> unat (mm_buffers_bytes mm) = 0
    \<and> unat (mm_cached_bytes mm) = 1024 * 512 \<and> unat (mm_swap_used_bytes mm) = 0"
proof -
  have "{''MemTotal'', ''MemAvailable'', ''MemFree''} \<subseteq> fst ` set demo_meminfo"
    by (simp add: demo_meminfo_def)
  moreover have "\<forall>key \<in> set memory_keys. kib_of demo_meminfo key < 2 ^ 54"
    by (simp add: memory_keys_def kib_of_def demo_meminfo_def)
  ultimately show ?thesis
    using meminfo_roundtrip [of "\<lambda>_. Inr (text_of (map (meminfo_line demo_pad demo_kb) demo_meminfo))"
        demo_pad demo_kb demo_meminfo, OF refl demo_meminfo_keys]
    by (auto simp: kib_of_def demo_meminfo_def)
qed

end
