(* ===== verification/VmMetrics.thy ===== *)
theory VmMetrics
  imports ProcText
begin

text \<open>
  \<open>src/vm_metrics.rs\<close>: the metrics of one VM process, read from \<open>/proc/PID/stat\<close> and
  \<open>/proc/PID/status\<close>.  An \<open>io::Error\<close> is its text.
\<close>

section \<open>Readers\<close>

record vm_process_metrics =
  vp_collected_at :: string
  vp_pid :: u32
  vp_state :: string
  vp_rss_bytes :: u64
  vp_virtual_memory_bytes :: u64
  vp_cpu_user_ticks :: u64
  vp_cpu_system_ticks :: u64
  vp_cpu_total_ticks :: u64
  vp_thread_count :: u32

text \<open>The state is one \<open>char\<close>, kept as its UTF-8 bytes.\<close>

record proc_stat =
  ps_state :: string
  ps_utime :: u64
  ps_stime :: u64
  ps_num_threads :: u32

definition parse_u64_field :: "string \<Rightarrow> string \<Rightarrow> string + u64" where
  "parse_u64_field raw field =
     map_err (\<lambda>err. ''invalid '' @ field @ '': '' @ int_error_display err) (parse_u64 raw)"

definition parse_u32_field :: "string \<Rightarrow> string \<Rightarrow> string + u32" where
  "parse_u32_field raw field =
     map_err (\<lambda>err. ''invalid '' @ field @ '': '' @ int_error_display err) (parse_u32 raw)"

text \<open>\<open>str::get(n..)\<close> is \<open>None\<close> beyond the end or inside a character.\<close>

definition get_from :: "nat \<Rightarrow> string \<Rightarrow> string option" where
  "get_from n s =
     (if n = length s \<or> (n < length s \<and> \<not> cont_byte (byte (s ! n))) then Some (drop n s) else None)"

definition first_char :: "string \<Rightarrow> string option" where
  "first_char s = (if s = [] then None else Some (take (fst (utf8_step s)) s))"

definition parse_proc_stat :: "string \<Rightarrow> string + proc_stat" where
  "parse_proc_stat raw =
     (case rfind (CHR '')'') raw of
        None \<Rightarrow> Inl (''invalid /proc stat format: missing '' @ quoted '')'')
      | Some right_paren \<Rightarrow>
      (case get_from (right_paren + 1) raw of
        None \<Rightarrow> Inl ''invalid /proc stat format: truncated fields''
      | Some after \<Rightarrow>
        (let ws = split_whitespace after in
         if length ws < 18 then Inl ''invalid /proc stat format: too few fields''
         else
           (case first_char (ws ! 0) of
              None \<Rightarrow> Inl ''missing process state''
            | Some state \<Rightarrow>
            (case parse_u64_field (ws ! 11) ''utime'' of
              Inl err \<Rightarrow> Inl err
            | Inr utime \<Rightarrow>
            (case parse_u64_field (ws ! 12) ''stime'' of
              Inl err \<Rightarrow> Inl err
            | Inr stime \<Rightarrow>
            (case parse_u32_field (ws ! 17) ''num_threads'' of
              Inl err \<Rightarrow> Inl err
            | Inr num_threads \<Rightarrow>
                Inr \<lparr>ps_state = state, ps_utime = utime, ps_stime = stime,
                     ps_num_threads = num_threads\<rparr>)))))))"

text \<open>Lines without a colon, without a value or whose value is no number are skipped.\<close>

definition status_entry :: "string \<Rightarrow> (string \<times> u64) option" where
  "status_entry line =
     (case split_once (CHR '':'') line of
        None \<Rightarrow> None
      | Some (key_raw, value_raw) \<Rightarrow>
          (case split_whitespace value_raw of
             [] \<Rightarrow> None
           | value # _ \<Rightarrow>
               (case parse_u64 value of
                  Inl _ \<Rightarrow> None
                | Inr parsed \<Rightarrow> Some (trim key_raw, parsed))))"

fun status_loop :: "string list \<Rightarrow> (string \<rightharpoonup> u64) \<Rightarrow> (string \<rightharpoonup> u64)" where
  "status_loop [] out = out"
| "status_loop (line # lines) out =
     (case status_entry line of
        None \<Rightarrow> status_loop lines out
      | Some (k, v) \<Rightarrow> status_loop lines (out(k \<mapsto> v)))"

definition parse_status_kib :: "string \<Rightarrow> string + (string \<rightharpoonup> u64)" where
  "parse_status_kib raw = Inr (status_loop (str_lines raw) (\<lambda>_. None))"

definition proc_path :: "u32 \<Rightarrow> string \<Rightarrow> string" where
  "proc_path pid file = ''/proc/'' @ show_nat (unat pid) @ ''/'' @ file"

definition collect_vm_process_metrics ::
  "read_file \<Rightarrow> string \<Rightarrow> u32 \<Rightarrow> string + vm_process_metrics" where
  "collect_vm_process_metrics read collected_at pid =
     (case read (proc_path pid ''stat'') of Inl err \<Rightarrow> Inl err | Inr stat_raw \<Rightarrow>
     (case parse_proc_stat stat_raw of Inl err \<Rightarrow> Inl err | Inr stat \<Rightarrow>
     (case read (proc_path pid ''status'') of Inl err \<Rightarrow> Inl err | Inr status_raw \<Rightarrow>
     (case parse_status_kib status_raw of Inl err \<Rightarrow> Inl err | Inr status \<Rightarrow>
       (let rss_kib = (case status ''VmRSS'' of Some v \<Rightarrow> v | None \<Rightarrow> 0);
            vm_size_kib = (case status ''VmSize'' of Some v \<Rightarrow> v | None \<Rightarrow> 0)
        in Inr \<lparr>vp_collected_at = collected_at, vp_pid = pid, vp_state = ps_state stat,
                vp_rss_bytes = kib_to_bytes rss_kib,
                vp_virtual_memory_bytes = kib_to_bytes vm_size_kib,
                vp_cpu_user_ticks = ps_utime stat, vp_cpu_system_ticks = ps_stime stat,
                vp_cpu_total_ticks = sat_add (ps_utime stat) (ps_stime stat),
                vp_thread_count = ps_num_threads stat\<rparr>)))))"

section \<open>What the kernel writes\<close>

text \<open>
  The line of \<open>/proc/PID/stat\<close>: the PID, the command in parentheses, in which any byte may
  occur, and the other fields.  A line of \<open>/proc/PID/status\<close>: a key, a colon and words, each after
  some blanks.
\<close>

definition stat_text :: "nat \<Rightarrow> string \<Rightarrow> string list \<Rightarrow> string" where
  "stat_text pid comm ws = show_nat pid @ '' ('' @ comm @ '')'' @ spaced ws @ [chr 10]"

definition status_line :: "string \<times> (string \<times> string) list \<Rightarrow> string" where
  "status_line e = fst e @ '':'' @ spread (snd e)"

definition status_ok :: "string \<times> (string \<times> string) list \<Rightarrow> bool" where
  "status_ok e = (plain (fst e) \<and> CHR '':'' \<notin> set (fst e) \<and> list_all (\<lambda>(g, w). gap g \<and> plain w) (snd e))"

definition number_of :: "string \<times> (string \<times> string) list \<Rightarrow> (string \<times> u64) option" where
  "number_of e =
     (case snd e of [] \<Rightarrow> None | (_, w) # _ \<Rightarrow>
       (case parse_u64 w of Inl _ \<Rightarrow> None | Inr v \<Rightarrow> Some (fst e, v)))"

lemma parse_field_show [simp]:
  "parse_u64_field (show_nat (unat (x :: u64))) f = Inr x"
  "parse_u32_field (show_nat (unat (y :: u32))) f = Inr y"
  using parse_show_nat [of "unat x" "2 ^ 64 - 1"] unat_u64_less [of x]
    parse_show_nat [of "unat y" "2 ^ 32 - 1"] unsigned_less [of y, where ?'a = nat]
  by (simp_all add: parse_u64_field_def parse_u64_def parse_u32_field_def parse_u32_def)

lemma spaced_no_paren: "list_all (\<lambda>w. CHR '')'' \<notin> set w) ws \<Longrightarrow> CHR '')'' \<notin> set (spaced ws)"
  by (induction ws) (auto simp: spaced_def)

lemma split_ws_newline:
  assumes "list_all plain ws"
  shows "split_ws acc (spaced ws @ [chr 10]) = (if acc = [] then [] else [rev acc]) @ ws"
  using assms
proof (induction ws arbitrary: acc)
  case Nil
  have "split_ws acc [chr 10] = (if acc = [] then [] else [rev acc]) @ split_ws [] []"
    using split_ws_space(2) [of acc "[]"] by (simp only: newline_char)
  then show ?case by (simp add: spaced_def split_ws_Nil)
next
  case (Cons w ws)
  then have w: "list_all plain_char w" "w \<noteq> []" by (simp_all add: plain_def)
  have "split_ws acc (spaced (w # ws) @ [chr 10])
      = (if acc = [] then [] else [rev acc]) @ split_ws [] (w @ spaced ws @ [chr 10])"
    by (simp add: spaced_def split_ws_space)
  also have "split_ws [] (w @ spaced ws @ [chr 10]) = split_ws (rev w) (spaced ws @ [chr 10])"
    using split_ws_plain [OF w(1), of "[]"] by simp
  also have "\<dots> = w # ws" using Cons w by simp
  finally show ?case by simp
qed

lemma first_char_plain: "plain [c] \<Longrightarrow> first_char [c] = Some [c]"
  by (simp add: first_char_def utf8_step_def utf8_width_def byte_at_def plain_def plain_char_def)

lemma get_from_after:
  assumes "post \<noteq> []" and "\<not> cont_byte (byte (post ! 0))"
  shows "get_from (length pre + 1) (pre @ x # post) = Some post"
  using assms by (simp add: get_from_def nth_append)

text \<open>The command never disturbs the fields: what follows the last parenthesis is read.\<close>

lemma parse_stat_text:
  assumes "plain [c]" and "list_all plain ws" and "list_all (\<lambda>w. CHR '')'' \<notin> set w) ([c] # ws)"
    and "17 \<le> length ws" and "ws ! 10 = show_nat (unat (u :: u64))"
    and "ws ! 11 = show_nat (unat (s :: u64))" and "ws ! 16 = show_nat (unat (n :: u32))"
  shows "parse_proc_stat (stat_text pid comm ([c] # ws))
    = Inr \<lparr>ps_state = [c], ps_utime = u, ps_stime = s, ps_num_threads = n\<rparr>"
proof -
  let ?pre = "show_nat pid @ '' ('' @ comm" and ?post = "spaced ([c] # ws) @ [chr 10]"
  have t: "stat_text pid comm ([c] # ws) = ?pre @ CHR '')'' # ?post" by (simp add: stat_text_def)
  have nl: "CHR '')'' \<noteq> chr 10"
  proof
    assume "CHR '')'' = chr 10"
    then have "byte (CHR '')'') = byte (chr 10)" by (rule arg_cong)
    then show False by (simp add: byte_def chr_def)
  qed
  have "CHR '')'' \<notin> set ?post" using spaced_no_paren [OF assms(3)] nl by simp
  then have r: "rfind (CHR '')'') (stat_text pid comm ([c] # ws)) = Some (length ?pre)"
    unfolding t by (rule rfind_last)
  have sp: "?post ! 0 = CHR '' ''" "?post \<noteq> []" by (simp_all add: spaced_def)
  have g: "get_from (length ?pre + 1) (stat_text pid comm ([c] # ws)) = Some ?post"
    unfolding t by (rule get_from_after) (use sp in \<open>simp_all add: cont_byte_def byte_space\<close>)
  have w: "split_whitespace ?post = [c] # ws"
    using split_ws_newline [of "[c] # ws" "[]"] assms(1,2) by (simp add: split_whitespace_def)
  have i: "([c] # ws) ! 11 = ws ! 10" "([c] # ws) ! 12 = ws ! 11" "([c] # ws) ! 17 = ws ! 16"
    by (simp_all add: nth_Cons')
  show ?thesis
    unfolding parse_proc_stat_def r option.case g w Let_def i assms(5-7)
    using assms(4) first_char_plain [OF assms(1)] by simp
qed

lemma status_entry_line:
  assumes "status_ok e"
  shows "status_entry (status_line e) = number_of e"
proof -
  have "split_once (CHR '':'') (status_line e) = Some (fst e, spread (snd e))"
    using assms(1) split_once_append by (simp add: status_line_def status_ok_def)
  then show ?thesis
    using assms split_whitespace_spread [of "snd e"] trim_plain [of "fst e"]
    by (simp add: status_entry_def number_of_def status_ok_def split: list.split sum.split)
qed

lemma status_loop_lines:
  "list_all status_ok es \<Longrightarrow>
   status_loop (map status_line es) m = m ++ map_of (rev (List.map_filter number_of es))"
proof (induction es arbitrary: m)
  case (Cons e es)
  then show ?case
    by (cases "number_of e")
      (auto simp: status_entry_line map_filter_simps map_add_def fun_eq_iff split: option.split)
qed (simp add: map_filter_simps)

lemma is_line_status:
  assumes "status_ok e"
  shows "is_line (status_line e)"
proof (rule is_lineI)
  have "line_char (CHR '':'')" by (simp add: line_char_byte byte_def)
  then show "list_all line_char (status_line e)"
    using assms line_chars_spread [of "snd e"]
    by (simp add: status_line_def status_ok_def line_chars_plain)
qed

lemma parse_status_text:
  assumes "list_all status_ok es"
  shows "parse_status_kib (text_of (map status_line es)) = Inr (map_of (rev (List.map_filter number_of es)))"
proof -
  have "str_lines (text_of (map status_line es)) = map status_line es"
    using assms by (intro lines_text_of) (auto simp: list_all_iff is_line_status)
  then show ?thesis
    using status_loop_lines [OF assms, of "\<lambda>_. None"] by (simp add: parse_status_kib_def map_add_def)
qed

text \<open>
  C29: VM process metrics.  Whatever the process is called (spaces and parentheses included),
  the fields the kernel writes for its state, its user and system ticks and its threads come
  back exactly, the total is their sum when it fits, and resident and virtual size are the
  values of the status file in bytes, zero when it has none.
\<close>

theorem vm_process_metrics_roundtrip:
  assumes "read (proc_path pid ''stat'') = Inr (stat_text (unat pid) comm ([c] # ws))"
    and "plain [c]" and "list_all plain ws" and "list_all (\<lambda>w. CHR '')'' \<notin> set w) ([c] # ws)"
    and "17 \<le> length ws" and "ws ! 10 = show_nat (unat u)" and "ws ! 11 = show_nat (unat s)"
    and "ws ! 16 = show_nat (unat n)" and "unat u + unat s < 2 ^ 64"
    and "read (proc_path pid ''status'') = Inr (text_of (map status_line es))"
    and "list_all status_ok es"
    and "\<forall>k v. map_of (rev (List.map_filter number_of es)) k = Some v \<longrightarrow> unat v < 2 ^ 54"
  shows "\<exists>vp. collect_vm_process_metrics read at pid = Inr vp
    \<and> vp_state vp = [c] \<and> vp_cpu_user_ticks vp = u \<and> vp_cpu_system_ticks vp = s
    \<and> vp_thread_count vp = n \<and> unat (vp_cpu_total_ticks vp) = unat u + unat s
    \<and> unat (vp_rss_bytes vp)
        = (case map_of (rev (List.map_filter number_of es)) ''VmRSS'' of None \<Rightarrow> 0 | Some v \<Rightarrow> 1024 * unat v)
    \<and> unat (vp_virtual_memory_bytes vp)
        = (case map_of (rev (List.map_filter number_of es)) ''VmSize'' of None \<Rightarrow> 0 | Some v \<Rightarrow> 1024 * unat v)"
proof -
  have fits: "unat (kib_to_bytes v) = 1024 * unat v"
    if "map_of (rev (List.map_filter number_of es)) k = Some v" for k and v :: u64
    using that assms(12) by (blast intro: unat_kib_exact)
  have stat: "parse_proc_stat (stat_text (unat pid) comm ([c] # ws))
      = Inr \<lparr>ps_state = [c], ps_utime = u, ps_stime = s, ps_num_threads = n\<rparr>"
    by (rule parse_stat_text [OF assms(2-8)])
  show ?thesis
    using assms(9)
    by (auto simp: collect_vm_process_metrics_def assms(1,10) stat parse_status_text [OF assms(11)]
        Let_def kib_to_bytes_0 fits split: option.split)
qed

definition demo_stat_words :: "string list" where
  "demo_stat_words = map show_nat [1, 2, 3, 4, 5, 6, 7, 8, 9, 10, 120, 80, 13, 14, 15, 16, 8, 18]"

definition demo_status_file :: "(string \<times> (string \<times> string) list) list" where
  "demo_status_file = [(''State'', [([chr 9], ''S''), ('' '', ''(sleeping)'')]),
     (''VmRSS'', [([chr 9, chr 32, chr 32], show_nat (unat (2048 :: u64))), ('' '', ''kB'')])]"

definition demo_files :: read_file where
  "demo_files path =
     Inr (if path = proc_path 42 ''stat'' then stat_text 42 ''demo) vm'' (''S'' # demo_stat_words)
          else text_of (map status_line demo_status_file))"

lemma demo_status_file_ok: "list_all status_ok demo_status_file"
  by (simp add: demo_status_file_def status_ok_def plain_show_nat)
    (simp add: plain_def plain_char_def gap_def blank_def byte_def chr_def)

lemma number_of_show: "number_of (k, (g, show_nat (unat (v :: u64))) # ws) = Some (k, v)"
  using parse_show_nat [of "unat v" "2 ^ 64 - 1"] unat_u64_less [of v]
  by (simp add: number_of_def parse_u64_def)

lemma demo_numbers: "List.map_filter number_of demo_status_file = [(''VmRSS'', 2048)]"
proof -
  have "number_of (''State'', [([chr 9], ''S''), ('' '', ''(sleeping)'')]) = None"
    by (simp add: number_of_def parse_u64_def parse_uint_def digit_val_def byte_def)
  moreover have "number_of (''VmRSS'', (g, show_nat (unat (2048 :: u64))) # ws) = Some (''VmRSS'', 2048)"
    for g ws by (rule number_of_show)
  ultimately show ?thesis by (simp add: demo_status_file_def map_filter_simps)
qed

lemma digits_no_paren: "CHR '')'' \<notin> set (show_nat n)"
  using show_nat_digits [of "CHR '')''" n] by (auto simp: byte_def)

theorem vm_process_metrics_roundtrip_witness:
  "\<exists>vp. collect_vm_process_metrics demo_files ''now'' 42 = Inr vp
    \<and> vp_state vp = ''S'' \<and> vp_cpu_user_ticks vp = 120 \<and> unat (vp_cpu_total_ticks vp) = 200
    \<and> unat (vp_rss_bytes vp) = 1024 * 2048 \<and> unat (vp_virtual_memory_bytes vp) = 0"
proof -
  have f: "demo_files (proc_path 42 ''stat'')
      = Inr (stat_text (unat (42 :: u32)) ''demo) vm'' (''S'' # demo_stat_words))"
    "demo_files (proc_path 42 ''status'') = Inr (text_of (map status_line demo_status_file))"
    by (simp_all add: demo_files_def proc_path_def)
  have s: "plain ''S''" by (simp add: plain_def plain_char_def byte_def)
  have w: "list_all plain demo_stat_words" by (simp add: demo_stat_words_def plain_show_nat)
  have p: "list_all (\<lambda>w. CHR '')'' \<notin> set w) (''S'' # demo_stat_words)"
    by (simp add: demo_stat_words_def digits_no_paren)
  have i: "17 \<le> length demo_stat_words" "demo_stat_words ! 10 = show_nat (unat (120 :: u64))"
    "demo_stat_words ! 11 = show_nat (unat (80 :: u64))"
    "demo_stat_words ! 16 = show_nat (unat (8 :: u32))"
    by (simp_all add: demo_stat_words_def)
  have bound: "\<forall>k v. map_of (rev (List.map_filter number_of demo_status_file)) k = Some v \<longrightarrow> unat v < 2 ^ 54"
    by (simp add: demo_numbers)
  have sum: "unat (120 :: u64) + unat (80 :: u64) < 2 ^ 64" by simp
  show ?thesis
    using vm_process_metrics_roundtrip [of demo_files 42 "''demo) vm''" "CHR ''S''" demo_stat_words
        120 80 8 demo_status_file "''now''", OF f(1) s w p i sum f(2) demo_status_file_ok bound]
    by (auto simp: demo_numbers)
qed

end
