(* ===== verification/Api.thy ===== *)
theory Api
  imports ServiceProps HostMetrics VmMetrics
begin

text \<open>
  \<open>src/api.rs\<close>: the REST handlers.  A call is a constructor of \<open>api_call\<close> with what the
  handler extracts (the path parameter, the parsed body); \<open>route\<close> is the method and path
  template it is registered under; \<open>serve\<close> runs its handler.  Matching paths, decoding and
  encoding JSON and writing the response are axum's and serde's.

  The handlers that read the pool themselves use operations \<open>pool_service\<close> does not name;
  the locale \<open>pool_api\<close> extends it by their laws.
\<close>

section \<open>Calls and answers\<close>

datatype api_call =
    Health | Host_metrics | List_vms | Get_vm string | Create_vm boot_config | Delete_vm string
  | Reboot_vm string | Pause_vm string | Resume_vm string | Snapshot_vm string string
  | Proxy_info string | Proxy_counters string | Vm_metrics string

fun route :: "api_call \<Rightarrow> http_method \<times> string" where
  "route Health = (Method_GET, ''/health'')"
| "route Host_metrics = (Method_GET, ''/metrics'')"
| "route List_vms = (Method_GET, ''/vms'')"
| "route (Create_vm payload) = (Method_POST, ''/vms'')"
| "route (Get_vm name) = (Method_GET, ''/vms/{name}'')"
| "route (Delete_vm name) = (Method_DELETE, ''/vms/{name}'')"
| "route (Reboot_vm name) = (Method_PUT, ''/vms/{name}/reboot'')"
| "route (Pause_vm name) = (Method_PUT, ''/vms/{name}/pause'')"
| "route (Resume_vm name) = (Method_PUT, ''/vms/{name}/resume'')"
| "route (Snapshot_vm name dest) = (Method_PUT, ''/vms/{name}/snapshot'')"
| "route (Proxy_info name) = (Method_GET, ''/vms/{name}/info'')"
| "route (Proxy_counters name) = (Method_GET, ''/vms/{name}/counters'')"
| "route (Vm_metrics name) = (Method_GET, ''/vms/{name}/metrics'')"

record health_response =
  he_service :: string
  he_version :: string
  he_pool_size :: nat
  he_pool_in_use :: nat
  he_pool_idle :: nat

record vm_metrics_response =
  vx_name :: string
  vx_pid :: u32
  vx_process :: vm_process_metrics
  vx_counters :: json

record http_response =
  ht_status :: u16
  ht_content_type :: "string option"
  ht_body :: string

datatype 'f api_answer =
    Health_answer health_response
  | Host_answer "'f host_metrics"
  | List_answer "vm_runtime list"
  | Runtime_answer vm_runtime
  | Ok_answer
  | Proxy_answer http_response
  | Metrics_answer vm_metrics_response

text \<open>
  What is not the daemon's: the files under \<open>/proc\<close>, the parser of floats, the number of
  cores, whether the \<open>http\<close> crate accepts a status and a content type for a response, and
  \<open>serde_json::from_slice\<close>.
\<close>

record 'f api_env =
  ae_read :: read_file
  ae_parse_f64 :: "'f parse_f64"
  ae_parallelism :: "nat option"
  ae_builder :: "u16 \<Rightarrow> string option \<Rightarrow> string + unit"
  ae_from_slice :: "string \<Rightarrow> string + json"

definition cargo_version :: string where
  "cargo_version = ''0.7.0''"

section \<open>Handlers\<close>

definition health :: "'w pool_facade \<Rightarrow> 'w service_env \<Rightarrow> 'w \<Rightarrow> (api_error + health_response) \<times> 'w" where
  "health F R w =
     (case pf_pool_usage_counts F (se_read_lock R w) of
        (Inl err, w1) \<Rightarrow> (Inl (api_error_from err), se_unlock R w1)
      | (Inr (pool_in_use, pool_idle), w1) \<Rightarrow>
          (Inr \<lparr>he_service = ''croutond'', he_version = cargo_version,
                he_pool_size = pf_pool_size F w1, he_pool_in_use = pool_in_use,
                he_pool_idle = pool_idle\<rparr>, se_unlock R w1))"

definition host_metrics_handler :: "'f api_env \<Rightarrow> string \<Rightarrow> api_error + 'f host_metrics" where
  "host_metrics_handler A now =
     map_err ApiBackend (collect_host_metrics (ae_read A) (ae_parse_f64 A) (ae_parallelism A) now)"

definition list_vms :: "'w pool_facade \<Rightarrow> 'w service_env \<Rightarrow> 'w \<Rightarrow> (api_error + vm_runtime list) \<times> 'w" where
  "list_vms F R w =
     (case pf_list_runtimes F (se_read_lock R w) of
        (r, w1) \<Rightarrow> (map_err api_error_from r, se_unlock R w1))"

definition get_vm :: "'w pool_facade \<Rightarrow> 'w service_env \<Rightarrow> string \<Rightarrow> 'w \<Rightarrow> (api_error + vm_runtime) \<times> 'w" where
  "get_vm F R name w =
     (case pf_find_runtime_by_name F name (se_read_lock R w) of
        (Inl err, w1) \<Rightarrow> (Inl (api_error_from err), se_unlock R w1)
      | (Inr (Some runtime), w1) \<Rightarrow> (Inr runtime, se_unlock R w1)
      | (Inr None, w1) \<Rightarrow>
          (case pf_find_slot_by_name F name w1 of
             (Inl err, w2) \<Rightarrow> (Inl (api_error_from err), se_unlock R w2)
           | (Inr (Some _), w2) \<Rightarrow>
               (Inl (Conflict (''VM '' @ quoted name @ '' is not running'')), se_unlock R w2)
           | (Inr None, w2) \<Rightarrow>
               (Inl (NotFound (''VM '' @ quoted name @ '' not found'')), se_unlock R w2)))"

definition snapshot_vm ::
  "'w pool_facade \<Rightarrow> 'w service_env \<Rightarrow> string \<Rightarrow> string \<Rightarrow> 'w \<Rightarrow> (api_error + unit) \<times> 'w" where
  "snapshot_vm F R name dest_path w =
     (if \<not> path_is_absolute dest_path
      then (Inl (Validation (Some ''destPath'') ''destPath must be absolute''), w)
      else proxy_action_by_name_with_body_for_pool F R name ''/api/v1/vm.snapshot''
             (JObj [(''destPath'', JStr dest_path)]) w)"

definition build_proxy_response :: "'f api_env \<Rightarrow> proxy_response \<Rightarrow> api_error + http_response" where
  "build_proxy_response A response =
     (case ae_builder A (pr_status response) (pr_content_type response) of
        Inl err \<Rightarrow> Inl (ApiBackend err)
      | Inr _ \<Rightarrow> Inr \<lparr>ht_status = pr_status response, ht_content_type = pr_content_type response,
                     ht_body = pr_body response\<rparr>)"

definition proxied ::
  "'f api_env \<Rightarrow> 'w pool_facade \<Rightarrow> 'w service_env \<Rightarrow> string \<Rightarrow> string \<Rightarrow> 'w
     \<Rightarrow> (api_error + http_response) \<times> 'w" where
  "proxied A F R name path w =
     (case proxy_passthrough_by_name_for_pool F R name path w of
        (Inl err, w1) \<Rightarrow> (Inl err, w1)
      | (Inr response, w1) \<Rightarrow> (build_proxy_response A response, w1))"

text \<open>The guard of the look-up is dropped before the counters are asked for.\<close>

definition vm_metrics ::
  "'f api_env \<Rightarrow> 'w pool_facade \<Rightarrow> 'w service_env \<Rightarrow> string \<Rightarrow> 'w
     \<Rightarrow> (api_error + vm_metrics_response) \<times> 'w" where
  "vm_metrics A F R name w =
     (case pf_find_runtime_by_name F name (se_read_lock R w) of
        (Inl err, w1) \<Rightarrow> (Inl (api_error_from err), se_unlock R w1)
      | (Inr None, w1) \<Rightarrow> (Inl (NotFound (''VM '' @ quoted name @ '' not found'')), se_unlock R w1)
      | (Inr (Some runtime), w1) \<Rightarrow>
          (case proxy_passthrough_by_name_for_pool F R name ''/api/v1/vm.counters'' (se_unlock R w1) of
             (Inl err, w2) \<Rightarrow> (Inl err, w2)
           | (Inr counters_response, w2) \<Rightarrow>
               (case ae_from_slice A (pr_body counters_response) of
                  Inl err \<Rightarrow> (Inl (ApiBackend (''invalid vm.counters payload: '' @ err)), w2)
                | Inr counters \<Rightarrow>
                    (case collect_vm_process_metrics (ae_read A) (se_now R w2) (vr_pid runtime) of
                       Inl err \<Rightarrow>
                         (Inl (ApiBackend (''failed to collect process metrics: '' @ err)), w2)
                     | Inr process \<Rightarrow>
                         (Inr \<lparr>vx_name = name, vx_pid = vr_pid runtime, vx_process = process,
                               vx_counters = counters\<rparr>, w2)))))"

definition answer :: "('a \<Rightarrow> 'f api_answer) \<Rightarrow> (api_error + 'a) \<times> 'w \<Rightarrow> (api_error + 'f api_answer) \<times> 'w" where
  "answer f rw = (map_sum id f (fst rw), snd rw)"

fun handle_call ::
  "'f api_env \<Rightarrow> 'w pool_facade \<Rightarrow> 'w service_env \<Rightarrow> api_call \<Rightarrow> 'w
     \<Rightarrow> ((api_error + 'f api_answer) \<times> 'w) option" where
  "handle_call A F R Health w = Some (answer Health_answer (health F R w))"
| "handle_call A F R Host_metrics w =
     Some (answer Host_answer (host_metrics_handler A (se_now R w), w))"
| "handle_call A F R List_vms w = Some (answer List_answer (list_vms F R w))"
| "handle_call A F R (Get_vm name) w = Some (answer Runtime_answer (get_vm F R name w))"
| "handle_call A F R (Create_vm payload) w =
     map_option (answer Runtime_answer) (create_vm_with_pool F R payload w)"
| "handle_call A F R (Delete_vm name) w =
     Some (answer (\<lambda>_. Ok_answer) (delete_vm_with_pool F R name w))"
| "handle_call A F R (Reboot_vm name) w =
     Some (answer (\<lambda>_. Ok_answer) (proxy_action_by_name F R name ''/api/v1/vm.reboot'' w))"
| "handle_call A F R (Pause_vm name) w =
     Some (answer (\<lambda>_. Ok_answer) (proxy_action_by_name F R name ''/api/v1/vm.pause'' w))"
| "handle_call A F R (Resume_vm name) w =
     Some (answer (\<lambda>_. Ok_answer) (proxy_action_by_name F R name ''/api/v1/vm.resume'' w))"
| "handle_call A F R (Snapshot_vm name dest) w =
     Some (answer (\<lambda>_. Ok_answer) (snapshot_vm F R name dest w))"
| "handle_call A F R (Proxy_info name) w =
     Some (answer Proxy_answer (proxied A F R name ''/api/v1/vm.info'' w))"
| "handle_call A F R (Proxy_counters name) w =
     Some (answer Proxy_answer (proxied A F R name ''/api/v1/vm.counters'' w))"
| "handle_call A F R (Vm_metrics name) w =
     Some (answer Metrics_answer (vm_metrics A F R name w))"

text \<open>
  \<open>serve\<close> is a handler run to its end, each wait for the lock taken to end.  \<open>call_outcome\<close>
  is what becomes of a request: \<open>None\<close>, it never returns, when one of its waits for the lock
  was denied, so that it stands behind a scale-down of the autoscaler.
\<close>

definition serve ::
  "'f api_env \<Rightarrow> pool_env \<Rightarrow> host_services \<Rightarrow> api_call \<Rightarrow> pool_world
     \<Rightarrow> ((api_error + 'f api_answer) \<times> pool_world) option" where
  "serve A E H call w = handle_call A (process_pool_facade E) (pool_service_env E H) call w"

definition call_outcome ::
  "'f api_env \<Rightarrow> pool_env \<Rightarrow> host_services \<Rightarrow> api_call \<Rightarrow> pool_world
     \<Rightarrow> ((api_error + 'f api_answer) \<times> pool_world) option" where
  "call_outcome A E H call w =
     Option.bind (serve A E H call w)
       (\<lambda>(r, w'). if denied_waits w' = denied_waits w then Some (r, w') else None)"

text \<open>The status line: 200, the error's status, or for a proxied call the VM's own.\<close>

fun http_status :: "api_error + 'f api_answer \<Rightarrow> nat" where
  "http_status (Inl err) = fst (into_response err)"
| "http_status (Inr (Proxy_answer r)) = unat (ht_status r)"
| "http_status (Inr a) = 200"

section \<open>The laws of the reading handlers\<close>

locale pool_api = pool_service F R J
  for F :: "'w pool_facade" and R :: "'w service_env" and J :: "lock_mode \<Rightarrow> 'w \<Rightarrow> bool" +
  assumes J_usage: "J Read_held w \<Longrightarrow> J Read_held (snd (pf_pool_usage_counts F w))"
    and J_list_runtimes: "J Read_held w \<Longrightarrow> J Read_held (snd (pf_list_runtimes F w))"
    and J_find_runtime: "J Read_held w \<Longrightarrow> J Read_held (snd (pf_find_runtime_by_name F name w))"
begin

lemma J_health: "J Unlocked w \<Longrightarrow> J Unlocked (snd (health F R w))"
  using J_usage [OF J_read_lock, of w]
  by (auto simp: health_def intro: J_unlock_read split: sum.splits prod.splits)

lemma J_list_vms: "J Unlocked w \<Longrightarrow> J Unlocked (snd (list_vms F R w))"
  using J_list_runtimes [OF J_read_lock, of w]
  by (auto simp: list_vms_def intro: J_unlock_read split: prod.splits)

lemma J_get_vm:
  assumes "J Unlocked w"
  shows "J Unlocked (snd (get_vm F R name w))"
proof -
  obtain r w1 where f: "pf_find_runtime_by_name F name (se_read_lock R w) = (r, w1)" by fastforce
  have w1: "J Read_held w1" using J_find_runtime [OF J_read_lock [OF assms], of name] f by simp
  have "J Read_held (snd (pf_find_slot_by_name F name w1))" using w1 by (rule J_find)
  with f w1 show ?thesis
    by (auto simp: get_vm_def intro: J_unlock_read split: sum.splits prod.splits option.splits)
qed

lemma J_snapshot: "J Unlocked w \<Longrightarrow> J Unlocked (snd (snapshot_vm F R name dest w))"
  by (simp add: snapshot_vm_def J_proxy_action)

lemma J_proxied: "J Unlocked w \<Longrightarrow> J Unlocked (snd (proxied A F R name path w))"
  using J_passthrough [of w name path]
  by (auto simp: proxied_def split: sum.splits prod.splits)

lemma J_vm_metrics:
  assumes "J Unlocked w"
  shows "J Unlocked (snd (vm_metrics A F R name w))"
proof -
  obtain r w1 where f: "pf_find_runtime_by_name F name (se_read_lock R w) = (r, w1)" by fastforce
  have "J Read_held w1" using J_find_runtime [OF J_read_lock [OF assms], of name] f by simp
  then have u: "J Unlocked (se_unlock R w1)" by (rule J_unlock)
  then have "J Unlocked (snd (proxy_passthrough_by_name_for_pool F R name ''/api/v1/vm.counters'' (se_unlock R w1)))"
    by (rule J_passthrough)
  with f u show ?thesis
    by (auto simp: vm_metrics_def split: sum.splits prod.splits option.splits)
qed

lemma J_handle_call:
  assumes "handle_call A F R call w = Some (r, w')" and "J Unlocked w"
  shows "J Unlocked w'"
proof (cases call)
  case (Create_vm c)
  with assms show ?thesis by (auto simp: answer_def dest: J_create)
next
  case (Reboot_vm name)
  with assms J_proxy_action show ?thesis by (auto simp: answer_def proxy_action_by_name_def)
next
  case (Pause_vm name)
  with assms J_proxy_action show ?thesis by (auto simp: answer_def proxy_action_by_name_def)
next
  case (Resume_vm name)
  with assms J_proxy_action show ?thesis by (auto simp: answer_def proxy_action_by_name_def)
qed (use assms J_health J_list_vms J_get_vm J_delete J_snapshot J_proxied J_vm_metrics
  in \<open>auto simp: answer_def\<close>)

end

lemma usage_steps: "pool_steps (pw_pool w) (pw_pool (snd (pool_usage E w)))"
  using list_vm_slots_steps [of w E] by (auto simp: pool_usage_def Let_def split: sum.splits prod.splits)

lemma list_running_steps: "pool_steps (pw_pool w) (pw_pool (snd (list_running_vms E w)))"
  using list_vm_slots_steps [of w E] by (auto simp: list_running_vms_def split: sum.splits prod.splits)

lemma find_runtime_steps: "pool_steps (pw_pool w) (pw_pool (snd (find_vm_runtime_by_name E name w)))"
  using list_running_steps [of w E] by (auto simp: find_vm_runtime_by_name_def split: sum.splits prod.splits)

lemma reader_lock [frame_simps]:
  "pw_lock (snd (pool_usage E w)) = pw_lock w"
  "pw_lock (snd (list_running_vms E w)) = pw_lock w"
  "pw_lock (snd (find_vm_runtime_by_name E name w)) = pw_lock w"
  using list_vm_slots_lock [of E w]
  by (auto simp: pool_usage_def list_running_vms_def find_vm_runtime_by_name_def Let_def
      split: sum.splits prod.splits)

lemma reader_grows:
  "grows (pw_pool w) (pw_pool (snd (pool_usage E w)))"
  "grows (pw_pool w) (pw_pool (snd (list_running_vms E w)))"
  "grows (pw_pool w) (pw_pool (snd (find_vm_runtime_by_name E name w)))"
  using list_vm_slots_grows [of w E]
  by (auto simp: pool_usage_def list_running_vms_def find_vm_runtime_by_name_def Let_def
      split: sum.splits prod.splits)

interpretation papi: pool_api "process_pool_facade E" "pool_service_env E H" "reached p"
  for E H p
  by unfold_locales
    (simp_all add: reached_def frame_simps pool_steps_trans [OF usage_steps]
      pool_steps_trans [OF list_running_steps] pool_steps_trans [OF find_runtime_steps])

end
