(* ===== verification/PoolScale.thy ===== *)
theory PoolScale
  imports PoolOutcome
begin

text \<open>
  Scaling down and shutting down: why the autoscaler's scale-down hangs while it holds the
  write lock, what the fix would give, and that the final shutdown returns with every child
  ended.  The usage counts follow.
\<close>

section \<open>Joining a worker\<close>

lemma constrain_quiet: "quiet_turn (constrain_turn False True li)"
  by (simp add: quiet_turn_def constrain_turn_def split: select_outcome.split)

text \<open>With its sender alive and no shutdown, a running worker is never joined.\<close>

lemma join_worker_blocked:
  assumes "h_alive h"
  shows "join_worker turns False True h = None"
proof -
  have "list_all quiet_turn (map (constrain_turn False True) turns)"
    by (simp add: list_all_iff constrain_quiet)
  then have "\<not> snd (supervise_slot (h_bridge h) (map (constrain_turn False True) turns) (h_runtime h))"
    by (rule supervise_slot_quiet)
  with assms show ?thesis by (auto simp: join_worker_def split: prod.split)
qed

lemma join_worker_shutdown:
  assumes "turns = t # ts" and "h_alive h"
  shows "join_worker turns True True h =
    Some (h\<lparr>h_runtime := stop_worker (li_stop t) (h_runtime h), h_alive := False\<rparr>)"
  using assms supervise_slot_shutdown [of "constrain_turn True True t"]
  by (simp add: join_worker_def constrain_turn_def Let_def)

text \<open>
  Had the sender been dropped before the join, the worker would end within two turns: the
  first may still handle a command left in the channel, the next finds the channel closed.
\<close>

lemma join_worker_sender_dropped:
  assumes "h_alive h" and "li_select t \<noteq> Sel_shutdown_value v"
    and "\<forall>os cmd. li_select t \<noteq> Sel_command os cmd" and "\<forall>v. li_select t \<noteq> Sel_shutdown_value v"
  shows "\<exists>h'. join_worker (t # ts) False False h = Some h' \<and> \<not> h_alive h'"
proof -
  have "li_select (constrain_turn False False t) = Sel_channel_closed"
    using assms(3,4) by (simp add: constrain_turn_def split: select_outcome.split)
  then have "lr_break (supervise_iteration (h_bridge h) (constrain_turn False False t) (h_runtime h))"
    by (simp add: supervise_iteration_break)
  with assms(1) show ?thesis by (simp add: join_worker_def Let_def)
qed

section \<open>The autoscaler\<close>

lemma scale_down_blocked:
  assumes "pw_lock w = Write_held" and "\<not> pp_shutdown (pw_pool w)"
    and "pp_min (pw_pool w) < length (pp_slots (pw_pool w))"
    and "\<And>t. pp_last_scale_down (pw_pool w) = Some t \<Longrightarrow> pp_cooldown (pw_pool w) \<le> pw_clock w - t"
    and "get_vm_slot_status E (length (pp_slots (pw_pool w)) - 1) w = (Inr st, w1)"
    and "ss_state st = Empty"
  shows "autoscale_tick E turns w = None"
proof -
  let ?n = "length (pp_slots (pw_pool w))"
  have s: "send_command E (?n - 1) GetVmStatus w = (Inr st, w1)"
    using assms(5) by (simp add: get_vm_slot_status_def)
  have calm: "calm (pw_pool w) (pw_pool w1)"
    using calm_get_status [OF write_locked [OF assms(1)], of E "?n - 1"] assms(5) by simp
  then have n: "length (pp_slots (pw_pool w1)) = ?n" and sd: "\<not> pp_shutdown (pw_pool w1)"
    using assms(2) by (simp_all add: calm_def)
  have ne: "pp_slots (pw_pool w1) \<noteq> []" using n assms(3) by auto
  then have "last (pp_slots (pw_pool w1)) = pp_slots (pw_pool w1) ! (?n - 1)"
    by (simp add: last_conv_nth n)
  then have "join_worker turns False True (last (pp_slots (pw_pool w1))) = None"
    using send_get_status(5) [OF s] by (simp add: join_worker_blocked)
  with assms(3,4,5,6) sd ne show ?thesis
    by (auto simp: autoscale_tick_def Let_def not_le not_less split: option.splits)
qed

text \<open>
  C9: A scale-down never returns.  When the pool is above its minimum, the cool-down is
  over and the last slot reports itself empty, the tick removes the slot and then waits for
  its worker for ever, however many turns the worker takes: the removed handle still owns
  the only sender of the worker's command channel, so the channel does not close, and no
  shutdown has been signalled.  The caller holds the pool's write lock all the while.
\<close>

theorem autoscale_scale_down_never_returns:
  assumes "pw_lock w = Write_held" and "\<not> pp_shutdown (pw_pool w)"
    and "pp_min (pw_pool w) < length (pp_slots (pw_pool w))"
    and "\<And>t. pp_last_scale_down (pw_pool w) = Some t \<Longrightarrow> pp_cooldown (pw_pool w) \<le> pw_clock w - t"
    and "get_vm_slot_status E (length (pp_slots (pw_pool w)) - 1) w = (Inr st, w1)"
    and "ss_state st = Empty"
  shows "autoscale_tick E turns w = None"
  using assms by (rule scale_down_blocked)

definition scaled_pool :: process_pool where
  "scaled_pool = extend_slots 1 demo_pool"

lemma scaled_pool_sel:
  "length (pp_slots scaled_pool) = 3" "pp_min scaled_pool = 2" "\<not> pp_shutdown scaled_pool"
  "pp_last_scale_down scaled_pool = None"
  by (simp_all add: scaled_pool_def del: One_nat_def) (simp_all add: demo_pool_def)

lemma scaled_pool_last: "slot_st scaled_pool 2 = initial_status 2"
  using slot_st_extend_new [of demo_pool] by (simp add: scaled_pool_def)

lemma scaled_pool_status:
  "\<exists>w1. get_vm_slot_status demo_env 2 (demo_world Write_held scaled_pool)
      = (Inr (initial_status 2), w1)"
proof -
  have "all_alive scaled_pool"
    unfolding scaled_pool_def by (rule all_alive_extend [OF demo_pool_alive])
  then show ?thesis
    using get_status_quiet [OF demo_env_quiet, of "demo_world Write_held scaled_pool" 2]
    by (auto simp: scaled_pool_sel scaled_pool_last)
qed

theorem autoscale_scale_down_never_returns_witness:
  "autoscale_tick demo_env [demo_turn, demo_turn] (demo_world Write_held scaled_pool) = None"
proof -
  obtain w1 where g: "get_vm_slot_status demo_env 2 (demo_world Write_held scaled_pool)
      = (Inr (initial_status 2), w1)"
    using scaled_pool_status by blast
  have e: "ss_state (initial_status 2) = Empty" by (simp add: initial_status_def)
  show ?thesis
    by (rule autoscale_scale_down_never_returns [OF _ _ _ _ _ e, of _ _ w1])
      (simp_all add: scaled_pool_sel g)
qed

text \<open>
  A tick that starts scaling down never returns, at whatever time it holds the lock; the
  pool is as it is when its worker answers the tick's question.
\<close>

lemma scaling_down_blocked:
  assumes "scaling_down (pw_clock w) (pw_pool w)" and "pw_lock w = Write_held" and "quiet_env E"
  shows "autoscale_tick E turns w = None"
proof -
  let ?p = "pw_pool w"
  let ?n = "length (pp_slots ?p)"
  from assms(1) have p: "\<not> pp_shutdown ?p" "pp_min ?p < ?n" "h_alive (last (pp_slots ?p))"
    "ss_state (rt_status (h_runtime (last (pp_slots ?p)))) = Empty"
    "\<And>t. pp_last_scale_down ?p = Some t \<Longrightarrow> pp_cooldown ?p \<le> pw_clock w - t"
    by (auto simp: scaling_down_def)
  then have "pp_slots ?p \<noteq> []" by auto
  then have l: "last (pp_slots ?p) = pp_slots ?p ! (?n - 1)" "?n - 1 < ?n" by (simp_all add: last_conv_nth)
  have "fst (send_command E (?n - 1) GetVmStatus w) = Inr (slot_st ?p (?n - 1))"
    using l p(3) await_quiet [OF assms(3), of w]
    by (simp add: send_command_def handle_command.simps Let_def slot_st_def)
  then obtain w1 where "get_vm_slot_status E (?n - 1) w = (Inr (slot_st ?p (?n - 1)), w1)"
    by (metis get_vm_slot_status_def prod.collapse)
  moreover have "ss_state (slot_st ?p (?n - 1)) = Empty"
    using p(4) l by (simp add: slot_st_def slot_rt_def)
  ultimately show ?thesis using p by (intro scale_down_blocked [OF assms(2)])
qed

text \<open>
  While the pool is not shutting down, a tick that does return has not scaled
  down: its answer is False or an error, and the number of slots is unchanged.
\<close>

theorem autoscale_never_scales_down:
  assumes "pw_lock w = Write_held" and "\<not> pp_shutdown (pw_pool w)"
    and "autoscale_tick E turns w = Some (r, w')"
  shows "r \<noteq> Inr True \<and> length (pp_slots (pw_pool w')) = length (pp_slots (pw_pool w))"
proof -
  let ?n = "length (pp_slots (pw_pool w))"
  obtain s w1 where g: "get_vm_slot_status E (?n - 1) w = (s, w1)" by fastforce
  have len: "length (pp_slots (pw_pool w1)) = ?n"
    using calm_get_status [OF write_locked [OF assms(1)], of E "?n - 1"] g by (simp add: calm_def)
  show ?thesis
  proof (cases "\<exists>st. s = Inr st \<and> ss_state st = Empty \<and> pp_min (pw_pool w) < ?n
      \<and> (\<forall>t. pp_last_scale_down (pw_pool w) = Some t \<longrightarrow> pp_cooldown (pw_pool w) \<le> pw_clock w - t)")
    case True
    with g scale_down_blocked [OF assms(1,2)] assms(3) show ?thesis
      by (metis option.distinct(1))
  next
    case False
    with assms(3) g len show ?thesis
      by (auto simp: autoscale_tick_def Let_def not_le not_less
          split: option.splits if_splits sum.splits prod.splits)
  qed
qed

theorem autoscale_never_scales_down_witness:
  "autoscale_tick demo_env [] (demo_world Write_held demo_pool)
     = Some (Inr False, demo_world Write_held demo_pool)
   \<and> (Inr False :: pool_error + bool) \<noteq> Inr True"
proof -
  have t: "autoscale_tick demo_env [] (demo_world Write_held demo_pool)
     = Some (Inr False, demo_world Write_held demo_pool)"
    by (simp add: autoscale_tick_def Let_def) (simp add: demo_pool_def)
  moreover have "\<not> pp_shutdown demo_pool" by (simp add: demo_pool_def)
  ultimately show ?thesis
    using autoscale_never_scales_down [OF _ _ t] by simp
qed

text \<open>No action changes the size bounds, and a pool that cannot grow never scales down.\<close>

definition sizes_are :: "nat \<Rightarrow> nat \<Rightarrow> process_pool \<Rightarrow> bool" where
  "sizes_are mn mx p = (pp_min p = mn \<and> pp_max p = mx)"

interpretation sizes: pool_invariant "sizes_are mn mx" for mn mx
proof unfold_locales
  show "sizes_are mn mx p \<Longrightarrow> sizes_are mn mx (apply_action a p)" for p a
    by (cases a) (auto simp: sizes_are_def)
qed

lemma scaling_down_needs_room:
  assumes "pool_ok p" and "pool_steps p q" and "scaling_down now q"
  shows "pp_min p < pp_max p"
proof -
  have "size_ok q" using pool.J_steps [OF assms(2,1)] by (simp add: pool_ok_def)
  moreover have "sizes_are (pp_min p) (pp_max p) q"
    using sizes.J_steps [OF assms(2)] by (simp add: sizes_are_def)
  ultimately show ?thesis using assms(3) by (auto simp: size_ok_def sizes_are_def scaling_down_def)
qed

section \<open>Shutdown\<close>

definition joined :: "stop_outcome \<Rightarrow> slot_handle \<Rightarrow> slot_handle \<Rightarrow> bool" where
  "joined out h h' =
     (if h_alive h then h' = h\<lparr>h_runtime := stop_worker out (h_runtime h), h_alive := False\<rparr>
      else h' = h)"

lemma join_worker_joined:
  "turns \<noteq> [] \<Longrightarrow> \<exists>h'. join_worker turns True True h = Some h' \<and> joined (li_stop (hd turns)) h h'"
  by (cases turns; cases "h_alive h")
    (auto simp: join_worker_shutdown joined_def, simp_all add: join_worker_def)

lemma shutdown_loop_joined:
  assumes "turns \<noteq> []"
  shows "pp_shutdown p \<Longrightarrow> \<exists>hs. shutdown_loop turns p = Some (hs, p\<lparr>pp_slots := []\<rparr>)
     \<and> list_all2 (joined (li_stop (hd turns))) (pp_slots p) (rev hs)"
proof (induction "pp_slots p" arbitrary: p rule: rev_induct)
  case Nil
  then have "p\<lparr>pp_slots := []\<rparr> = p" by (cases p) simp
  with Nil show ?case by (simp add: shutdown_loop.simps)
next
  case (snoc h hs)
  let ?p = "p\<lparr>pp_slots := hs\<rparr>"
  obtain h' where h': "join_worker turns True True h = Some h'" "joined (li_stop (hd turns)) h h'"
    using join_worker_joined [OF assms, of h] by blast
  from snoc(1) [of ?p] snoc(3) obtain hs' where "shutdown_loop turns ?p = Some (hs', p\<lparr>pp_slots := []\<rparr>)"
    "list_all2 (joined (li_stop (hd turns))) hs (rev hs')" by auto
  with h' snoc(2,3) show ?case
    by (auto simp: shutdown_loop.simps [of turns p] Let_def snoc(2) [symmetric]
        intro!: list_all2_appendI)
qed

text \<open>
  What a shutdown leaves of a running worker: its handle, ended; its child, if it had one,
  sent a kill; the socket removed; and no process held.
\<close>

definition worker_ended :: "stop_outcome \<Rightarrow> slot_handle \<Rightarrow> slot_handle \<Rightarrow> bool" where
  "worker_ended out h h' =
     (\<not> h_alive h' \<and> h_socket h' = h_socket h
      \<and> rt_os (h_runtime h') = rt_os (h_runtime h)
          @ (case rt_child (h_runtime h) of Some c \<Rightarrow> [Os_stop c out] | None \<Rightarrow> []) @ [Os_unlink_socket]
      \<and> children_ended (h_runtime h'))"

lemma joined_worker_ended:
  assumes "h_alive h" and "children_accounted (h_runtime h)" and "joined out h h'"
  shows "worker_ended out h h'"
  using assms
  by (simp add: joined_def worker_ended_def stop_worker_accounted)
    (simp add: stop_worker_def cleanup_api_socket_def stop_child_def log_os_def split: option.split)

lemma shutdown_joins:
  assumes "turns \<noteq> []" and "all_alive p" and "all_slots (\<lambda>n. children_accounted) p"
  shows "\<exists>hs q. pool_shutdown turns p = Some (hs, q) \<and> pp_slots q = []
    \<and> list_all2 (worker_ended (li_stop (hd turns))) (pp_slots p) (rev hs)"
proof (cases "pp_slots p")
  case Nil
  then show ?thesis by (simp add: pool_shutdown_def shutdown_loop.simps)
next
  case (Cons h0 hs0)
  have al: "h_alive h \<and> children_accounted (h_runtime h)" if "h \<in> set (pp_slots p)" for h
    using that assms(2,3) by (auto simp: all_alive_def all_slots_def list_all_iff slot_rt_def in_set_conv_nth)
  then have "list_ex h_alive (pp_slots p)" using Cons by simp
  then obtain hs where j: "pool_shutdown turns p = Some (hs, p\<lparr>pp_shutdown := True, pp_slots := []\<rparr>)"
    and rel: "list_all2 (joined (li_stop (hd turns))) (pp_slots p) (rev hs)"
    using shutdown_loop_joined [OF assms(1), of "p\<lparr>pp_shutdown := True\<rparr>"]
    by (auto simp: pool_shutdown_def)
  have "list_all2 (worker_ended (li_stop (hd turns))) (pp_slots p) (rev hs)"
    using rel by (rule list.rel_mono_strong) (simp add: al joined_worker_ended)
  with j show ?thesis by simp
qed

text \<open>
  Shutdown ends every worker.  When every worker takes one more turn, the shutdown returns
  with an empty pool, and the handles it has joined are those of the pool's slots, the last
  first, each with its worker ended and its child stopped.
\<close>

theorem pool_shutdown_returns:
  assumes "turns \<noteq> []" and "all_alive p" and "all_slots (\<lambda>n. children_accounted) p"
  shows "\<exists>hs q. pool_shutdown turns p = Some (hs, q) \<and> pp_slots q = []
    \<and> list_all2 (worker_ended (li_stop (hd turns))) (pp_slots p) (rev hs)"
  using assms by (rule shutdown_joins)

theorem pool_shutdown_returns_witness:
  "\<exists>hs q. pool_shutdown [demo_turn] demo_pool = Some (hs, q) \<and> pp_slots q = [] \<and> length hs = 2"
proof -
  have "all_slots (\<lambda>n. children_accounted) demo_pool"
    by (simp add: all_slots_def demo_pool_slots children_accounted_initial)
  from pool_shutdown_returns [OF _ demo_pool_alive this, of "[demo_turn]"] show ?thesis
    by (auto dest: list_all2_lengthD)
qed

section \<open>Usage\<close>

lemma collect_length: "collect_statuses E is w = (Inr sts, w') \<Longrightarrow> length sts = length is"
  by (induction "is" arbitrary: w sts) (auto split: sum.splits prod.splits)

text \<open>
  The usage counts.  The used and idle counts add up to the number of slots at the time
  of the call, and idle counts the statuses that report Empty, so a failed slot is used.
\<close>

theorem pool_usage_counts:
  assumes "pool_usage E w = (Inr (used, idle), w')"
  shows "used + idle = pool_size (pw_pool w)
    \<and> (\<exists>sts. list_vm_slots E w = (Inr sts, w') \<and> idle = count_state Empty sts
        \<and> used = count_state Booting sts + count_state Occupied sts + count_state Failed sts)"
proof -
  from assms obtain sts where l: "list_vm_slots E w = (Inr sts, w')"
    and c: "idle = count_state Empty sts" "used = length sts - idle"
    by (auto simp: pool_usage_def Let_def split: sum.splits prod.splits)
  have len: "length sts = pool_size (pw_pool w)"
    using l by (simp add: list_vm_slots_def pool_size_def collect_length)
  have part: "count_state Empty sts + (count_state Booting sts + count_state Occupied sts
      + count_state Failed sts) = length sts"
  proof (induction sts)
    case (Cons st sts)
    then show ?case by (cases "ss_state st") (simp_all add: count_state_def)
  qed (simp add: count_state_def)
  have u: "used = count_state Booting sts + count_state Occupied sts + count_state Failed sts"
    using c part by linarith
  with c len part l show ?thesis by simp
qed

theorem pool_usage_counts_witness:
  "\<exists>w'. pool_usage demo_env (demo_world Read_held demo_pool) = (Inr (0, 2), w') \<and> (0::nat) + 2 = 2"
proof -
  obtain w' where l: "list_vm_slots demo_env (demo_world Read_held demo_pool)
      = (Inr (map (slot_st demo_pool) [0..<2]), w')"
    using list_quiet [OF demo_env_quiet, of "demo_world Read_held demo_pool"] demo_pool_alive by auto
  have "slot_st demo_pool 0 = initial_status 0" "slot_st demo_pool 1 = initial_status 1"
    by (simp_all add: slot_st_def demo_pool_slots initial_runtime_def)
  then have u: "pool_usage demo_env (demo_world Read_held demo_pool) = (Inr (0, 2), w')"
    using l by (simp add: pool_usage_def count_state_def Let_def upt_0_2 initial_status_def)
  from pool_usage_counts [OF u] u show ?thesis by (simp add: pool_size_def)
qed

end
