(* ===== verification/ApiProps.thy ===== *)
theory ApiProps
  imports Api PoolScale
begin

text \<open>
  What the REST interface guarantees: every call returns, gives the lock back and keeps the
  pool; health adds up; a listing never shows a name or a TAP twice; what the look-ups
  answer for a VM in each state; and which calls are refused before anything is touched.
\<close>

section \<open>Every call\<close>

lemma handle_call_returns: "\<exists>y. serve A E H call w = Some y"
proof (cases call)
  case (Create_vm c)
  then show ?thesis using svc_clock.create_returns [of E H c w] by (auto simp: serve_def)
qed (simp_all add: serve_def)

text \<open>
  A scale-down the autoscaler begins in a pool reached from \<open>p\<close>: it holds the write lock,
  and its tick never returns.
\<close>

definition held_up :: "pool_env \<Rightarrow> process_pool \<Rightarrow> bool" where
  "held_up E p =
     (\<exists>t (u :: pool_world). pe_autoscales E t \<and> pool_steps p (pw_pool u) \<and> pw_lock u = Write_held
        \<and> scaling_down (pw_clock u) (pw_pool u))"

text \<open>
  A request on its way: a pool reached from \<open>p\<close> without a slot removed, and if a wait has
  been denied since the log had \<open>k\<close> of them, a scale-down that holds the request up.
\<close>

definition under_way :: "pool_env \<Rightarrow> process_pool \<Rightarrow> nat \<Rightarrow> lock_mode \<Rightarrow> pool_world \<Rightarrow> bool" where
  "under_way E p k l w =
     (reached p l w \<and> grows p (pw_pool w) \<and> (denied_waits w \<noteq> k \<longrightarrow> held_up E p))"

lemma under_way_step:
  assumes "under_way E p k l w" and "reached p l w \<Longrightarrow> reached p l' w'"
    and "grows (pw_pool w) (pw_pool w')" and "denied_waits w' = denied_waits w"
  shows "under_way E p k l' w'"
  using assms grows_trans by (auto simp: under_way_def)

lemma under_way_lock:
  assumes "under_way E p k Unlocked w"
  shows "under_way E p k l (lock_as l E w)"
proof -
  have r: "reached p l (lock_as l E w)"
    using assms pool_steps_trans [OF await_steps, of p w E] by (simp add: under_way_def reached_def)
  have g: "grows p (pw_pool (lock_as l E w))"
    using assms grows_trans [OF _ await_grows] by (simp add: under_way_def)
  show ?thesis
  proof (cases "pe_autoscales E (pw_step w) \<and> scaling_down (pw_clock (await E w)) (pw_pool (await E w))")
    case True
    with r have "held_up E p"
      by (auto simp: held_up_def reached_def intro!: exI [of _ "(await E w)\<lparr>pw_lock := Write_held\<rparr>"])
    with r g show ?thesis by (simp add: under_way_def)
  next
    case False
    with r g assms show ?thesis by (auto simp: under_way_def denied_lock)
  qed
qed

interpretation way: pool_api "process_pool_facade E" "pool_service_env E H" "under_way E p k"
  for E H p k
proof (unfold_locales, goal_cases)
  case (3 l w)
  then show ?case
    by (rule under_way_step) (simp_all add: reached_def)
next
  case (4 w path)
  then show ?case
    by (rule under_way_step) (use svc.J_connect await_grows in simp_all)
next
  case (5 w ms)
  then show ?case
    by (rule under_way_step) (use svc.J_sleep await_grows in simp_all)
next
  case (6 w name mac)
  then show ?case
    by (rule under_way_step) (use svc.J_allocate allocate_grows in simp_all)
next
  case (7 w name)
  then show ?case
    by (rule under_way_step) (use svc.J_find find_slot_grows in simp_all)
next
  case (8 w i at)
  then show ?case
    by (rule under_way_step)
      (use svc.J_mark logged_command_grows in \<open>simp_all add: mark_vm_slot_booted_def\<close>)
next
  case (9 w i)
  then show ?case
    by (rule under_way_step)
      (use svc.J_release logged_command_grows in \<open>simp_all add: release_vm_slot_def\<close>)
next
  case (10 w i)
  then show ?case
    by (rule under_way_step)
      (use svc.J_reset logged_command_grows in \<open>simp_all add: reset_vm_slot_def\<close>)
next
  case (11 w i)
  then show ?case
    by (rule under_way_step)
      (use svc.J_get send_command_grows [of w E i GetVmStatus] in
        \<open>simp_all add: get_vm_slot_status_def [symmetric]\<close>)
next
  case (12 w i m path b)
  then show ?case
    by (rule under_way_step) (use svc.J_request await_grows in simp_all)
next
  case (13 w i m path b ct)
  then show ?case
    by (rule under_way_step) (use svc.J_request_ct await_grows in simp_all)
next
  case (14 w)
  then show ?case
    by (rule under_way_step) (use papi.J_usage reader_grows in simp_all)
next
  case (15 w)
  then show ?case
    by (rule under_way_step) (use papi.J_list_runtimes reader_grows in simp_all)
next
  case (16 w name)
  then show ?case
    by (rule under_way_step) (use papi.J_find_runtime reader_grows in simp_all)
qed (simp_all add: under_way_lock)

lemma call_outcome_cases:
  assumes "pw_lock w = Unlocked"
  shows "(\<exists>r w'. call_outcome A E H call w = Some (r, w') \<and> served w w' \<and> grows (pw_pool w) (pw_pool w'))
    \<or> (call_outcome A E H call w = None \<and> held_up E (pw_pool w))"
proof -
  obtain r w' where s: "serve A E H call w = Some (r, w')" using handle_call_returns by fastforce
  have "under_way E (pw_pool w) (denied_waits w) Unlocked w"
    using reached_refl [OF assms] by (simp add: under_way_def)
  then have "under_way E (pw_pool w) (denied_waits w) Unlocked w'"
    using way.J_handle_call s unfolding serve_def by blast
  with s show ?thesis
    by (cases "denied_waits w' = denied_waits w")
      (auto simp: under_way_def call_outcome_def intro: served_reached)
qed

lemma held_up_blocks:
  assumes "held_up E p"
  shows "\<exists>t u. pe_autoscales E t \<and> pool_steps p (pw_pool u) \<and> pw_lock u = Write_held
      \<and> (\<forall>E' turns. quiet_env E' \<longrightarrow> autoscale_tick E' turns u = None)"
    and "pool_ok p \<Longrightarrow> pp_min p < pp_max p"
  using assms scaling_down_blocked scaling_down_needs_room unfolding held_up_def by blast+

text \<open>
  C5: The REST interface.  Whatever the interleaving and whatever the operating system and
  the VMs answer, a call of the interface either returns, with the pool's lock given back
  and only steps of the pool's transition system taken, so that a well-formed pool stays
  well-formed; or it waits for the lock for ever, and then the autoscaler has begun a
  scale-down under the write lock, in a pool reached during the call, whose tick never
  returns.  The latter needs a pool that may grow: with the maximum size at the minimum
  every call returns.  A request to a VM is taken to be answered or to fail at some time:
  the source sets no limit on it, and a VM that keeps a connection open without an answer
  keeps the call, and the read lock, for as long.
\<close>

theorem api_call_served:
  assumes "pw_lock w = Unlocked"
  shows "case call_outcome A E H call w of
      Some (r, w') \<Rightarrow> served w w'
    | None \<Rightarrow>
        (\<exists>t u. pe_autoscales E t \<and> pool_steps (pw_pool w) (pw_pool u) \<and> pw_lock u = Write_held
           \<and> (\<forall>E' turns. quiet_env E' \<longrightarrow> autoscale_tick E' turns u = None))
        \<and> (pool_ok (pw_pool w) \<longrightarrow> pp_min (pw_pool w) < pp_max (pw_pool w))"
  using call_outcome_cases [OF assms, of A E H call] held_up_blocks [of E "pw_pool w"] by auto

definition demo_api :: "unit api_env" where
  "demo_api = \<lparr>ae_read = demo_files, ae_parse_f64 = (\<lambda>_. Inr ()), ae_parallelism = None,
     ae_builder = (\<lambda>_ _. Inr ()), ae_from_slice = (\<lambda>_. Inr JNull)\<rparr>"

lemma demo_outcome:
  "pw_lock w = Unlocked \<Longrightarrow> \<exists>r w'. call_outcome demo_api demo_env demo_host call w = Some (r, w')"
  using call_outcome_cases [of w demo_api demo_env demo_host call] demo_env_quiet
  by (auto simp: held_up_def quiet_env_def)

text \<open>
  A call that hangs: in a pool with an empty slot above its minimum, the autoscaler gets the
  write lock first.
\<close>

definition scaling_env :: pool_env where
  "scaling_env = demo_env\<lparr>pe_autoscales := (\<lambda>t. True)\<rparr>"

lemma api_call_held_up:
  "call_outcome demo_api scaling_env demo_host Health (demo_world Unlocked scaled_pool) = None"
proof -
  let ?w = "demo_world Unlocked scaled_pool"
  have p: "pw_pool (await scaling_env ?w) = scaled_pool"
    by (simp add: await_def scaling_env_def demo_env_def)
  have "last (pp_slots scaled_pool) = pp_slots scaled_pool ! 2"
    using scaled_pool_sel(1) by (subst last_conv_nth) auto
  moreover have "all_alive scaled_pool"
    unfolding scaled_pool_def by (rule all_alive_extend [OF demo_pool_alive])
  ultimately have "scaling_down now scaled_pool" for now
    using scaled_pool_sel scaled_pool_last
    by (simp add: scaling_down_def all_alive_def list_all_length slot_st_def slot_rt_def initial_status_def)
  then have d: "denied_waits (lock_as Read_held scaling_env ?w) = Suc (denied_waits ?w)"
    by (simp add: denied_lock p) (simp add: scaling_env_def)
  obtain u w1 where us: "pool_usage scaling_env (lock_as Read_held scaling_env ?w) = (u, w1)" by fastforce
  then have "denied_waits w1 = Suc (denied_waits ?w)"
    using d denied_readers(4) [of scaling_env "lock_as Read_held scaling_env ?w"] by simp
  with us show ?thesis
    by (auto simp: call_outcome_def serve_def answer_def health_def split: sum.splits prod.splits)
qed

theorem api_call_served_witness:
  "(\<exists>r w'. call_outcome demo_api demo_env demo_host (Create_vm demo_config) (demo_world Unlocked warm_pool)
       = Some (r, w') \<and> served (demo_world Unlocked warm_pool) w')
   \<and> call_outcome demo_api scaling_env demo_host Health (demo_world Unlocked scaled_pool) = None
   \<and> (\<exists>u. pool_steps scaled_pool (pw_pool u) \<and> autoscale_tick demo_env [demo_turn] u = None)"
proof -
  have "\<exists>r w'. call_outcome demo_api demo_env demo_host (Create_vm demo_config) (demo_world Unlocked warm_pool)
       = Some (r, w') \<and> served (demo_world Unlocked warm_pool) w'"
    using api_call_served [of "demo_world Unlocked warm_pool" demo_env demo_api demo_host "Create_vm demo_config"]
      demo_outcome [of "demo_world Unlocked warm_pool" "Create_vm demo_config"] by auto
  moreover have "\<exists>u. pool_steps scaled_pool (pw_pool u) \<and> autoscale_tick demo_env [demo_turn] u = None"
    using api_call_served [of "demo_world Unlocked scaled_pool" scaling_env demo_api demo_host Health]
      api_call_held_up demo_env_quiet by fastforce
  ultimately show ?thesis using api_call_held_up by blast
qed

text \<open>
  C33: Requests refused at once.  A creation whose configuration does not validate and a
  snapshot to a relative path are answered 400 and change nothing: no lock is taken, no
  slot is asked, no request is sent.
\<close>

theorem invalid_requests_touch_nothing:
  "(\<not> config_ok c \<longrightarrow>
      (\<exists>err. serve A E H (Create_vm c) w = Some (Inl err, w) \<and> fst (into_response err) = 400))
   \<and> (\<not> path_is_absolute dest \<longrightarrow>
      serve A E H (Snapshot_vm name dest) w
        = Some (Inl (Validation (Some ''destPath'') ''destPath must be absolute''), w))"
proof -
  have "\<exists>err. validate_boot_config c = Inl err \<and> fst (into_response err) = 400" if "\<not> config_ok c"
    using that validate_config_ok [of c] field_error_config [of c]
    by (cases "validate_boot_config c") (auto simp: field_error_def)
  then show ?thesis
    by (auto simp: serve_def create_vm_with_pool_def answer_def snapshot_vm_def)
qed

theorem invalid_requests_touch_nothing_witness:
  "serve demo_api demo_env demo_host (Snapshot_vm ''a'' ''x'') (demo_world Unlocked warm_pool)
     = Some (Inl (Validation (Some ''destPath'') ''destPath must be absolute''), demo_world Unlocked warm_pool)"
proof -
  have "\<not> path_is_absolute ''x''" by (simp add: path_is_absolute_def starts_with_def)
  then show ?thesis
    using invalid_requests_touch_nothing [of demo_config demo_api demo_env demo_host
        "demo_world Unlocked warm_pool" "''x''" "''a''"] by blast
qed

section \<open>Health\<close>

text \<open>
  C32: Health.  Under every interleaving, the slots in use and the idle slots a health
  answer reports add up to the pool size it reports.
\<close>

theorem health_adds_up:
  assumes "serve A E H Health w = Some (Inr (Health_answer h), w')"
  shows "he_pool_in_use h + he_pool_idle h = he_pool_size h \<and> he_pool_size h = pool_size (pw_pool w')"
proof -
  let ?w0 = "lock_as Read_held E w"
  from assms obtain u i w1 where us: "pool_usage E ?w0 = (Inr (u, i), w1)"
    and h: "he_pool_in_use h = u" "he_pool_idle h = i" "he_pool_size h = pool_size (pw_pool w1)"
    and w': "w' = unlock w1"
    by (auto simp: serve_def answer_def health_def split: sum.splits prod.splits)
  obtain sts where l: "list_vm_slots E ?w0 = (Inr sts, w1)" and s: "u + i = length sts"
    using us by (auto simp: pool_usage_def Let_def count_state_def split: sum.splits prod.splits)
  have "length sts = length (pp_slots (pw_pool ?w0))"
    using l by (simp add: list_vm_slots_def collect_length)
  moreover have "calm (pw_pool ?w0) (pw_pool w1)" using calm_list [of ?w0 E] l by simp
  ultimately have "length sts = pool_size (pw_pool w1)" by (simp add: calm_def pool_size_def)
  with h w' s show ?thesis by simp
qed

section \<open>Listings\<close>

text \<open>Two statuses that share neither a name nor a TAP.\<close>

definition apart :: "slot_status \<Rightarrow> slot_status \<Rightarrow> bool" where
  "apart a b = ((ss_name a \<noteq> None \<longrightarrow> ss_name a \<noteq> ss_name b) \<and> (ss_tap a \<noteq> None \<longrightarrow> ss_tap a \<noteq> ss_tap b))"

lemma tap_name_inject: "tap_name i = tap_name j \<longleftrightarrow> i = j"
  by (simp add: tap_name_def)

lemma runtimes_of_mem:
  "rt \<in> set (runtimes_of sts) \<Longrightarrow> \<exists>st \<in> set sts. runtime_from_slot_status st = Some rt"
  by (induction sts) (auto split: option.splits)

lemma runtimes_apart:
  "sorted_wrt apart sts \<Longrightarrow> distinct (map vr_name (runtimes_of sts)) \<and> distinct (map vr_tap (runtimes_of sts))"
proof (induction sts)
  case (Cons st sts)
  have "vr_name rt \<noteq> vr_name rt' \<and> vr_tap rt \<noteq> vr_tap rt'"
    if rt: "runtime_from_slot_status st = Some rt" and rt': "rt' \<in> set (runtimes_of sts)" for rt rt'
  proof -
    obtain st' where "st' \<in> set sts" and s: "runtime_from_slot_status st' = Some rt'"
      using runtimes_of_mem [OF rt'] by blast
    with Cons.prems have "apart st st'" by simp
    with runtime_from_slot_status_Some [OF rt] runtime_from_slot_status_Some [OF s] show ?thesis
      by (simp add: apart_def)
  qed
  with Cons show ?case by (auto split: option.splits)
qed simp

lemma collect_shrinks:
  assumes "pw_lock w \<noteq> Unlocked" and "collect_statuses E is w = (Inr sts, w')"
    and "\<forall>i \<in> set is. i < length (pp_slots (pw_pool w))"
  shows "list_all2 (\<lambda>i st. identity_shrinks (slot_st (pw_pool w) i) st) is sts"
  using assms
proof (induction "is" arbitrary: w sts)
  case (Cons i "is")
  obtain r w1 where g: "get_vm_slot_status E i w = (r, w1)" by fastforce
  with Cons.prems(2) obtain st sts' where r: "r = Inr st"
    and rest: "collect_statuses E is w1 = (Inr sts', w')" and sts: "sts = st # sts'"
    by (auto split: sum.splits prod.splits)
  have lock: "pw_lock w1 \<noteq> Unlocked" using get_status_lock [of E i w] g Cons.prems(1) by simp
  have st: "st = slot_st (pw_pool w1) i"
    using send_get_status [of E i w st w1] g r by (simp add: get_vm_slot_status_def)
  have c: "calm (pw_pool w) (pw_pool w1)" using calm_get_status [OF Cons.prems(1), of E i] g by simp
  then have "list_all2 (\<lambda>i st. identity_shrinks (slot_st (pw_pool w1) i) st) is sts'"
    using Cons.IH [OF lock rest] Cons.prems(3) by (simp add: calm_def)
  then have "list_all2 (\<lambda>i st. identity_shrinks (slot_st (pw_pool w) i) st) is sts'"
    using c Cons.prems(3)
    by (elim list_all2_mono [rotated] list.rel_mono_strong) (fastforce simp: calm_def identity_shrinks_def)+
  with c st sts Cons.prems(3) show ?case by (simp add: calm_def)
qed simp

lemma listing_shrinks:
  assumes "pw_lock w \<noteq> Unlocked" and "list_vm_slots E w = (Inr sts, w')"
  shows "length sts = length (pp_slots (pw_pool w))
    \<and> (\<forall>i < length sts. identity_shrinks (slot_st (pw_pool w) i) (sts ! i))"
  using collect_shrinks [OF assms(1), of E "[0..<length (pp_slots (pw_pool w))]"] assms(2)
  by (auto simp: list_vm_slots_def list_all2_conv_all_nth)

lemma slots_apart:
  assumes "pool_ok p" and "i \<noteq> j" and "i < length (pp_slots p)" and "j < length (pp_slots p)"
  shows "apart (slot_st p i) (slot_st p j)"
proof -
  have n: "names_unique p" and t: "taps_ok p" using assms(1) by (simp_all add: pool_ok_def)
  have "ss_tap (slot_st p i) = None \<or> ss_tap (slot_st p i) = Some (tap_name i)"
    and "ss_tap (slot_st p j) = None \<or> ss_tap (slot_st p j) = Some (tap_name j)"
    using t assms(3,4) by (simp_all add: taps_ok_def)
  then have "ss_tap (slot_st p i) \<noteq> None \<Longrightarrow> ss_tap (slot_st p i) \<noteq> ss_tap (slot_st p j)"
    using assms(2) tap_name_inject by auto
  moreover have "ss_name (slot_st p i) \<noteq> None \<Longrightarrow> ss_name (slot_st p i) \<noteq> ss_name (slot_st p j)"
    using n assms(2-4) unfolding names_unique_def by blast
  ultimately show ?thesis by (simp add: apart_def)
qed

lemma apart_shrinks:
  "apart a b \<Longrightarrow> identity_shrinks a a' \<Longrightarrow> identity_shrinks b b' \<Longrightarrow> apart a' b'"
  by (auto simp: apart_def identity_shrinks_def)

lemma listing_apart:
  assumes "pw_lock w \<noteq> Unlocked" and "list_vm_slots E w = (Inr sts, w')" and "pool_ok (pw_pool w)"
  shows "sorted_wrt apart sts"
proof -
  note sh = listing_shrinks [OF assms(1,2)]
  have "apart (sts ! i) (sts ! j)" if ij: "i < j" "j < length sts" for i j
    using sh ij by (intro apart_shrinks [OF slots_apart [OF assms(3), of i j]]) auto
  then show ?thesis by (simp add: sorted_wrt_iff_nth_less)
qed

lemma listing_origin:
  assumes "pw_lock w \<noteq> Unlocked" and "list_vm_slots E w = (Inr sts, w')" and "pool_ok (pw_pool w)"
    and "rt \<in> set (runtimes_of sts)"
  shows "\<exists>i < length (pp_slots (pw_pool w)).
    ss_name (slot_st (pw_pool w) i) = Some (vr_name rt) \<and> vr_tap rt = tap_name i"
proof -
  obtain i where i: "i < length sts" and rt: "runtime_from_slot_status (sts ! i) = Some rt"
    using runtimes_of_mem [OF assms(4)] by (auto simp: in_set_conv_nth)
  have "identity_shrinks (slot_st (pw_pool w) i) (sts ! i)" "i < length (pp_slots (pw_pool w))"
    using listing_shrinks [OF assms(1,2)] i by auto
  moreover have "taps_ok (pw_pool w)" using assms(3) by (simp add: pool_ok_def)
  ultimately show ?thesis
    using runtime_from_slot_status_Some(2,4) [OF rt]
    by (intro exI [of _ i]) (auto simp: identity_shrinks_def taps_ok_def)
qed

text \<open>
  C19: Listings are consistent.  Although a listing asks the workers one after the other
  while others run, it never shows one VM name or one TAP device twice, and every VM it
  shows had its slot, with its name and that slot's TAP, when the listing began.
\<close>

theorem list_vms_consistent:
  assumes "serve A E H List_vms w = Some (Inr (List_answer rts), w')" and "pool_ok (pw_pool w)"
  shows "distinct (map vr_name rts) \<and> distinct (map vr_tap rts)
    \<and> (\<forall>rt \<in> set rts. \<exists>i < pool_size (pw_pool (await E w)).
         ss_name (slot_st (pw_pool (await E w)) i) = Some (vr_name rt) \<and> vr_tap rt = tap_name i)"
proof -
  let ?w0 = "lock_as Read_held E w"
  from assms(1) obtain sts w1 where l: "list_vm_slots E ?w0 = (Inr sts, w1)" and r: "rts = runtimes_of sts"
    by (auto simp: serve_def answer_def list_vms_def list_running_vms_def split: sum.splits prod.splits)
  have ok: "pool_ok (pw_pool ?w0)" using pool.J_await [OF assms(2)] by simp
  have lk: "pw_lock ?w0 \<noteq> Unlocked" by simp
  have "\<exists>i < pool_size (pw_pool (await E w)).
         ss_name (slot_st (pw_pool (await E w)) i) = Some (vr_name rt) \<and> vr_tap rt = tap_name i"
    if "rt \<in> set rts" for rt
    using listing_origin [OF lk l ok] that r by (simp add: pool_size_def)
  with runtimes_apart [OF listing_apart [OF lk l ok]] r show ?thesis by blast
qed

section \<open>Looking a VM up\<close>

text \<open>
  The answer for a name: the runtime of its slot; 409 while the slot is reserved, failed or
  has no process; 404 when no slot has it.
\<close>

definition lookup_spec :: "string \<Rightarrow> process_pool \<Rightarrow> api_error + vm_runtime" where
  "lookup_spec name p =
     (case slot_of_name name p of
        None \<Rightarrow> Inl (NotFound (''VM '' @ quoted name @ '' not found''))
      | Some i \<Rightarrow>
          (case runtime_from_slot_status (slot_st p i) of
             None \<Rightarrow> Inl (Conflict (''VM '' @ quoted name @ '' is not running''))
           | Some rt \<Rightarrow> Inr rt))"

definition runtime_of_name :: "string \<Rightarrow> process_pool \<Rightarrow> vm_runtime option" where
  "runtime_of_name name p =
     Option.bind (slot_of_name name p) (\<lambda>i. runtime_from_slot_status (slot_st p i))"

text \<open>With unique names, the first runtime with a name is that of the slot with the name.\<close>

lemma find_runtimes:
  "sorted_wrt apart sts \<Longrightarrow>
   find (\<lambda>rt. vr_name rt = name) (runtimes_of sts)
     = Option.bind (find (\<lambda>st. ss_name st = Some name) sts) runtime_from_slot_status"
proof (induction sts)
  case (Cons st sts)
  show ?case
  proof (cases "ss_name st = Some name")
    case True
    with Cons.prems have "find (\<lambda>s. ss_name s = Some name) sts = None"
      by (fastforce simp: find_None_iff_all apart_def)
    with True Cons show ?thesis
      using runtime_from_slot_status_Some(2) [of st] by (auto split: option.split)
  next
    case False
    with Cons show ?thesis
      using runtime_from_slot_status_Some(2) [of st] by (auto split: option.split)
  qed
qed simp

lemma statuses_apart:
  "pool_ok p \<Longrightarrow> sorted_wrt apart (map (slot_st p) [0..<length (pp_slots p)])"
  by (simp add: sorted_wrt_iff_nth_less slots_apart)

lemma find_runtime_quiet:
  assumes "quiet_env E" and "all_alive (pw_pool w)" and "pool_ok (pw_pool w)"
  shows "acts_as (find_vm_runtime_by_name E name w) (Inr (runtime_of_name name (pw_pool w)), pw_pool w)"
  using list_quiet [OF assms(1,2)] find_runtimes [OF statuses_apart [OF assms(3)], of name]
  by (auto simp: find_vm_runtime_by_name_def list_running_vms_def acts_as_def find_map comp_def
      runtime_of_name_def slot_of_name_def bind_map_option)

lemma get_vm_quiet:
  assumes "quiet_env E" and "all_alive (pw_pool w)" and "pool_ok (pw_pool w)"
  shows "acts_as (get_vm (process_pool_facade E) (pool_service_env E H) name w)
    (lookup_spec name (pw_pool w), pw_pool w)"
proof -
  let ?w0 = "lock_as Read_held E w" and ?p = "pw_pool w"
  have p0: "pw_pool ?w0 = ?p" using pool_lock_quiet [OF assms(1)] .
  obtain w1 where f: "find_vm_runtime_by_name E name ?w0 = (Inr (runtime_of_name name ?p), w1)"
    and p1: "pw_pool w1 = ?p"
    using find_runtime_quiet [of E ?w0 name] assms p0 by (auto simp: acts_as_def) (metis prod.collapse)
  obtain w2 where g: "find_vm_slot_status_by_name E name w1 = (Inr (map_option (slot_st ?p) (slot_of_name name ?p)), w2)"
    and p2: "pw_pool w2 = ?p"
    using find_quiet [of E w1 name] assms p1 by (auto simp: acts_as_def slot_of_name_def) (metis prod.collapse)
  show ?thesis
    using f g p1 p2
    by (auto simp: get_vm_def lookup_spec_def runtime_of_name_def acts_as_def split: option.split)
qed

text \<open>
  C20: What a look-up answers.  Without interference \<open>GET /vms/NAME\<close> is exactly its
  specification and leaves the pool as it was.  For a VM whose slot is reserved or failed,
  it and the information calls answer 409, but the metrics call answers 404 as if the VM
  did not exist; for a name no slot has, all of them answer 404.
\<close>

theorem vm_lookup_answers:
  assumes "calm_setting C E H" and "all_alive (pw_pool w)" and "pool_ok (pw_pool w)"
  shows "(\<exists>w'. serve A E H (Get_vm name) w
        = Some (map_sum id Runtime_answer (lookup_spec name (pw_pool w)), w') \<and> pw_pool w' = pw_pool w)
    \<and> (\<forall>i. slot_of_name name (pw_pool w) = Some i \<longrightarrow> ss_state (slot_st (pw_pool w) i) \<noteq> Occupied \<longrightarrow>
        map_option (http_status \<circ> fst) (serve A E H (Get_vm name) w) = Some 409
        \<and> map_option (http_status \<circ> fst) (serve A E H (Proxy_info name) w) = Some 409
        \<and> map_option (http_status \<circ> fst) (serve A E H (Vm_metrics name) w) = Some 404)
    \<and> (slot_of_name name (pw_pool w) = None \<longrightarrow>
        map_option (http_status \<circ> fst) (serve A E H (Get_vm name) w) = Some 404
        \<and> map_option (http_status \<circ> fst) (serve A E H (Proxy_info name) w) = Some 404
        \<and> map_option (http_status \<circ> fst) (serve A E H (Vm_metrics name) w) = Some 404)"
proof -
  let ?p = "pw_pool w" and ?F = "process_pool_facade E" and ?R = "pool_service_env E H"
  let ?w0 = "lock_as Read_held E w"
  note q = calm_settingD(1) [OF assms(1)]
  have p0: "pw_pool ?w0 = ?p" using pool_lock_quiet [OF q] .
  obtain w1 where g: "get_vm ?F ?R name w = (lookup_spec name ?p, w1)" "pw_pool w1 = ?p"
    using get_vm_quiet [OF q assms(2,3), of H name] by (auto simp: acts_as_def) (metis prod.collapse)
  obtain w2 where f: "find_vm_runtime_by_name E name ?w0 = (Inr (runtime_of_name name ?p), w2)"
    using find_runtime_quiet [of E ?w0 name] q assms p0 by (auto simp: acts_as_def) (metis prod.collapse)
  obtain w3 where r: "running_slot ?F name ?w0 = (map_sum id (slot_st ?p) (running_spec name ?p), w3)"
    using running_quiet [OF assms(1,2) pool_ok_numbered [OF assms(3)], of name] by blast
  have m: "map_option (http_status \<circ> fst) (serve A E H (Vm_metrics name) w) = Some 404"
    if "runtime_of_name name ?p = None"
    using f that by (simp add: serve_def answer_def vm_metrics_def)
  show ?thesis
    using g r m
    by (auto simp: serve_def answer_def lookup_spec_def runtime_of_name_def running_spec_def proxied_def
        proxy_passthrough_by_name_for_pool_def runtime_from_slot_status_None)
qed

section \<open>On the demo pool\<close>

lemma demo_reserved_ok: "pool_ok demo_reserved_pool"
proof -
  let ?w = "demo_world Write_held warm_pool"
  have "pw_pool (snd (allocate_vm_slot demo_env ''vm-b'' (mac_for_name (ch_sha256 demo_calm) ''vm-b'') ?w))
      = demo_reserved_pool"
    using allocate_quiet [OF demo_env_quiet demo_env_cmd_os, of ?w] demo_allocated
    by (simp add: warm_pool_alive warm_pool_numbered demo_calm_def)
  then have "pool_steps warm_pool demo_reserved_pool"
    using allocate_steps [of ?w demo_env "''vm-b''" "mac_for_name (ch_sha256 demo_calm) ''vm-b''"] by simp
  then show ?thesis using pool.J_steps warm_pool_ok by blast
qed

text \<open>The VM of the reserved slot has booted.\<close>

definition busy_pool :: process_pool where
  "busy_pool = snd (command_spec demo_cmd_os 0 (MarkVmBooted ''t'') demo_reserved_pool)"

definition busy_runtime :: vm_runtime where
  "busy_runtime = \<lparr>vr_name = ''vm-b'', vr_mac = mac_for_name (ch_sha256 demo_calm) ''vm-b'',
     vr_tap = ''tap0'', vr_pid = 7, vr_state = Running, vr_started_at = ''t''\<rparr>"

lemma demo_status_booting: "ss_state demo_status = Booting"
  by (simp add: demo_status_def reserve_status_def)

lemma busy_pool_alive: "all_alive busy_pool"
  unfolding busy_pool_def by (rule all_alive_command [OF demo_reserved(3)])

lemma busy_pool_eq:
  "busy_pool = on_slot 0 (\<lambda>rt. (slot_rt demo_reserved_pool 0)\<lparr>rt_status :=
     demo_status\<lparr>ss_state := Occupied, ss_started_at := Some ''t''\<rparr>\<rparr>) demo_reserved_pool"
  using command_mark [of demo_reserved_pool 0 demo_cmd_os "''t''"] demo_reserved demo_status_booting
  by (simp add: busy_pool_def)

lemma busy_pool_st:
  "length (pp_slots busy_pool) = 2"
  "slot_st busy_pool 0 = demo_status\<lparr>ss_state := Occupied, ss_started_at := Some ''t''\<rparr>"
  "slot_st busy_pool 1 = initial_status 1"
proof -
  have one: "slot_st demo_reserved_pool 1 = initial_status 1"
    using warm_pool_alive warm_pool_st(2)
    by (simp add: demo_reserved_pool_def slot_st_on_slot del: One_nat_def)
  show "length (pp_slots busy_pool) = 2"
    "slot_st busy_pool 0 = demo_status\<lparr>ss_state := Occupied, ss_started_at := Some ''t''\<rparr>"
    "slot_st busy_pool 1 = initial_status 1"
    using demo_reserved(2,3) one by (simp_all add: busy_pool_eq slot_st_on_slot del: One_nat_def)
qed

lemma busy_pool_ok: "pool_ok busy_pool"
proof -
  have h: "h_alive (pp_slots demo_reserved_pool ! 0)"
    using demo_reserved(2,3) by (simp add: all_alive_def list_all_length)
  have "busy_pool = apply_action (Act_command 0 demo_cmd_os (MarkVmBooted ''t'')) demo_reserved_pool"
    using demo_reserved(1,2) demo_status_booting h
    by (simp add: busy_pool_eq on_slot_def handle_command.simps slot_st_def Let_def)
  then show ?thesis using pool.J_action [OF demo_reserved_ok] by metis
qed

lemma busy_runtimes: "runtimes_of (map (slot_st busy_pool) [0..<2]) = [busy_runtime]"
  by (simp add: upt_0_2 busy_pool_st [unfolded One_nat_def] runtime_from_slot_status_def demo_status_def
      reserve_status_def warm_pool_st initial_status_def busy_runtime_def)

lemma busy_listing:
  "\<exists>w'. list_vm_slots demo_env (lock_as Read_held demo_env (demo_world Unlocked busy_pool))
      = (Inr (map (slot_st busy_pool) [0..<2]), w')"
  using list_quiet [OF demo_env_quiet, of "lock_as Read_held demo_env (demo_world Unlocked busy_pool)"]
    pool_lock_quiet [OF demo_env_quiet] busy_pool_alive busy_pool_st(1) by auto

theorem health_adds_up_witness:
  "\<exists>h w'. serve demo_api demo_env demo_host Health (demo_world Unlocked busy_pool) = Some (Inr (Health_answer h), w')
     \<and> he_pool_in_use h = 1 \<and> he_pool_in_use h + he_pool_idle h = he_pool_size h"
proof -
  obtain w' where "list_vm_slots demo_env (lock_as Read_held demo_env (demo_world Unlocked busy_pool))
      = (Inr (map (slot_st busy_pool) [0..<2]), w')"
    using busy_listing by blast
  then have "\<exists>h w'. serve demo_api demo_env demo_host Health (demo_world Unlocked busy_pool)
      = Some (Inr (Health_answer h), w') \<and> he_pool_in_use h = 1"
    by (simp add: serve_def answer_def health_def pool_usage_def Let_def count_state_def
        upt_0_2 busy_pool_st [unfolded One_nat_def] initial_status_def)
  then show ?thesis using health_adds_up by blast
qed

theorem list_vms_consistent_witness:
  "\<exists>w'. serve demo_api demo_env demo_host List_vms (demo_world Unlocked busy_pool)
       = Some (Inr (List_answer [busy_runtime]), w')
     \<and> (\<exists>i < pool_size (pw_pool (await demo_env (demo_world Unlocked busy_pool))). vr_tap busy_runtime = tap_name i)"
proof -
  obtain w' where "list_vm_slots demo_env (lock_as Read_held demo_env (demo_world Unlocked busy_pool))
      = (Inr (map (slot_st busy_pool) [0..<2]), w')"
    using busy_listing by blast
  then have s: "serve demo_api demo_env demo_host List_vms (demo_world Unlocked busy_pool)
      = Some (Inr (List_answer [busy_runtime]), unlock w')"
    by (simp add: serve_def answer_def list_vms_def list_running_vms_def busy_runtimes)
  from list_vms_consistent [OF this] s busy_pool_ok show ?thesis by auto
qed

theorem vm_lookup_answers_witness:
  "map_option (http_status \<circ> fst)
      (serve demo_api demo_env demo_host (Get_vm ''vm-b'') (demo_world Unlocked demo_reserved_pool)) = Some 409
   \<and> map_option (http_status \<circ> fst)
      (serve demo_api demo_env demo_host (Vm_metrics ''vm-b'') (demo_world Unlocked demo_reserved_pool)) = Some 404"
proof -
  have "ss_name demo_status = Some ''vm-b''" by (simp add: demo_status_def reserve_status_def)
  then have "slot_of_name ''vm-b'' demo_reserved_pool = Some 0"
    by (simp add: slot_of_name_def demo_reserved upt_rec [of 0 2])
  then show ?thesis
    using vm_lookup_answers [OF demo_calm_setting, of "demo_world Unlocked demo_reserved_pool" demo_api "''vm-b''"]
      demo_reserved_ok demo_reserved demo_status_booting by simp
qed

end
