(* ===== verification/Daemon.thy ===== *)
theory Daemon
  imports ApiProps
begin

text \<open>
  \<open>src/main.rs\<close>: the command line, the start-up of the pool, the autoscaler's background
  task, binding the listener and the final shutdown.  clap, shlex, the environment, the
  file system and sockets are parameters; logging is left out.
\<close>

section \<open>The command line\<close>

definition parse_usize :: "string \<Rightarrow> int_error + nat" where
  "parse_usize s = parse_uint (2 ^ 64 - 1) s"

definition parse_pool_size :: "string \<Rightarrow> string + nat" where
  "parse_pool_size value =
     (case map_err (\<lambda>_. ''invalid pool size: '' @ value) (parse_usize value) of
        Inl err \<Rightarrow> Inl err
      | Inr parsed \<Rightarrow>
          if parsed = 0 then Inl ''pool size must be at least 1'' else Inr parsed)"

definition parse_cooldown_secs :: "string \<Rightarrow> string + u64" where
  "parse_cooldown_secs value =
     (case map_err (\<lambda>_. ''invalid cooldown seconds: '' @ value) (parse_u64 value) of
        Inl err \<Rightarrow> Inl err
      | Inr parsed \<Rightarrow>
          if parsed = 0 then Inl ''scale-down cooldown must be at least 1 second'' else Inr parsed)"

definition parse_interval_ms :: "string \<Rightarrow> string + u64" where
  "parse_interval_ms value =
     (case map_err (\<lambda>_. ''invalid autoscale interval milliseconds: '' @ value) (parse_u64 value) of
        Inl err \<Rightarrow> Inl err
      | Inr parsed \<Rightarrow>
          if parsed = 0 then Inl ''autoscale interval must be at least 1 millisecond''
          else Inr parsed)"

datatype listen_addr = Addr_V4 string | Addr_V6 bool string

record cli =
  cli_pool_size :: nat
  cli_max_pool_size :: "nat option"
  cli_scale_down_cooldown_secs :: u64
  cli_autoscale_interval_ms :: u64
  cli_runtime_dir :: string
  cli_ch_bin :: string
  cli_bridge :: "string option"
  cli_listen_addr :: listen_addr

text \<open>
  What the argument attributes ask of clap: the given text goes through the value parser,
  an option that is not given has its default.  The boolean of a V6 address says whether it
  is the unspecified one.
\<close>

record raw_cli =
  rc_pool_size :: "string option"
  rc_max_pool_size :: "string option"
  rc_scale_down_cooldown_secs :: "string option"
  rc_autoscale_interval_ms :: "string option"
  rc_runtime_dir :: "string option"
  rc_ch_bin :: string
  rc_bridge :: "string option"
  rc_listen_addr :: "listen_addr option"

definition value_or :: "(string \<Rightarrow> string + 'a) \<Rightarrow> 'a \<Rightarrow> string option \<Rightarrow> string + 'a" where
  "value_or parser dflt given = (case given of None \<Rightarrow> Inr dflt | Some v \<Rightarrow> parser v)"

definition parse_cli :: "raw_cli \<Rightarrow> string + cli" where
  "parse_cli r =
     (case value_or parse_pool_size 4 (rc_pool_size r) of Inl err \<Rightarrow> Inl err | Inr slots \<Rightarrow>
     (case value_or (map_sum id Some \<circ> parse_pool_size) None (rc_max_pool_size r) of
        Inl err \<Rightarrow> Inl err | Inr max_size \<Rightarrow>
     (case value_or parse_cooldown_secs 15 (rc_scale_down_cooldown_secs r) of
        Inl err \<Rightarrow> Inl err | Inr cooldown \<Rightarrow>
     (case value_or parse_interval_ms 1000 (rc_autoscale_interval_ms r) of
        Inl err \<Rightarrow> Inl err | Inr interval \<Rightarrow>
       Inr \<lparr>cli_pool_size = slots, cli_max_pool_size = max_size,
            cli_scale_down_cooldown_secs = cooldown, cli_autoscale_interval_ms = interval,
            cli_runtime_dir = (case rc_runtime_dir r of None \<Rightarrow> ''/tmp'' | Some d \<Rightarrow> d),
            cli_ch_bin = rc_ch_bin r, cli_bridge = rc_bridge r,
            cli_listen_addr =
              (case rc_listen_addr r of None \<Rightarrow> Addr_V6 True ''[::]:7777'' | Some a \<Rightarrow> a)\<rparr>))))"

section \<open>Start-up\<close>

datatype env_var = Env_value string | Env_not_present | Env_not_unicode

record start_env =
  st_env_args :: env_var
  st_shlex_split :: "string \<Rightarrow> string list option"
  st_create_dir_all :: "string \<Rightarrow> string + unit"

definition env_args_name :: string where
  "env_args_name = ''CLOUD_HYPERVISOR_ARGS''"

definition parse_env_args :: "start_env \<Rightarrow> string + string list" where
  "parse_env_args S =
     (case st_env_args S of
        Env_value raw_args \<Rightarrow>
          ok_or (''invalid '' @ env_args_name @ '': could not parse shell-style arguments'')
            (st_shlex_split S raw_args)
      | Env_not_present \<Rightarrow> Inr []
      | Env_not_unicode \<Rightarrow> Inl (''invalid '' @ env_args_name @ '': value is not valid Unicode''))"

definition resolve_program_and_args :: "start_env \<Rightarrow> string \<Rightarrow> string + string \<times> string list" where
  "resolve_program_and_args S program = map_sum id (Pair program) (parse_env_args S)"

definition max_size_text :: "nat \<Rightarrow> nat \<Rightarrow> string" where
  "max_size_text max_size min_size =
     ''--max-pool-size ('' @ show_nat max_size @ '') must be >= --pool-size ('' @ show_nat min_size @ '')''"

definition startup :: "start_env \<Rightarrow> cli \<Rightarrow> string + process_pool" where
  "startup S c =
     (let max_size = (case cli_max_pool_size c of Some n \<Rightarrow> n | None \<Rightarrow> cli_pool_size c) in
      if max_size < cli_pool_size c then Inl (max_size_text max_size (cli_pool_size c))
      else
        (case resolve_program_and_args S (cli_ch_bin c) of
           Inl err \<Rightarrow> Inl err
         | Inr (program, args) \<Rightarrow>
             (case st_create_dir_all S (cli_runtime_dir c) of
                Inl err \<Rightarrow> Inl err
              | Inr _ \<Rightarrow>
                  pool_spawn (cli_pool_size c) max_size
                    (1000 * unat (cli_scale_down_cooldown_secs c)) program args (cli_bridge c)
                    (cli_runtime_dir c))))"

section \<open>The listener\<close>

text \<open>
  The socket calls in order; an unspecified IPv6 address gets a dual-stack socket, any other
  address tokio's own \<open>bind\<close>.
\<close>

datatype sock_op =
    Op_tokio_bind listen_addr
  | Op_new_ipv6_stream
  | Op_set_reuse_address
  | Op_set_only_v6_off
  | Op_bind listen_addr
  | Op_listen nat
  | Op_set_nonblocking
  | Op_from_std

fun run_ops :: "(sock_op \<Rightarrow> string + unit) \<Rightarrow> sock_op list \<Rightarrow> string + unit" where
  "run_ops os [] = Inr ()"
| "run_ops os (x # xs) = (case os x of Inl err \<Rightarrow> Inl err | Inr _ \<Rightarrow> run_ops os xs)"

fun bind_plan :: "listen_addr \<Rightarrow> sock_op list" where
  "bind_plan (Addr_V4 a) = [Op_tokio_bind (Addr_V4 a)]"
| "bind_plan (Addr_V6 unspecified a) =
     (if unspecified then
        [Op_new_ipv6_stream, Op_set_reuse_address, Op_set_only_v6_off, Op_bind (Addr_V6 unspecified a),
         Op_listen 1024, Op_set_nonblocking, Op_from_std]
      else [Op_tokio_bind (Addr_V6 unspecified a)])"

definition bind_listener :: "(sock_op \<Rightarrow> string + unit) \<Rightarrow> listen_addr \<Rightarrow> string + unit" where
  "bind_listener os a = run_ops os (bind_plan a)"

section \<open>The background task and the shutdown\<close>

text \<open>
  One round of the background task: a tick of the interval (an await of any length; the
  first is immediate and missed ones come in a burst), the write lock, the autoscaler,
  the lock given back.  \<open>None\<close> is a round that never ends.  The second component of a round
  is what the workers can do while one is joined.
\<close>

definition autoscale_round ::
  "pool_env \<Rightarrow> loop_input list \<Rightarrow> pool_world \<Rightarrow> pool_world option" where
  "autoscale_round E turns w =
     map_option (\<lambda>(r, w1). unlock w1) (autoscale_tick E turns (lock_as Write_held E (await E w)))"

fun autoscale_rounds ::
  "pool_env \<Rightarrow> loop_input list list \<Rightarrow> pool_world \<Rightarrow> pool_world option" where
  "autoscale_rounds E [] w = Some w"
| "autoscale_rounds E (turns # rest) w =
     Option.bind (autoscale_round E turns w) (autoscale_rounds E rest)"

text \<open>
  What \<open>main\<close> does once the server has stopped: the write lock, for which it waits for ever
  behind a scale-down, then the shutdown.
\<close>

definition daemon_stop ::
  "pool_env \<Rightarrow> loop_input list \<Rightarrow> pool_world \<Rightarrow> (slot_handle list \<times> process_pool) option" where
  "daemon_stop E turns w =
     (let w1 = lock_as Write_held E w in
      if denied_waits w1 = denied_waits w then pool_shutdown turns (pw_pool w1) else None)"

section \<open>Parsing numbers\<close>

lemma parse_digits_mono:
  "parse_digits mx acc s = Inr n \<Longrightarrow> mx \<le> mx' \<Longrightarrow> parse_digits mx' acc s = Inr n"
  by (induction s arbitrary: acc) (auto split: option.splits if_splits)

lemma parse_uint_mono: "parse_uint mx s = Inr n \<Longrightarrow> mx \<le> mx' \<Longrightarrow> parse_uint mx' s = Inr n"
  unfolding parse_uint_def
  by (auto simp del: parse_digits.simps split: list.splits if_splits intro: parse_digits_mono)

lemma parse_show_too_large:
  assumes "mx < n"
  shows "\<exists>err. parse_uint mx (show_nat n) = Inl err"
proof (cases "parse_uint mx (show_nat n)")
  case (Inr m)
  from parse_uint_mono [OF this, of n] parse_show_nat [of n n] assms have "m = n" by simp
  with parse_uint_bound [OF Inr] assms show ?thesis by simp
qed simp

text \<open>
  C37: Numeric options.  The decimal text of a number is accepted as a pool size, as a
  cooldown and as an interval exactly when the number is between 1 and 2^64 - 1, and then
  it is that number; 0 and every larger number are refused, each with its own message.
\<close>

theorem numeric_options:
  "(1 \<le> n \<and> n < 2 ^ 64 \<longrightarrow>
      parse_pool_size (show_nat n) = Inr n
      \<and> parse_cooldown_secs (show_nat n) = Inr (of_nat n)
      \<and> parse_interval_ms (show_nat n) = Inr (of_nat n)
      \<and> unat (of_nat n :: u64) = n)
   \<and> parse_pool_size (show_nat 0) = Inl ''pool size must be at least 1''
   \<and> parse_cooldown_secs (show_nat 0) = Inl ''scale-down cooldown must be at least 1 second''
   \<and> parse_interval_ms (show_nat 0) = Inl ''autoscale interval must be at least 1 millisecond''
   \<and> (2 ^ 64 \<le> n \<longrightarrow>
      parse_pool_size (show_nat n) = Inl (''invalid pool size: '' @ show_nat n)
      \<and> parse_cooldown_secs (show_nat n) = Inl (''invalid cooldown seconds: '' @ show_nat n)
      \<and> parse_interval_ms (show_nat n) = Inl (''invalid autoscale interval milliseconds: '' @ show_nat n))"
proof -
  have small: "parse_uint (2 ^ 64 - 1) (show_nat n) = Inr n \<and> unat (of_nat n :: u64) = n"
    if "n < 2 ^ 64" for n
    using that parse_show_nat [of n "2 ^ 64 - 1"] by (simp add: unat_of_nat take_bit_nat_eq_self)
  have nz: "(of_nat n :: u64) \<noteq> 0" if "1 \<le> n" "n < 2 ^ 64"
    using small [OF that(2)] that(1) by auto
  have zero: "parse_uint (2 ^ 64 - 1) (show_nat 0) = Inr 0" using small [of 0] by simp
  have large: "\<exists>err. parse_uint (2 ^ 64 - 1) (show_nat n) = Inl err" if "2 ^ 64 \<le> n"
    using that by (intro parse_show_too_large) simp
  note defs = parse_pool_size_def parse_cooldown_secs_def parse_interval_ms_def parse_usize_def parse_u64_def
  show ?thesis
    using small [of n] nz zero large unfolding defs by (auto simp del: One_nat_def)
qed

theorem numeric_options_witness:
  "parse_pool_size (show_nat 8) = Inr 8 \<and> parse_cooldown_secs (show_nat 8) = Inr 8
   \<and> parse_interval_ms (show_nat (2 ^ 64))
       = Inl (''invalid autoscale interval milliseconds: '' @ show_nat (2 ^ 64))"
  using numeric_options [of 8] numeric_options [of "2 ^ 64"] by simp

section \<open>Which start-ups succeed\<close>

definition max_pool_size :: "cli \<Rightarrow> nat" where
  "max_pool_size c = (case cli_max_pool_size c of Some n \<Rightarrow> n | None \<Rightarrow> cli_pool_size c)"

text \<open>
  C34: Refused start-ups.  The daemon refuses to start exactly when the maximum pool size is
  below the minimum, \<open>CLOUD_HYPERVISOR_ARGS\<close> is not Unicode or not parsable, or the runtime
  directory cannot be created; the sizes are checked first, and nothing is created before
  both checks have passed.
\<close>

theorem startup_refused:
  "((\<exists>err. startup S c = Inl err) \<longleftrightarrow>
      max_pool_size c < cli_pool_size c \<or> (\<exists>err. parse_env_args S = Inl err)
      \<or> (\<exists>err. st_create_dir_all S (cli_runtime_dir c) = Inl err))
   \<and> (max_pool_size c < cli_pool_size c \<longrightarrow>
      (\<forall>S'. startup S' c = Inl (max_size_text (max_pool_size c) (cli_pool_size c))))
   \<and> (\<forall>err. cli_pool_size c \<le> max_pool_size c \<longrightarrow> parse_env_args S = Inl err \<longrightarrow>
      (\<forall>mk. startup (S\<lparr>st_create_dir_all := mk\<rparr>) c = Inl err))"
proof -
  have env: "parse_env_args (S\<lparr>st_create_dir_all := mk\<rparr>) = parse_env_args S" for mk
    by (simp add: parse_env_args_def split: env_var.split)
  show ?thesis
    unfolding startup_def max_pool_size_def [symmetric] Let_def resolve_program_and_args_def env pool_spawn_def
    by (cases "parse_env_args S") (auto split: sum.split)
qed

text \<open>
  No shutdown is under way, every worker runs and has dealt with every process but its
  current one.
\<close>

definition serving :: "process_pool \<Rightarrow> bool" where
  "serving p = (\<not> pp_shutdown p \<and> all_alive p \<and> all_slots (\<lambda>n. children_accounted) p)"

lemma accounted_action:
  "\<not> pp_shutdown p \<Longrightarrow> all_slots (\<lambda>n. children_accounted) p \<Longrightarrow>
   all_slots (\<lambda>n. children_accounted) (apply_action a p)"
  using slot_step_accounted [of _ _ "Ev_spawn _"] slot_step_accounted [of _ _ "Ev_poll _"]
    slot_step_accounted [of _ _ "Ev_command _ _"] children_accounted_initial
  by (cases a) (auto simp: all_slots_def slot_rt_updates)

lemma all_alive_butlast:
  "all_alive p \<Longrightarrow> all_alive (p\<lparr>pp_slots := butlast (pp_slots p), pp_last_scale_down := t\<rparr>)"
  by (auto simp: all_alive_def list_all_iff dest: in_set_butlastD)

lemma all_alive_action: "\<not> pp_shutdown p \<Longrightarrow> all_alive p \<Longrightarrow> all_alive (apply_action a p)"
  by (cases a) (auto simp: all_alive_on_slot all_alive_extend all_alive_butlast)

lemma no_shutdown_action: "\<not> pp_shutdown p \<Longrightarrow> \<not> pp_shutdown (apply_action a p)"
  by (cases a) simp_all

interpretation running: pool_invariant "\<lambda>p. \<not> pp_shutdown p"
  by unfold_locales (rule no_shutdown_action)

interpretation duty: pool_invariant serving
  by unfold_locales (simp add: serving_def accounted_action all_alive_action no_shutdown_action)

lemma startup_Inr:
  assumes "startup S c = Inr p"
  obtains args where "parse_env_args S = Inr args"
    and "pool_spawn (cli_pool_size c) (max_pool_size c) (1000 * unat (cli_scale_down_cooldown_secs c))
      (cli_ch_bin c) args (cli_bridge c) (cli_runtime_dir c) = Inr p"
  using assms that
  unfolding startup_def max_pool_size_def [symmetric] Let_def resolve_program_and_args_def
  by (cases "parse_env_args S") (auto split: sum.splits if_splits)

lemma spawn_fields:
  assumes "pool_spawn mn mx cd program args bridge vm_path = Inr p"
  shows "length (pp_slots p) = mn" and "pp_min p = mn" and "pp_max p = mx" and "pp_cooldown p = cd"
    and "pp_args p = args" and "pp_program p = program" and "pp_vm_path p = vm_path"
    and "pp_last_scale_down p = None" and "serving p"
proof -
  from assms have p: "p = \<lparr>pp_shutdown = False,
             pp_slots = map (\<lambda>n. initialize_slot n program args bridge vm_path) [0..<mn],
             pp_vm_path = vm_path, pp_program = program, pp_args = args, pp_bridge = bridge,
             pp_min = mn, pp_max = mx, pp_cooldown = cd, pp_last_scale_down = None\<rparr>"
    by (auto simp: pool_spawn_def split: if_splits)
  show "length (pp_slots p) = mn" "pp_min p = mn" "pp_max p = mx" "pp_cooldown p = cd"
    "pp_args p = args" "pp_program p = program" "pp_vm_path p = vm_path" "pp_last_scale_down p = None"
    by (simp_all add: p)
  show "serving p"
    by (auto simp: p serving_def all_alive_def all_slots_def slot_rt_def initialize_slot_def Let_def
        list_all_iff children_accounted_initial)
qed

lemma startup_fields:
  assumes "startup S c = Inr p"
  shows "pool_ok p" and "serving p" and "pool_size p = cli_pool_size c"
    and "sizes_are (cli_pool_size c) (max_pool_size c) p" and "parse_env_args S = Inr (pp_args p)"
    and "pp_program p = cli_ch_bin c" and "pp_vm_path p = cli_runtime_dir c"
    and "pp_cooldown p = 1000 * unat (cli_scale_down_cooldown_secs c)"
proof -
  from startup_Inr [OF assms] obtain args where e: "parse_env_args S = Inr args"
    and s: "pool_spawn (cli_pool_size c) (max_pool_size c) (1000 * unat (cli_scale_down_cooldown_secs c))
      (cli_ch_bin c) args (cli_bridge c) (cli_runtime_dir c) = Inr p" .
  note f = spawn_fields [OF s]
  show "pool_ok p" using s by (rule pool_spawn_ok)
  show "serving p" "pool_size p = cli_pool_size c" "sizes_are (cli_pool_size c) (max_pool_size c) p"
    "parse_env_args S = Inr (pp_args p)" "pp_program p = cli_ch_bin c" "pp_vm_path p = cli_runtime_dir c"
    "pp_cooldown p = 1000 * unat (cli_scale_down_cooldown_secs c)"
    using f e by (simp_all add: pool_size_def sizes_are_def)
qed

lemma startup_unscaled: "startup S c = Inr p \<Longrightarrow> pp_last_scale_down p = None"
  by (erule startup_Inr) (rule spawn_fields(8))

lemma parse_pool_size_pos: "parse_pool_size s = Inr n \<Longrightarrow> 1 \<le> n"
  by (auto simp: parse_pool_size_def split: sum.splits if_splits)

lemma parse_cooldown_pos: "parse_cooldown_secs s = Inr n \<Longrightarrow> 1 \<le> unat n"
  by (auto simp: parse_cooldown_secs_def unat_gt_0 Suc_le_eq split: sum.splits if_splits)

lemma value_or_Inr: "value_or f d g = Inr x \<Longrightarrow> x = d \<or> (\<exists>s. f s = Inr x)"
  by (auto simp: value_or_def split: option.splits)

lemma parse_cli_pos:
  assumes "parse_cli r = Inr c"
  shows "1 \<le> cli_pool_size c" and "1 \<le> unat (cli_scale_down_cooldown_secs c)"
proof -
  from assms have "value_or parse_pool_size 4 (rc_pool_size r) = Inr (cli_pool_size c)"
    and "value_or parse_cooldown_secs 15 (rc_scale_down_cooldown_secs r) = Inr (cli_scale_down_cooldown_secs c)"
    by (auto simp: parse_cli_def split: sum.splits)
  from this [THEN value_or_Inr] show "1 \<le> cli_pool_size c" "1 \<le> unat (cli_scale_down_cooldown_secs c)"
    using parse_pool_size_pos parse_cooldown_pos by fastforce+
qed

text \<open>
  C22: The started pool.  From a command line clap accepts, a start-up that succeeds gives a
  well-formed pool with at least one slot, exactly as many as asked for, a cooldown of at
  least a second, and in which every slot runs the given program with the arguments of
  \<open>CLOUD_HYPERVISOR_ARGS\<close> followed by its own API socket under the runtime directory.
\<close>

theorem startup_pool:
  assumes "parse_cli r = Inr c" and "startup S c = Inr p"
  shows "pool_ok p \<and> 1 \<le> pool_size p \<and> pool_size p = cli_pool_size c \<and> pool_size p \<le> max_pool_size c
    \<and> 1000 \<le> pp_cooldown p
    \<and> (\<exists>args. parse_env_args S = Inr args
        \<and> (\<forall>i < pool_size p. h_program (pp_slots p ! i) = cli_ch_bin c
             \<and> h_args (pp_slots p ! i)
                 = args @ [''--api-socket'', path_join (cli_runtime_dir c) (socket_name i)]))"
proof -
  note f = startup_fields [OF assms(2)] and pos = parse_cli_pos [OF assms(1)]
  have h: "handles_ok p" and s: "size_ok p" using f(1) by (simp_all add: pool_ok_def)
  have "h_program (pp_slots p ! i) = cli_ch_bin c
      \<and> h_args (pp_slots p ! i) = pp_args p @ [''--api-socket'', path_join (cli_runtime_dir c) (socket_name i)]"
    if "i < pool_size p" for i
    using h that f(6,7) by (simp add: handles_ok_def pool_size_def vm_socket_path_def)
  with f pos s show ?thesis by (auto simp: sizes_are_def size_ok_def)
qed

definition demo_raw_cli :: raw_cli where
  "demo_raw_cli = \<lparr>rc_pool_size = None, rc_max_pool_size = None, rc_scale_down_cooldown_secs = None,
     rc_autoscale_interval_ms = None, rc_runtime_dir = None, rc_ch_bin = ''ch'', rc_bridge = None,
     rc_listen_addr = None\<rparr>"

definition demo_start_env :: start_env where
  "demo_start_env = \<lparr>st_env_args = Env_not_present, st_shlex_split = (\<lambda>_. None),
     st_create_dir_all = (\<lambda>_. Inr ())\<rparr>"

lemma demo_startup:
  "\<exists>c p. parse_cli demo_raw_cli = Inr c \<and> startup demo_start_env c = Inr p \<and> cli_pool_size c = 4
     \<and> max_pool_size c = 4"
  by (simp add: parse_cli_def demo_raw_cli_def value_or_def startup_def Let_def demo_start_env_def
      resolve_program_and_args_def parse_env_args_def pool_spawn_def max_pool_size_def)

theorem startup_refused_witness:
  "\<exists>c. parse_cli (demo_raw_cli\<lparr>rc_max_pool_size := Some (show_nat 2)\<rparr>) = Inr c
     \<and> startup demo_start_env c = Inl (max_size_text 2 4)"
proof -
  have "parse_pool_size (show_nat 2) = Inr 2"
    using parse_show_nat [of 2 "2 ^ 64 - 1"] by (simp add: parse_pool_size_def parse_usize_def)
  then obtain c where c: "parse_cli (demo_raw_cli\<lparr>rc_max_pool_size := Some (show_nat 2)\<rparr>) = Inr c"
    and m: "max_pool_size c = 2" "cli_pool_size c = 4"
    by (simp add: parse_cli_def demo_raw_cli_def value_or_def max_pool_size_def)
  from startup_refused [of demo_start_env c] m c show ?thesis by auto
qed

theorem startup_pool_witness:
  "\<exists>c p. parse_cli demo_raw_cli = Inr c \<and> startup demo_start_env c = Inr p
     \<and> pool_size p = 4 \<and> 1000 \<le> pp_cooldown p"
  using demo_startup startup_pool [of demo_raw_cli _ demo_start_env] by metis

section \<open>The autoscaler in the default configuration\<close>

lemma locked_tick_steps: "pool_steps (pw_pool w) (pw_pool (lock_as l E (await E w)))"
  using pool_steps_trans [OF await_steps await_steps] by simp

lemma tick_at_minimum:
  "length (pp_slots (pw_pool w)) \<le> pp_min (pw_pool w) \<Longrightarrow> autoscale_tick E turns w = Some (Inr False, w)"
  by (simp add: autoscale_tick_def Let_def)

lemma fixed_round:
  assumes "pool_ok (pw_pool w)" and "sizes_are n n (pw_pool w)"
  shows "\<exists>w'. autoscale_round E turns w = Some w' \<and> pw_lock w' = Unlocked
    \<and> pool_steps (pw_pool w) (pw_pool w') \<and> length (pp_slots (pw_pool w')) = n"
proof -
  let ?w = "lock_as Write_held E (await E w)"
  have st: "pool_steps (pw_pool w) (pw_pool ?w)" by (rule locked_tick_steps)
  have "size_ok (pw_pool ?w)" "sizes_are n n (pw_pool ?w)"
    using pool.J_steps [OF st assms(1)] sizes.J_steps [OF st assms(2)] by (simp_all add: pool_ok_def)
  then have n: "length (pp_slots (pw_pool ?w)) = n" and "pp_min (pw_pool ?w) = n"
    by (simp_all add: size_ok_def sizes_are_def)
  then have "autoscale_tick E turns ?w = Some (Inr False, ?w)" by (intro tick_at_minimum) simp
  with st n show ?thesis by (simp add: autoscale_round_def)
qed

lemma fixed_rounds:
  "pool_ok (pw_pool w) \<Longrightarrow> sizes_are n n (pw_pool w) \<Longrightarrow> pw_lock w = Unlocked \<Longrightarrow>
   \<exists>w'. autoscale_rounds E rounds w = Some w' \<and> pw_lock w' = Unlocked \<and> pool_steps (pw_pool w) (pw_pool w')"
proof (induction rounds arbitrary: w)
  case (Cons turns rounds)
  from fixed_round [OF Cons.prems(1,2)] obtain w1 where r: "autoscale_round E turns w = Some w1"
    and w1: "pw_lock w1 = Unlocked" "pool_steps (pw_pool w) (pw_pool w1)" by blast
  have "pool_ok (pw_pool w1)" "sizes_are n n (pw_pool w1)"
    using pool.J_steps sizes.J_steps w1(2) Cons.prems(1,2) by blast+
  from Cons.IH [OF this w1(1)] r w1(2) show ?case by (auto intro: pool_steps_trans)
qed (auto intro: steps_refl)

text \<open>
  The default configuration is live.  When \<open>--max-pool-size\<close> is not given, the
  autoscaler never tries to remove a slot: from any state other tasks can reach after the
  start-up, any number of rounds returns, each giving the lock back, and the pool keeps
  exactly the size asked for.
\<close>

theorem default_autoscaler_returns:
  assumes "startup S c = Inr p" and "cli_max_pool_size c = None"
    and "pool_steps p (pw_pool w)" and "pw_lock w = Unlocked"
  shows "\<exists>w'. autoscale_rounds E rounds w = Some w' \<and> pw_lock w' = Unlocked
    \<and> pool_ok (pw_pool w') \<and> pool_size (pw_pool w') = cli_pool_size c"
proof -
  have m: "max_pool_size c = cli_pool_size c" using assms(2) by (simp add: max_pool_size_def)
  have ok: "pool_ok (pw_pool w)" using pool.J_steps [OF assms(3)] startup_fields(1) [OF assms(1)] .
  have sz: "sizes_are (cli_pool_size c) (cli_pool_size c) (pw_pool w)"
    using sizes.J_steps [OF assms(3)] startup_fields(4) [OF assms(1)] by (simp add: m)
  from fixed_rounds [OF ok sz assms(4)] obtain w' where w': "autoscale_rounds E rounds w = Some w'"
    "pw_lock w' = Unlocked" "pool_steps (pw_pool w) (pw_pool w')" by blast
  have "pool_ok (pw_pool w')" "sizes_are (cli_pool_size c) (cli_pool_size c) (pw_pool w')"
    using pool.J_steps [OF w'(3) ok] sizes.J_steps [OF w'(3) sz] by simp_all
  then show ?thesis
    using w'(1,2) by (auto simp: pool_ok_def size_ok_def sizes_are_def pool_size_def)
qed

theorem default_autoscaler_returns_witness:
  "\<exists>c p w'. startup demo_start_env c = Inr p
     \<and> autoscale_rounds demo_env [[], []] (demo_world Unlocked p) = Some w' \<and> pool_size (pw_pool w') = 4"
proof -
  from demo_startup obtain c p where c: "startup demo_start_env c = Inr p" "cli_pool_size c = 4"
    "parse_cli demo_raw_cli = Inr c" by blast
  have "cli_max_pool_size c = None"
    using c(3) by (auto simp: parse_cli_def demo_raw_cli_def value_or_def)
  from default_autoscaler_returns [OF c(1) this, of "demo_world Unlocked p" demo_env "[[], []]"] c
  show ?thesis by (auto intro: steps_refl)
qed

section \<open>From start to stop\<close>

text \<open>The shutdown in any pool reached from the start, and when it never comes about.\<close>

lemma stop_outcome:
  assumes "startup S c = Inr p" and "pool_steps p (pw_pool w)" and "turns \<noteq> []"
    and "q = pw_pool (await E w)"
  shows "if pe_autoscales E (pw_step w) \<and> scaling_down (pw_clock (await E w)) q
    then daemon_stop E turns w = None
    else \<exists>hs q'. daemon_stop E turns w = Some (hs, q') \<and> pp_slots q' = []
      \<and> list_all2 (worker_ended (li_stop (hd turns))) (pp_slots q) (rev hs)"
proof -
  have "pool_steps p q" using pool_steps_trans [OF await_steps assms(2)] assms(4) by simp
  then have "serving q" using duty.J_steps startup_fields(2) [OF assms(1)] by blast
  then show ?thesis
    using shutdown_joins [OF assms(3), of q] assms(4)
    unfolding daemon_stop_def serving_def Let_def denied_lock by auto
qed

text \<open>
  A tick that returns has only asked the last worker for its status; no slot has been
  removed.
\<close>

lemma tick_returned:
  assumes "pw_lock w = Write_held" and "\<not> pp_shutdown (pw_pool w)" and "autoscale_tick E turns w = Some (r, w')"
  shows "pool_steps (pw_pool w) (pw_pool w') \<and> grows (pw_pool w) (pw_pool w')"
proof -
  let ?n = "length (pp_slots (pw_pool w))"
  obtain s w1 where g: "get_vm_slot_status E (?n - 1) w = (s, w1)" by fastforce
  then have w1: "pool_steps (pw_pool w) (pw_pool w1)" "grows (pw_pool w) (pw_pool w1)"
    using send_command_steps [of GetVmStatus w E "?n - 1"] send_command_grows [of w E "?n - 1" GetVmStatus]
    by (simp_all add: get_vm_slot_status_def)
  have len: "length (pp_slots (pw_pool w1)) = ?n"
    using calm_get_status [OF write_locked [OF assms(1)], of E "?n - 1"] g by (simp add: calm_def)
  show ?thesis
  proof (cases "\<exists>st. s = Inr st \<and> ss_state st = Empty \<and> pp_min (pw_pool w) < ?n
      \<and> (\<forall>t. pp_last_scale_down (pw_pool w) = Some t \<longrightarrow> pp_cooldown (pw_pool w) \<le> pw_clock w - t)")
    case True
    with g scale_down_blocked [OF assms(1,2)] assms(3) show ?thesis
      by (metis option.distinct(1))
  next
    case False
    with assms(3) g len w1 steps_refl show ?thesis
      by (auto simp: autoscale_tick_def Let_def not_le not_less
          split: option.splits if_splits sum.splits prod.splits)
  qed
qed

lemma round_returned:
  assumes "\<not> pp_shutdown (pw_pool w)" and "autoscale_round E turns w = Some w'"
  shows "pw_lock w' = Unlocked \<and> pool_steps (pw_pool w) (pw_pool w') \<and> grows (pw_pool w) (pw_pool w')"
proof -
  let ?w = "lock_as Write_held E (await E w)"
  have st: "pool_steps (pw_pool w) (pw_pool ?w)" by (rule locked_tick_steps)
  have gr: "grows (pw_pool w) (pw_pool ?w)" using grows_trans [OF await_grows await_grows] by simp
  have "\<not> pp_shutdown (pw_pool ?w)" using running.J_steps [OF st assms(1)] .
  with assms(2) tick_returned [of ?w E turns] show ?thesis
    using st gr by (auto simp: autoscale_round_def intro: pool_steps_trans grows_trans)
qed

end
