(* ===== verification/ServiceFaults.thy ===== *)
theory ServiceFaults
  imports ServiceProps
begin

text \<open>
  Two ways a creation goes wrong: a failure that leaves its slot reserved under the VM's
  name with no call to take it back, and a slot that has changed hands while the creation
  waited.  Witnesses of the service's theorems on the demo pool follow.
\<close>

section \<open>A creation that leaves its slot reserved\<close>

lemma create_spec_undelivered:
  assumes "validate_boot_config c = Inr ()"
    and "allocate_spec (co_tap (ch_os C)) (bc_name c) (mac_for_name (ch_sha256 C) (bc_name c)) p
      = (Inr st, p1)"
    and "\<not> slot_ready C (ss_slot st) p1
      \<or> (\<exists>body err. ch_to_vec C (create_body c st) = Inr body
          \<and> send_spec C (ss_slot st) Method_PUT (create_path c) body (Some ''application/json'') p1 = Inl err)"
  shows "\<exists>err. create_spec C c p = (Inl err, p1)"
  using assms by (auto simp: create_spec_def request_spec_def checked_spec_def)

text \<open>
  C16: A failed creation can leave its slot reserved.  When the slot does not become ready,
  or the create request cannot be delivered, \<open>create_vm\<close> answers with an error but the slot
  stays booting under the VM's name: creating the VM again is refused because it is already
  running, and deleting it is refused because it is not running.
\<close>

theorem create_vm_leaks_slot:
  assumes "calm_setting C E H" and "all_alive (pw_pool w)" and "numbered (pw_pool w)"
    and "validate_boot_config c = Inr ()"
    and "allocate_spec (co_tap (ch_os C)) (bc_name c) (mac_for_name (ch_sha256 C) (bc_name c)) (pw_pool w)
      = (Inr st, p1)"
    and "\<not> slot_ready C (ss_slot st) p1
      \<or> (\<exists>body err. ch_to_vec C (create_body c st) = Inr body
          \<and> send_spec C (ss_slot st) Method_PUT (create_path c) body (Some ''application/json'') p1 = Inl err)"
  shows "\<exists>err w1. create_vm E H c w = Some (Inl err, w1)
    \<and> ss_state (slot_st (pw_pool w1) (ss_slot st)) = Booting
    \<and> ss_name (slot_st (pw_pool w1) (ss_slot st)) = Some (bc_name c)
    \<and> (\<exists>w2. create_vm E H c w1
         = Some (Inl (Conflict (''VM '' @ quoted (bc_name c) @ '' is already running'')), w2))
    \<and> fst (delete_vm E H (bc_name c) w1)
         = Inl (Conflict (''VM '' @ quoted (bc_name c) @ '' is not running''))"
proof -
  note alloc = allocate_spec_Inr [OF assms(5,2,3)]
  obtain err where "create_spec C c (pw_pool w) = (Inl err, p1)"
    using create_spec_undelivered [OF assms(4,5,6)] by blast
  then obtain w1 where c1: "create_vm E H c w = Some (Inl err, w1)" and p1: "pw_pool w1 = p1"
    using create_quiet [OF assms(1-3), of c] by auto
  have st: "ss_state (slot_st p1 (ss_slot st)) = Booting" "ss_name (slot_st p1 (ss_slot st)) = Some (bc_name c)"
    using alloc by (simp_all add: reserved_for_def)
  have "name_used (bc_name c) p1" using alloc st by (auto simp: name_used_iff)
  then have "create_spec C c p1
      = (Inl (Conflict (''VM '' @ quoted (bc_name c) @ '' is already running'')), p1)"
    by (simp add: create_spec_def assms(4) allocate_spec_def)
  then have c2: "\<exists>w2. create_vm E H c w1
         = Some (Inl (Conflict (''VM '' @ quoted (bc_name c) @ '' is already running'')), w2)"
    using create_quiet [OF assms(1), of w1 c] alloc p1 by auto
  have "slot_of_name (bc_name c) p1 = Some (ss_slot st)"
    using alloc st by (intro slot_of_name_sole) auto
  then have "delete_spec C (bc_name c) p1
      = (Inl (Conflict (''VM '' @ quoted (bc_name c) @ '' is not running'')), p1)"
    by (simp add: delete_spec_def running_spec_def st)
  then have "fst (delete_vm E H (bc_name c) w1)
         = Inl (Conflict (''VM '' @ quoted (bc_name c) @ '' is not running''))"
    using delete_quiet [OF assms(1), of w1 "bc_name c"] alloc p1 by simp
  with c1 c2 p1 st show ?thesis by auto
qed

definition mute_calm :: calm_host where
  "mute_calm = demo_calm\<lparr>ch_connect := (\<lambda>_. False)\<rparr>"

definition mute_host :: host_services where
  "mute_host = demo_host\<lparr>hs_connect := (\<lambda>_ _. False)\<rparr>"

lemma mute_calm_setting: "calm_setting mute_calm demo_env mute_host"
  by (simp add: calm_setting_def demo_env_quiet)
    (simp add: mute_calm_def mute_host_def demo_calm_def demo_host_def demo_env_def)

theorem create_vm_leaks_slot_witness:
  "\<exists>err w1. create_vm demo_env mute_host demo_config (demo_world Unlocked warm_pool) = Some (Inl err, w1)
     \<and> ss_state (slot_st (pw_pool w1) 0) = Booting"
proof -
  have al: "allocate_spec (co_tap (ch_os mute_calm)) (bc_name demo_config)
      (mac_for_name (ch_sha256 mute_calm) (bc_name demo_config)) (pw_pool (demo_world Unlocked warm_pool))
      = (Inr demo_status, demo_reserved_pool)"
    using demo_allocated by (simp add: mute_calm_def demo_config_sel)
  have nr: "\<not> slot_ready mute_calm (ss_slot demo_status) demo_reserved_pool"
    by (simp add: slot_ready_def mute_calm_def)
  show ?thesis
    using create_vm_leaks_slot [OF mute_calm_setting _ _ demo_config_valid al] nr
      warm_pool_alive warm_pool_numbered by (fastforce simp: demo_reserved)
qed

section \<open>A slot that has changed hands\<close>

text \<open>
  C17: A creation can answer with another VM.  The last step of a creation looks only at the
  slot, not at its generation: if, after the creation's last wait, the slot is booting for
  another VM (its own VM exited and the freed slot was reserved again), the creation marks
  that VM as running and answers with its runtime.
\<close>

theorem create_answers_current_tenant:
  assumes "wait_for_slot_ready (process_pool_facade E) (pool_service_env E H) i w = Some (Inr (), w1)"
    and "p = pw_pool (await E (lock_as Read_held E w1))"
    and "i < length (pp_slots (pw_pool (await E w1)))" and "i < length (pp_slots p)"
    and "h_alive (pp_slots p ! i)" and "reserved_for other mac (slot_st p i)"
    and "ss_pid (slot_st p i) = Some pid"
  shows "\<exists>rt w'. finish_create (process_pool_facade E) (pool_service_env E H) i at w = Some (Inr rt, w')
    \<and> vr_name rt = other \<and> vr_mac rt = mac \<and> vr_pid rt = pid"
proof -
  let ?l = "lock_as Read_held E w1"
  let ?st = "(slot_st p i)\<lparr>ss_state := Occupied, ss_started_at := Some at\<rparr>"
  have b: "ss_state (slot_st p i) = Booting" using assms(6) by (simp add: reserved_for_def)
  obtain w2 where "send_command E i (MarkVmBooted at) ?l = (Inr ?st, w2)"
    using assms(2-5) b
    by (simp add: send_command_def handle_command.simps slot_st_def Let_def)
  then obtain w3 where m: "mark_vm_slot_booted E i at ?l = (Inr ?st, w3)"
    by (simp add: mark_vm_slot_booted_def logged_command_def)
  obtain rt where t: "try_into_runtime ?st = Inr rt"
    using assms(6,7) by (auto simp: try_into_runtime_def reserved_for_def)
  then have "finish_create (process_pool_facade E) (pool_service_env E H) i at w = Some (Inr rt, unlock w3)"
    using assms(1) m by (simp add: finish_create_def)
  moreover have "vr_name rt = other \<and> vr_mac rt = mac \<and> vr_pid rt = pid"
    using runtime_from_slot_status_Some [of ?st rt] t assms(6,7)
    by (simp add: try_into_runtime_iff reserved_for_def)
  ultimately show ?thesis by blast
qed

text \<open>While \<open>vm-b\<close> waits, its VM exits and its slot is restarted and reserved for \<open>other\<close>.\<close>

definition swap_actions :: "pool_action list" where
  "swap_actions = [Act_poll 0 Exited, Act_spawn 0 (Inr (Some 8)), Act_reserve 0 demo_cmd_os ''other'' ''m2'']"

definition swap_env :: pool_env where
  "swap_env = demo_env\<lparr>pe_actions := (\<lambda>t. if t = 3 then swap_actions else [])\<rparr>"

lemma await_idle:
  "pe_actions E (pw_step w) = [] \<Longrightarrow> pw_pool (await E w) = pw_pool w"
  by (simp add: await_def)

lemma await_step [simp]: "pw_step (await E w) = Suc (pw_step w)"
  by (simp add: await_def)

lemma get_status_idle:
  assumes "pe_actions E (pw_step w) = []" and "all_alive (pw_pool w)" and "i < length (pp_slots (pw_pool w))"
  shows "\<exists>w'. get_vm_slot_status E i w = (Inr (slot_st (pw_pool w) i), w') \<and> pw_pool w' = pw_pool w
    \<and> pw_step w' = Suc (pw_step w)"
proof -
  have al: "h_alive (pp_slots (pw_pool w) ! i)"
    using assms(2,3) by (simp add: all_alive_def list_all_length)
  obtain w' where s: "send_command E i GetVmStatus w = (Inr (slot_st (pw_pool w) i), w')"
    and "pw_step w' = Suc (pw_step w)"
    using assms(3) al await_idle [OF assms(1)]
    by (simp add: send_command_def handle_command.simps Let_def slot_st_def log_entry_def)
  with send_get_status(2) [OF s] await_idle [OF assms(1)] show ?thesis
    by (simp add: get_vm_slot_status_def)
qed

lemma swap_wait:
  "\<exists>w1. wait_for_slot_ready (process_pool_facade swap_env) (pool_service_env swap_env demo_host) 0
       (demo_world Unlocked demo_reserved_pool) = Some (Inr (), w1)
     \<and> pw_pool w1 = demo_reserved_pool \<and> pw_step w1 = 3 \<and> pw_lock w1 = Unlocked"
proof -
  let ?w = "demo_world Unlocked demo_reserved_pool"
  have idle: "pe_actions swap_env t = []" if "t < 3" for t using that by (simp add: swap_env_def)
  have l: "pw_pool (lock_as Read_held swap_env ?w) = demo_reserved_pool"
    "pw_step (lock_as Read_held swap_env ?w) = 1"
    using await_idle [of swap_env ?w] idle [of 0] by (simp_all add: demo_world_def)
  obtain w2 where g: "get_vm_slot_status swap_env 0 (lock_as Read_held swap_env ?w) = (Inr demo_status, w2)"
    and p2: "pw_pool w2 = demo_reserved_pool" "pw_step w2 = 2"
    using get_status_idle [of swap_env "lock_as Read_held swap_env ?w" 0] l idle [of 1] demo_reserved
    by (metis (no_types, lifting) One_nat_def Suc_1 one_less_numeral_iff semiring_norm(77) zero_less_numeral)
  have a: "pw_pool (await swap_env (unlock w2)) = demo_reserved_pool"
    "pw_step (await swap_env (unlock w2)) = 3" "pw_lock (await swap_env (unlock w2)) = Unlocked"
    using await_idle [of swap_env "unlock w2"] p2 idle [of 2] by (simp_all add: await_lock)
  have c: "hs_connect demo_host t path" for t path by (simp add: demo_host_def demo_calm_def)
  have "wait_for_slot_ready (process_pool_facade swap_env) (pool_service_env swap_env demo_host) 0 ?w
      = Some (Inr (), await swap_env (unlock w2))"
    using g p2 c by (simp add: wait_for_slot_ready_def wait_loop.simps try_connect_def demo_reserved Let_def)
  with a show ?thesis by blast
qed

lemma demo_reserved_rt:
  "rt_status (slot_rt demo_reserved_pool 0) = demo_status"
  "rt_child (slot_rt demo_reserved_pool 0) = Some \<lparr>child_id = Some 7\<rparr>"
proof -
  have w: "slot_rt warm_pool 0 = spawn_phase (Inr (Some 7)) (initial_runtime 0)"
    by (simp add: warm_pool_def slot_rt_on_alive demo_pool_alive demo_pool_slots)
  have r: "slot_rt demo_reserved_pool 0 = log_os [Os_tap ''tap0''] ((slot_rt warm_pool 0)\<lparr>rt_status := demo_status\<rparr>)"
    by (simp add: demo_reserved_pool_def slot_rt_on_alive warm_pool_alive)
  show "rt_status (slot_rt demo_reserved_pool 0) = demo_status"
    "rt_child (slot_rt demo_reserved_pool 0) = Some \<lparr>child_id = Some 7\<rparr>"
    by (simp_all add: r log_os_def w spawn_phase_def slot_op_defs Let_def)
qed

lemma swap_pool:
  "slot_st (apply_actions swap_actions demo_reserved_pool) 0
     = reserve_status ''other'' ''m2'' ''tap0'' ((vacate_status demo_status)\<lparr>ss_pid := Some 8\<rparr>)"
  "all_alive (apply_actions swap_actions demo_reserved_pool)"
  "length (pp_slots (apply_actions swap_actions demo_reserved_pool)) = 2"
proof -
  let ?p1 = "on_slot 0 (poll_phase Exited) demo_reserved_pool"
  let ?p2 = "on_slot 0 (spawn_phase (Inr (Some 8))) ?p1"
  have len: "length (pp_slots ?p1) = 2" "length (pp_slots ?p2) = 2" by (simp_all add: demo_reserved)
  have al: "all_alive ?p1" "all_alive ?p2" by (simp_all add: all_alive_on_slot demo_reserved)
  have hal: "h_alive (pp_slots demo_reserved_pool ! 0)" "h_alive (pp_slots ?p1 ! 0)" "h_alive (pp_slots ?p2 ! 0)"
    using al demo_reserved(2,3) len by (simp_all add: all_alive_def list_all_length)
  have b: "ss_state demo_status = Booting" by (simp add: demo_status_def reserve_status_def)
  have r1: "rt_status (slot_rt ?p1 0) = vacate_status demo_status" "rt_child (slot_rt ?p1 0) = None"
    using hal(1) demo_reserved(2) b
    by (simp_all add: slot_rt_on_slot poll_phase_def demo_reserved_rt slot_op_defs Let_def)
  have r2: "slot_st ?p2 0 = (vacate_status demo_status)\<lparr>ss_pid := Some 8\<rparr>"
    using hal(2) len(1) r1
    by (simp add: slot_st_def slot_rt_on_slot spawn_phase_def slot_op_defs Let_def)
  have o2: "slot_st ?p2 1 = slot_st warm_pool 1"
    using al(1) demo_reserved(2,3) warm_pool_alive
    by (simp add: slot_st_on_slot all_alive_on_slot) (simp add: demo_reserved_pool_def slot_st_on_slot)
  have "ss_name (slot_st ?p2 i) = None" if "i < 2" for i
    using r2 o2 warm_pool_names [of 1] that
    by (cases "i = 0") (auto simp: less_2_cases_iff vacate_status_def)
  then have "\<not> name_used ''other'' ?p2" using len(2) by (simp add: name_used_iff)
  then have ap: "apply_actions swap_actions demo_reserved_pool = on_slot 0
      (\<lambda>rt. snd (handle_command demo_cmd_os (h_bridge (pp_slots ?p2 ! 0)) (ReserveVm ''other'' ''m2'' (tap_name 0)) rt)) ?p2"
    by (simp add: swap_actions_def)
  show "all_alive (apply_actions swap_actions demo_reserved_pool)"
    "length (pp_slots (apply_actions swap_actions demo_reserved_pool)) = 2"
    using al(2) len(2) by (simp_all add: ap all_alive_on_slot)
  have "ss_state (slot_st ?p2 0) = Empty" by (simp add: r2 vacate_status_def)
  then show "slot_st (apply_actions swap_actions demo_reserved_pool) 0
     = reserve_status ''other'' ''m2'' ''tap0'' ((vacate_status demo_status)\<lparr>ss_pid := Some 8\<rparr>)"
    using al(2) len(2) r2
    by (simp add: ap slot_st_on_slot)
      (simp add: handle_command.simps slot_st_def demo_tap_ok demo_cmd_os_def demo_tap_name log_os_def Let_def)
qed

theorem create_answers_current_tenant_witness:
  "\<exists>rt w'. finish_create (process_pool_facade swap_env) (pool_service_env swap_env demo_host) 0 ''t''
      (demo_world Unlocked demo_reserved_pool) = Some (Inr rt, w')
    \<and> ss_name (slot_st demo_reserved_pool 0) = Some ''vm-b'' \<and> vr_name rt = ''other''"
proof -
  obtain w1 where wt: "wait_for_slot_ready (process_pool_facade swap_env) (pool_service_env swap_env demo_host) 0
       (demo_world Unlocked demo_reserved_pool) = Some (Inr (), w1)"
    and w1: "pw_pool w1 = demo_reserved_pool" "pw_step w1 = 3" "pw_lock w1 = Unlocked"
    using swap_wait by blast
  let ?q = "apply_actions swap_actions demo_reserved_pool"
  have q1: "pw_pool (await swap_env w1) = ?q"
    using w1 by (simp add: await_def swap_env_def swap_actions_def)
  have q2: "?q = pw_pool (await swap_env (lock_as Read_held swap_env w1))"
    using q1 w1 await_idle [of swap_env "lock_as Read_held swap_env w1"] by (simp add: swap_env_def)
  have res: "reserved_for ''other'' ''m2'' (slot_st ?q 0)" "ss_pid (slot_st ?q 0) = Some 8"
    using demo_reserved(4)
    by (simp_all add: swap_pool reserved_for_def reserve_status_def vacate_status_def demo_tap_name)
  have al: "h_alive (pp_slots ?q ! 0)"
    using swap_pool(2,3) by (simp add: all_alive_def list_all_length)
  have "0 < length (pp_slots (pw_pool (await swap_env w1)))" "0 < length (pp_slots ?q)"
    using q1 swap_pool(3) by simp_all
  from create_answers_current_tenant [OF wt q2 this al res, of "''t''"] show ?thesis
    by (auto simp: demo_reserved) (simp add: demo_status_def reserve_status_def)
qed

section \<open>Witnesses on the demo pool\<close>

theorem create_vm_refines_witness:
  "\<exists>r w'. create_vm demo_env demo_host demo_config (demo_world Unlocked warm_pool) = Some (r, w')
     \<and> r = fst (create_spec demo_calm demo_config warm_pool)"
  using create_vm_refines [OF demo_calm_setting, of "demo_world Unlocked warm_pool" demo_config]
    warm_pool_alive warm_pool_numbered by auto

theorem delete_vm_refines_witness:
  "fst (delete_vm demo_env demo_host ''vm-z'' (demo_world Unlocked warm_pool))
     = Inl (NotFound (''VM '' @ quoted ''vm-z'' @ '' not found''))"
proof -
  have "slot_of_name ''vm-z'' warm_pool = None" by (simp add: slot_of_name_None warm_pool_unused)
  then show ?thesis
    using delete_vm_refines [OF demo_calm_setting, of "demo_world Unlocked warm_pool" "''vm-z''"]
      warm_pool_alive warm_pool_numbered by (simp add: delete_spec_def running_spec_def)
qed

lemma demo_accepts: "accepts (ch_transport demo_calm)"
  by (simp add: accepts_def demo_calm_def demo_transport_send)

lemma demo_deleted:
  "\<exists>w1 w2. delete_vm demo_env demo_host ''vm-b'' w1 = (Inr (), w2)"
proof -
  from demo_created obtain rt w1
    where c: "create_vm demo_env demo_host demo_config (demo_world Unlocked warm_pool) = Some (Inr rt, w1)"
    by blast
  obtain r w2 where d: "delete_vm demo_env demo_host (bc_name demo_config) w1 = (r, w2)" by fastforce
  have "all_alive (pw_pool (demo_world Unlocked warm_pool))" "pool_ok (pw_pool (demo_world Unlocked warm_pool))"
    by (simp_all add: warm_pool_alive warm_pool_ok)
  from create_delete [OF demo_calm_setting this demo_accepts c d] d show ?thesis
    by (auto simp: demo_config_sel)
qed


theorem create_then_delete_witness:
  "\<exists>rt w1 w2 i. create_vm demo_env demo_host demo_config (demo_world Unlocked warm_pool) = Some (Inr rt, w1)
     \<and> delete_vm demo_env demo_host ''vm-b'' w1 = (Inr (), w2) \<and> \<not> name_used ''vm-b'' (pw_pool w2)
     \<and> slot_st (pw_pool w2) i = recycled_status (slot_st warm_pool i)"
proof -
  from demo_created obtain rt w1
    where c: "create_vm demo_env demo_host demo_config (demo_world Unlocked warm_pool) = Some (Inr rt, w1)"
    by blast
  obtain r w2 where d: "delete_vm demo_env demo_host (bc_name demo_config) w1 = (r, w2)" by fastforce
  have "all_alive (pw_pool (demo_world Unlocked warm_pool))" "pool_ok (pw_pool (demo_world Unlocked warm_pool))"
    by (simp_all add: warm_pool_alive warm_pool_ok)
  from create_then_delete [OF demo_calm_setting this demo_accepts c d] c d show ?thesis
    by (auto simp: demo_config_sel)
qed

end
