(* ===== verification/DaemonRun.thy ===== *)
theory DaemonRun
  imports Daemon ServiceFaults
begin

text \<open>
  \<open>src/main.rs\<close> as a whole: start-up, listener, the requests served and the rounds of the
  background task in some order, the end of the server, shutdown.  Each request and round is
  run to its end while the environment's other tasks act at every await, so requests that
  overlap are covered.
\<close>

section \<open>The run\<close>

datatype signal_event = Ctrl_c "string + unit" | Terminated

text \<open>Registering the handler may fail; then the first of the two signals decides.\<close>

definition wait_for_shutdown_signal :: "string + unit \<Rightarrow> signal_event \<Rightarrow> string + unit" where
  "wait_for_shutdown_signal register ev =
     (case register of
        Inl err \<Rightarrow> Inl err
      | Inr _ \<Rightarrow> (case ev of Ctrl_c r \<Rightarrow> r | Terminated \<Rightarrow> Inr ()))"

datatype daemon_event = Call api_call | Tick "loop_input list"

fun daemon_events ::
  "'f api_env \<Rightarrow> pool_env \<Rightarrow> host_services \<Rightarrow> daemon_event list \<Rightarrow> pool_world \<Rightarrow> pool_world option" where
  "daemon_events A E H [] w = Some w"
| "daemon_events A E H (Call c # evs) w =
     Option.bind (call_outcome A E H c w) (\<lambda>(r, w1). daemon_events A E H evs w1)"
| "daemon_events A E H (Tick turns # evs) w =
     Option.bind (autoscale_round E turns w) (daemon_events A E H evs)"

definition fresh_world :: "process_pool \<Rightarrow> pool_world" where
  "fresh_world p = \<lparr>pw_pool = p, pw_step = 0, pw_clock = 0, pw_lock = Unlocked, pw_log = []\<rparr>"

text \<open>
  While the listener is bound the workers already run: \<open>main\<close> goes on in the world after
  one await.  \<open>ri_served_ok\<close> is axum's result.  A failed signal listener is only logged: the
  server stops all the same.  An error after the start-up ends the daemon without the
  shutdown.  The value is what \<open>main\<close> returns, the workers its shutdown has ended and the
  pool it leaves, if one was started; \<open>None\<close> is a daemon that hangs.
\<close>

record run_inputs =
  ri_raw :: raw_cli
  ri_start :: start_env
  ri_sockets :: "sock_op \<Rightarrow> string + unit"
  ri_local_addr :: "string + unit"
  ri_served_ok :: "string + unit"
  ri_events :: "daemon_event list"
  ri_turns :: "loop_input list"

record daemon_exit =
  de_result :: "string + unit"
  de_joined :: "slot_handle list"
  de_pool :: "process_pool option"

definition aborted :: "string \<Rightarrow> process_pool option \<Rightarrow> daemon_exit" where
  "aborted err p = \<lparr>de_result = Inl err, de_joined = [], de_pool = p\<rparr>"

definition bound_listener :: "run_inputs \<Rightarrow> cli \<Rightarrow> string + unit" where
  "bound_listener ri c =
     (case bind_listener (ri_sockets ri) (cli_listen_addr c) of
        Inl err \<Rightarrow> Inl err
      | Inr _ \<Rightarrow> ri_local_addr ri)"

definition daemon_main ::
  "'f api_env \<Rightarrow> pool_env \<Rightarrow> host_services \<Rightarrow> run_inputs \<Rightarrow> daemon_exit option" where
  "daemon_main A E H ri =
     (case parse_cli (ri_raw ri) of
        Inl err \<Rightarrow> Some (aborted err None)
      | Inr c \<Rightarrow>
     (case startup (ri_start ri) c of
        Inl err \<Rightarrow> Some (aborted err None)
      | Inr p \<Rightarrow>
          (let w0 = await E (fresh_world p) in
           case bound_listener ri c of
             Inl err \<Rightarrow> Some (aborted err (Some (pw_pool w0)))
           | Inr _ \<Rightarrow>
               Option.bind (daemon_events A E H (ri_events ri) w0) (\<lambda>w.
                 case ri_served_ok ri of
                   Inl err \<Rightarrow> Some (aborted err (Some (pw_pool w)))
                 | Inr _ \<Rightarrow>
                     map_option (\<lambda>(hs, q). \<lparr>de_result = Inr (), de_joined = hs, de_pool = Some q\<rparr>)
                       (daemon_stop E (ri_turns ri) w)))))"

lemma fresh_world_sel [simp]:
  "pw_pool (fresh_world p) = p" "pw_step (fresh_world p) = 0" "pw_lock (fresh_world p) = Unlocked"
  by (simp_all add: fresh_world_def)

section \<open>A clean shutdown\<close>

text \<open>Requests and rounds that return keep the pool going and remove no slot.\<close>

lemma events_returned:
  assumes "daemon_events A E H evs w = Some w'" and "pw_lock w = Unlocked" and "\<not> pp_shutdown (pw_pool w)"
  shows "pw_lock w' = Unlocked \<and> pool_steps (pw_pool w) (pw_pool w') \<and> grows (pw_pool w) (pw_pool w')"
  using assms
proof (induction evs arbitrary: w)
  case Nil
  then show ?case by (simp add: steps_refl)
next
  case (Cons ev evs)
  have "\<exists>w1. daemon_events A E H evs w1 = Some w' \<and> pw_lock w1 = Unlocked
      \<and> pool_steps (pw_pool w) (pw_pool w1) \<and> grows (pw_pool w) (pw_pool w1)"
  proof (cases ev)
    case (Call c)
    with Cons.prems(1) obtain r w1 where "call_outcome A E H c w = Some (r, w1)"
      and "daemon_events A E H evs w1 = Some w'" by (auto simp: bind_eq_Some_conv)
    with call_outcome_cases [OF Cons.prems(2), of A E H c] show ?thesis by (auto simp: served_def)
  next
    case (Tick turns)
    with Cons.prems(1) obtain w1 where "autoscale_round E turns w = Some w1"
      and "daemon_events A E H evs w1 = Some w'" by (auto simp: bind_eq_Some_conv)
    with round_returned [OF Cons.prems(3)] show ?thesis by blast
  qed
  then obtain w1 where w1: "daemon_events A E H evs w1 = Some w'" "pw_lock w1 = Unlocked"
    and st: "pool_steps (pw_pool w) (pw_pool w1)" "grows (pw_pool w) (pw_pool w1)" by blast
  from Cons.IH [OF w1 running.J_steps [OF st(1) Cons.prems(3)]] st show ?case
    by (blast intro: pool_steps_trans grows_trans)
qed

text \<open>Once the listener is bound, after any requests and rounds that have returned.\<close>

lemma run_returned:
  assumes "startup S c = Inr p" and "daemon_events A E H evs (await E (fresh_world p)) = Some w"
  shows "pw_lock w = Unlocked \<and> pool_steps p (pw_pool w) \<and> grows p (pw_pool w)"
proof -
  let ?w = "await E (fresh_world p)"
  have st: "pool_steps p (pw_pool ?w)" "grows p (pw_pool ?w)"
    using await_steps [of "fresh_world p" E] await_grows [of "fresh_world p" E] by simp_all
  have "\<not> pp_shutdown (pw_pool ?w)"
    using running.J_steps [OF st(1)] startup_fields(2) [OF assms(1)] by (simp add: serving_def)
  from events_returned [OF assms(2) _ this] st show ?thesis
    by (auto simp: frame_simps intro: pool_steps_trans grows_trans)
qed

text \<open>
  C21: A clean shutdown.  After any requests and rounds of the autoscaler that have returned,
  under every interleaving, no slot has been removed from the pool the daemon started with,
  and the daemon's shutdown does the following.  If the autoscaler has the write lock first
  and begins to scale down, the shutdown never happens.  Otherwise it returns once every
  worker takes another turn, and it has joined the worker of every slot the pool has, the
  last first: each has ended, has stopped the process it held and removed the socket, and
  holds no process any more: every one it ever started is gone or was given up after an
  error of the kill, the wait or the poll.
\<close>

theorem daemon_stops_clean:
  assumes "startup S c = Inr p" and "turns \<noteq> []"
    and "daemon_events A E H evs (await E (fresh_world p)) = Some w"
    and "q = pw_pool (await E w)"
  shows "cli_pool_size c \<le> pool_size q \<and> pp_last_scale_down q = None
    \<and> (if pe_autoscales E (pw_step w) \<and> scaling_down (pw_clock (await E w)) q
       then daemon_stop E turns w = None
       else \<exists>hs q'. daemon_stop E turns w = Some (hs, q') \<and> pp_slots q' = []
         \<and> list_all2 (worker_ended (li_stop (hd turns))) (pp_slots q) (rev hs))"
proof -
  note r = run_returned [OF assms(1,3)]
  then have "grows p q" using grows_trans [OF _ await_grows] assms(4) by blast
  then have "cli_pool_size c \<le> pool_size q \<and> pp_last_scale_down q = None"
    using startup_fields(3) [OF assms(1)] startup_unscaled [OF assms(1)]
    by (simp add: grows_def pool_size_def)
  with stop_outcome [OF assms(1) _ assms(2,4)] r show ?thesis by blast
qed

section \<open>The default configuration never hangs\<close>

lemma fixed_call:
  assumes "pool_ok (pw_pool w)" and "sizes_are n n (pw_pool w)" and "pw_lock w = Unlocked"
  shows "\<exists>r w'. call_outcome A E H c w = Some (r, w') \<and> pw_lock w' = Unlocked
    \<and> pool_steps (pw_pool w) (pw_pool w')"
  using call_outcome_cases [OF assms(3), of A E H c] held_up_blocks(2) [of E, OF _ assms(1)] assms(2)
  by (auto simp: served_def sizes_are_def)

lemma fixed_events:
  "pool_ok (pw_pool w) \<Longrightarrow> sizes_are n n (pw_pool w) \<Longrightarrow> pw_lock w = Unlocked \<Longrightarrow>
   \<exists>w'. daemon_events A E H evs w = Some w' \<and> pw_lock w' = Unlocked \<and> pool_steps (pw_pool w) (pw_pool w')"
proof (induction evs arbitrary: w)
  case (Cons ev evs)
  have "\<exists>w1. (\<forall>w2. daemon_events A E H evs w1 = Some w2 \<longrightarrow> daemon_events A E H (ev # evs) w = Some w2)
      \<and> pw_lock w1 = Unlocked \<and> pool_steps (pw_pool w) (pw_pool w1)"
  proof (cases ev)
    case (Call c)
    with fixed_call [OF Cons.prems, of A E H c] show ?thesis by fastforce
  next
    case (Tick turns)
    with fixed_round [OF Cons.prems(1,2), of E turns] show ?thesis by fastforce
  qed
  then obtain w1 where w1: "\<forall>w2. daemon_events A E H evs w1 = Some w2 \<longrightarrow> daemon_events A E H (ev # evs) w = Some w2"
    "pw_lock w1 = Unlocked" and st: "pool_steps (pw_pool w) (pw_pool w1)" by blast
  from Cons.IH [OF pool.J_steps [OF st Cons.prems(1)] sizes.J_steps [OF st Cons.prems(2)] w1(2)] w1(1) st
  show ?case by (blast intro: pool_steps_trans)
qed (auto intro: steps_refl)

text \<open>
  C35: A daemon in the default configuration runs to its end.  When \<open>--max-pool-size\<close> is not
  given, whatever requests it serves, however often the autoscaler runs, whatever other
  tasks and the system do and whatever the VMs answer, the daemon does not hang: once
  started and bound and with a server that ends well, its requests are served, its pool
  keeps the size asked for, and its shutdown returns with no slot left and the worker of
  every slot joined: ended, its process stopped, its socket removed, and every process it
  ever started gone or given up after an error.  A request to a VM is taken to be answered or to fail
  in the end, which the source does not enforce: a VM that never answers holds the daemon up.
\<close>

theorem default_daemon_ends:
  assumes "rc_max_pool_size (ri_raw ri) = None" and "parse_cli (ri_raw ri) = Inr c"
    and "startup (ri_start ri) c = Inr p" and "bound_listener ri c = Inr ()"
    and "ri_served_ok ri = Inr ()" and "ri_turns ri \<noteq> []"
  shows "\<exists>w hs q. daemon_events A E H (ri_events ri) (await E (fresh_world p)) = Some w
    \<and> daemon_main A E H ri = Some \<lparr>de_result = Inr (), de_joined = hs, de_pool = Some q\<rparr>
    \<and> pp_slots q = [] \<and> length hs = cli_pool_size c
    \<and> list_all2 (worker_ended (li_stop (hd (ri_turns ri)))) (pp_slots (pw_pool (await E w))) (rev hs)"
proof -
  have "cli_max_pool_size c = None"
    using assms(1,2) by (auto simp: parse_cli_def value_or_def split: sum.splits)
  then have m: "max_pool_size c = cli_pool_size c" by (simp add: max_pool_size_def)
  have fx: "pool_ok q \<and> sizes_are (cli_pool_size c) (cli_pool_size c) q" if "pool_steps p q" for q
    using that startup_fields(1,4) [OF assms(3)] m pool.J_steps sizes.J_steps by metis
  have "pool_steps p (pw_pool (await E (fresh_world p)))" using await_steps [of "fresh_world p" E] by simp
  then obtain w where w: "daemon_events A E H (ri_events ri) (await E (fresh_world p)) = Some w"
    using fixed_events [of "await E (fresh_world p)" "cli_pool_size c" A E H "ri_events ri"] fx
    by (auto simp: frame_simps)
  let ?q = "pw_pool (await E w)"
  have st: "pool_steps p (pw_pool w)" using run_returned [OF assms(3) w] by blast
  then have q: "pool_steps p ?q" using pool_steps_trans await_steps by blast
  have "\<not> scaling_down now ?q" for now
    using scaling_down_needs_room [OF startup_fields(1) [OF assms(3)] q] startup_fields(4) [OF assms(3)] m
    by (auto simp: sizes_are_def)
  with stop_outcome [OF assms(3) st assms(6) refl, of E] obtain hs q'
    where d: "daemon_stop E (ri_turns ri) w = Some (hs, q')" "pp_slots q' = []"
      and ws: "list_all2 (worker_ended (li_stop (hd (ri_turns ri)))) (pp_slots ?q) (rev hs)" by auto
  have "length (pp_slots ?q) = cli_pool_size c"
    using fx [OF q] by (simp add: pool_ok_def size_ok_def sizes_are_def)
  with ws have "length hs = cli_pool_size c" by (auto dest: list_all2_lengthD)
  with assms w d ws show ?thesis by (simp add: daemon_main_def Let_def)
qed

definition demo_run :: run_inputs where
  "demo_run = \<lparr>ri_raw = demo_raw_cli, ri_start = demo_start_env, ri_sockets = (\<lambda>_. Inr ()),
     ri_local_addr = Inr (), ri_served_ok = Inr (),
     ri_events = [Call Health, Tick [], Call (Delete_vm ''a''), Tick []], ri_turns = [demo_turn]\<rparr>"

lemma bind_listener_ok: "(\<And>x. os x = Inr ()) \<Longrightarrow> bind_listener os a = Inr ()"
proof -
  assume "\<And>x. os x = Inr ()"
  then have "run_ops os xs = Inr ()" for xs by (induction xs) simp_all
  then show ?thesis by (simp add: bind_listener_def)
qed

theorem daemon_stops_clean_witness:
  "\<exists>c p w hs q. startup demo_start_env c = Inr p
     \<and> daemon_events demo_api demo_env demo_host [Call Health] (await demo_env (fresh_world p)) = Some w
     \<and> daemon_stop demo_env [demo_turn] w = Some (hs, q) \<and> pp_slots q = [] \<and> 4 \<le> length hs"
proof -
  from demo_startup obtain c p where c: "startup demo_start_env c = Inr p" "cli_pool_size c = 4" by blast
  have "pw_lock (await demo_env (fresh_world p)) = Unlocked" by (simp add: frame_simps)
  then obtain w where w: "daemon_events demo_api demo_env demo_host [Call Health] (await demo_env (fresh_world p)) = Some w"
    using demo_outcome [of "await demo_env (fresh_world p)" Health] by auto
  have "\<not> pe_autoscales demo_env (pw_step w)" using demo_env_quiet by (simp add: quiet_env_def)
  with daemon_stops_clean [OF c(1) _ w refl, of "[demo_turn]"] c w show ?thesis
    by (fastforce simp: pool_size_def dest: list_all2_lengthD)
qed

theorem default_daemon_ends_witness:
  "\<exists>hs q. daemon_main demo_api demo_env demo_host demo_run
      = Some \<lparr>de_result = Inr (), de_joined = hs, de_pool = Some q\<rparr> \<and> pp_slots q = [] \<and> length hs = 4"
proof -
  from demo_startup obtain c p where c: "parse_cli demo_raw_cli = Inr c" "startup demo_start_env c = Inr p"
    "cli_pool_size c = 4" by blast
  have "bound_listener demo_run c = Inr ()"
    by (simp add: bound_listener_def demo_run_def bind_listener_ok)
  from default_daemon_ends [OF _ _ _ this, of p demo_api demo_env demo_host] c show ?thesis
    by (fastforce simp: demo_run_def demo_raw_cli_def)
qed

section \<open>A start-up that fails late\<close>

lemma apply_actions_append [simp]:
  "apply_actions (as @ bs) p = apply_actions bs (apply_actions as p)"
  by (induction as arbitrary: p) simp_all

text \<open>Every worker has started its process by the time the listener is bound.\<close>

definition spawn_all :: "nat \<Rightarrow> pool_action list" where
  "spawn_all n = map (\<lambda>i. Act_spawn i (Inr (Some (of_nat (Suc i))))) [0..<n]"

definition spawning_env :: "nat \<Rightarrow> pool_env" where
  "spawning_env n = demo_env\<lparr>pe_actions := (\<lambda>t. spawn_all n)\<rparr>"

lemma spawned_slots:
  assumes "all_alive p" and "n \<le> length (pp_slots p)"
  shows "all_alive (apply_actions (spawn_all n) p)
    \<and> length (pp_slots (apply_actions (spawn_all n) p)) = length (pp_slots p)
    \<and> (\<forall>i < length (pp_slots p). slot_rt (apply_actions (spawn_all n) p) i
        = (if i < n then spawn_phase (Inr (Some (of_nat (Suc i)))) (slot_rt p i) else slot_rt p i))"
  using assms(2)
proof (induction n)
  case 0
  then show ?case using assms(1) by (simp add: spawn_all_def)
next
  case (Suc n)
  have "spawn_all (Suc n) = spawn_all n @ [Act_spawn n (Inr (Some (of_nat (Suc n))))]"
    by (simp add: spawn_all_def)
  with Suc show ?case by (auto simp: all_alive_on_slot slot_rt_on_alive)
qed

lemma startup_runtimes:
  "startup S c = Inr p \<Longrightarrow> i < length (pp_slots p) \<Longrightarrow> slot_rt p i = initial_runtime i"
  by (erule startup_Inr)
    (auto simp: pool_spawn_def slot_rt_def initialize_slot_def Let_def split: if_splits)

text \<open>
  C38: A late failure leaves the processes behind.  When the command line and the start-up are
  fine but the listener cannot be bound, the daemon ends with that error under every
  interleaving and ends none of its workers; so a daemon that finds its address in use can
  leave one running process per slot, none of which it has stopped.
\<close>

theorem failed_bind_leaves_processes:
  assumes "parse_cli (ri_raw ri) = Inr c" and "startup (ri_start ri) c = Inr p"
    and "bound_listener ri c = Inl err"
  shows "(\<forall>E. \<exists>q. daemon_main A E H ri = Some (aborted err (Some q)) \<and> pool_steps p q)
    \<and> (\<exists>E q. daemon_main A E H ri = Some (aborted err (Some q)) \<and> length (pp_slots q) = cli_pool_size c
        \<and> (\<forall>i < cli_pool_size c. h_alive (pp_slots q ! i)
             \<and> rt_child (slot_rt q i) = Some \<lparr>child_id = Some (of_nat (Suc i))\<rparr>))"
proof -
  have main: "daemon_main A E H ri = Some (aborted err (Some (pw_pool (await E (fresh_world p)))))" for E
    using assms by (simp add: daemon_main_def Let_def)
  have st: "pool_steps p (pw_pool (await E (fresh_world p)))" for E
    using await_steps [of "fresh_world p" E] by simp
  let ?n = "cli_pool_size c" and ?q = "pw_pool (await (spawning_env (cli_pool_size c)) (fresh_world p))"
  have len: "length (pp_slots p) = ?n" using startup_fields(3) [OF assms(2)] by (simp add: pool_size_def)
  have al: "all_alive p" using startup_fields(2) [OF assms(2)] by (simp add: serving_def)
  have "filter (permitted Unlocked) (spawn_all ?n) = spawn_all ?n"
    by (auto simp: spawn_all_def filter_id_conv)
  then have q: "?q = apply_actions (spawn_all ?n) p"
    by (simp add: await_def spawning_env_def)
  have "h_alive (pp_slots ?q ! i) \<and> rt_child (slot_rt ?q i) = Some \<lparr>child_id = Some (of_nat (Suc i))\<rparr>"
    if "i < ?n" for i
    using spawned_slots [OF al, of ?n] len that startup_runtimes [OF assms(2), of i]
    by (simp add: q all_alive_def list_all_length spawn_phase_def initial_runtime_def initial_status_def
        should_spawn_def cleanup_api_socket_def log_os_def Let_def)
  moreover have "length (pp_slots ?q) = ?n" using spawned_slots [OF al, of ?n] len q by simp
  ultimately have "\<exists>E q. daemon_main A E H ri = Some (aborted err (Some q)) \<and> length (pp_slots q) = ?n
      \<and> (\<forall>i < ?n. h_alive (pp_slots q ! i) \<and> rt_child (slot_rt q i) = Some \<lparr>child_id = Some (of_nat (Suc i))\<rparr>)"
    using main [of "spawning_env ?n"] by blast
  then show ?thesis using main st by blast
qed

definition busy_port_run :: run_inputs where
  "busy_port_run = demo_run\<lparr>ri_sockets := (\<lambda>_. Inl ''Address already in use'')\<rparr>"

theorem failed_bind_leaves_processes_witness:
  "\<exists>E q err. daemon_main demo_api E demo_host busy_port_run = Some (aborted err (Some q))
     \<and> rt_child (slot_rt q 3) = Some \<lparr>child_id = Some 4\<rparr>"
proof -
  from demo_startup obtain c p where c: "parse_cli demo_raw_cli = Inr c" "startup demo_start_env c = Inr p"
    "cli_pool_size c = 4" by blast
  obtain err where "bound_listener busy_port_run c = Inl err"
    by (cases "cli_listen_addr c") (auto simp: bound_listener_def busy_port_run_def bind_listener_def)
  from failed_bind_leaves_processes [OF _ _ this, of p demo_api demo_host] c show ?thesis
    by (fastforce simp: busy_port_run_def demo_run_def)
qed

end
