(* ===== verification/ChildProcess.thy ===== *)
theory ChildProcess
  imports Pool
begin

text \<open>
  The process a slot's worker starts (\<open>Command::new\<close> in \<open>src/slot_supervisor.rs\<close>): its
  program, its arguments and the two variables added to its environment.  \<open>Path::parent\<close>
  is modelled for it, and for the demo VM, which creates the directory of its socket.
\<close>

section \<open>The directory of a path\<close>

text \<open>
  \<open>Path::parent\<close> on the bytes of a Unix path: empty and \<open>.\<close> components do not count, except
  for a leading \<open>.\<close>; the last component goes, and so do the separators before it; the root
  and the empty path have no parent.
\<close>

definition idle_component :: "string \<Rightarrow> bool" where
  "idle_component c = (c = [] \<or> c = ''.'')"

definition trim_components :: "string list \<Rightarrow> string list" where
  "trim_components cs = rev (dropWhile idle_component (rev cs))"

definition rebuild_path :: "string \<Rightarrow> string list \<Rightarrow> string" where
  "rebuild_path first cs = (if first = [] \<and> cs = [] then ''/'' else join_with ''/'' (first # cs))"

definition path_parent :: "string \<Rightarrow> string option" where
  "path_parent p =
     (case split_on (CHR ''/'') p of
        [] \<Rightarrow> None
      | first # rest \<Rightarrow>
          (let cs = trim_components rest in
           if cs \<noteq> [] then Some (rebuild_path first (trim_components (butlast cs)))
           else if first = [] then None
           else Some []))"

lemma split_on_Cons: "\<exists>x xs. split_on d s = x # xs"
  by (cases s) (auto split: list.split)

lemma join_split_on: "join_with [d] (split_on d s) = s"
proof (induction s)
  case (Cons c s)
  obtain x xs where x: "split_on d s = x # xs" using split_on_Cons by blast
  with Cons show ?case by (cases xs) auto
qed simp

lemma split_on_last: "d \<notin> set f \<Longrightarrow> split_on d (s @ d # f) = split_on d s @ [f]"
proof (induction s)
  case Nil
  have "split_on d f = [f]" using Nil by (induction f) auto
  then show ?case by simp
next
  case (Cons c s)
  obtain x xs where "split_on d s = x # xs" using split_on_Cons by blast
  with Cons show ?case by auto
qed

text \<open>A directory's path without a separator or a \<open>.\<close> at its end.\<close>

definition tidy_dir :: "string \<Rightarrow> bool" where
  "tidy_dir d = (d \<noteq> [] \<and> \<not> idle_component (last (split_on (CHR ''/'') d)))"

lemma tidy_dir_last: "tidy_dir d \<Longrightarrow> last d \<noteq> CHR ''/''"
proof
  assume t: "tidy_dir d" and l: "last d = CHR ''/''"
  then have "d = butlast d @ [CHR ''/'']" using append_butlast_last_id [of d] by (simp add: tidy_dir_def)
  then have "split_on (CHR ''/'') d = split_on (CHR ''/'') (butlast d) @ [[]]"
    using split_on_last [of "CHR ''/''" "[]" "butlast d"] by simp
  with t show False by (simp add: tidy_dir_def idle_component_def)
qed

lemma trim_components_last: "cs \<noteq> [] \<Longrightarrow> \<not> idle_component (last cs) \<Longrightarrow> trim_components cs = cs"
  by (cases cs rule: rev_cases) (simp_all add: trim_components_def)

text \<open>The parent of a file in a directory is the directory.\<close>

lemma path_parent_join:
  assumes "tidy_dir d" and "CHR ''/'' \<notin> set f" and "\<not> idle_component f"
  shows "path_parent (path_join d f) = Some d"
proof -
  have j: "path_join d f = d @ CHR ''/'' # f"
    using assms tidy_dir_last [OF assms(1)]
    by (cases f) (auto simp: path_join_def path_is_absolute_def starts_with_def tidy_dir_def)
  obtain x xs where s: "split_on (CHR ''/'') d = x # xs" using split_on_Cons by blast
  have rb: "join_with ''/'' (x # xs) = d" using join_split_on [of "CHR ''/''" d] s by simp
  have "trim_components (xs @ [f]) = xs @ [f]" using assms(3) by (intro trim_components_last) simp_all
  moreover have "trim_components xs = xs"
    using assms(1) s by (cases "xs = []") (simp_all add: tidy_dir_def trim_components_last, simp add: trim_components_def)
  moreover have "\<not> (x = [] \<and> xs = [])" using assms(1) s by (auto simp: tidy_dir_def idle_component_def)
  ultimately show ?thesis
    using split_on_last [OF assms(2), of d] s rb by (auto simp: path_parent_def j rebuild_path_def Let_def)
qed

lemma path_parent_examples:
  "path_parent ''/'' = None" "path_parent [] = None" "path_parent ''a'' = Some []"
  "path_parent ''/a/b/'' = Some ''/a''" "path_parent ''./a'' = Some ''.''" "path_parent ''/a/./b'' = Some ''/a''"
  by code_simp+

section \<open>The command of a slot's process\<close>

record child_command =
  cc_program :: string
  cc_args :: "string list"
  cc_env :: "(string \<times> string) list"

definition child_command :: "nat \<Rightarrow> slot_handle \<Rightarrow> child_command" where
  "child_command i h =
     \<lparr>cc_program = h_program h, cc_args = h_args h,
      cc_env =
        [(''VMM_SLOT'', show_nat i),
         (''VMM_PATH'', from_utf8_lossy (case path_parent (h_socket h) of Some d \<Rightarrow> d | None \<Rightarrow> ''/''))]\<rparr>"

lemma socket_name_plain: "CHR ''/'' \<notin> set (socket_name n)" "\<not> idle_component (socket_name n)"
proof -
  have "CHR ''/'' \<notin> set (show_nat n)"
    using show_nat_digits [of "CHR ''/''" n] by (auto simp: byte_def)
  then show "CHR ''/'' \<notin> set (socket_name n)" by (simp add: socket_name_def)
  show "\<not> idle_component (socket_name n)" by (simp add: socket_name_def idle_component_def)
qed

lemma vm_socket_parent: "tidy_dir (pp_vm_path p) \<Longrightarrow> path_parent (vm_socket_path n p) = Some (pp_vm_path p)"
  unfolding vm_socket_path_def by (intro path_parent_join socket_name_plain)

end
