(* ===== verification/DemoVm.thy ===== *)
theory DemoVm
  imports DaemonRun ChildProcess
begin

text \<open>
  \<open>src/bin/demo-vm.rs\<close>: the stand-in for the Cloud Hypervisor binary: how it finds its API
  socket in its arguments, the response it sends on every connection, and its \<open>main\<close>, which
  creates the socket's directory, binds it and serves connections until a signal comes.  A
  connection is served by a task of its own, which shares nothing with the loop.
\<close>

section \<open>Arguments\<close>

fun api_socket_loop :: "string list \<Rightarrow> string + string" where
  "api_socket_loop [] = Inl ''missing required argument --api-socket <PATH>''"
| "api_socket_loop (arg # iter) =
     (if arg = ''--api-socket'' then
        (case iter of
           [] \<Rightarrow> Inl ''missing value for --api-socket''
         | path # _ \<Rightarrow> Inr path)
      else api_socket_loop iter)"

definition parse_api_socket :: "string list \<Rightarrow> string + string" where
  "parse_api_socket args = api_socket_loop (drop 1 args)"

lemma api_socket_loop_append:
  "''--api-socket'' \<notin> set pre \<Longrightarrow> api_socket_loop (pre @ rest) = api_socket_loop rest"
  by (induction pre) auto

lemma api_socket_loop_shadow:
  "''--api-socket'' \<in> set pre \<Longrightarrow> api_socket_loop (pre @ x # rest) = api_socket_loop (pre @ [x])"
proof (induction pre)
  case (Cons arg pre)
  show ?case
  proof (cases "arg = ''--api-socket''")
    case True
    then show ?thesis by (cases pre) simp_all
  next
    case False
    then have "''--api-socket'' \<in> set pre" using Cons.prems by auto
    with False Cons.IH show ?thesis by (simp only: append_Cons api_socket_loop.simps if_False)
  qed
qed simp

lemma api_socket_loop_given:
  "''--api-socket'' \<in> set pre \<Longrightarrow>
   \<exists>path. \<forall>rest. api_socket_loop (pre @ ''--api-socket'' # rest) = Inr path"
proof (induction pre)
  case (Cons arg pre)
  show ?case
  proof (cases "arg = ''--api-socket''")
    case True
    then show ?thesis by (cases pre) simp_all
  next
    case False
    then have "''--api-socket'' \<in> set pre" using Cons.prems by auto
    with False Cons.IH show ?thesis by (simp only: append_Cons api_socket_loop.simps if_False)
  qed
qed simp

text \<open>
  The demo VM finds its slot's socket.  Started with a slot's program and arguments, it
  listens on exactly the socket the daemon connects to for that slot, unless the arguments
  of \<open>CLOUD_HYPERVISOR_ARGS\<close> contain \<open>--api-socket\<close> themselves; then every slot's process
  takes one and the same other value.
\<close>

lemma slot_args:
  assumes "startup S c = Inr p" and "i < pool_size p" and "parse_env_args S = Inr args"
  shows "h_args (pp_slots p ! i) = args @ [''--api-socket'', vm_socket_path i p]
    \<and> h_socket (pp_slots p ! i) = vm_socket_path i p \<and> h_program (pp_slots p ! i) = cli_ch_bin c"
  using startup_fields(1,5,6) [OF assms(1)] assms(2,3)
  by (simp add: pool_ok_def handles_ok_def pool_size_def)

theorem demo_vm_finds_socket:
  assumes "startup S c = Inr p" and "i < pool_size p" and "parse_env_args S = Inr args"
  shows "(''--api-socket'' \<notin> set args \<longrightarrow>
      parse_api_socket (cli_ch_bin c # h_args (pp_slots p ! i)) = Inr (vm_socket_path i p))
    \<and> (''--api-socket'' \<in> set args \<longrightarrow>
      parse_api_socket (cli_ch_bin c # h_args (pp_slots p ! i))
        = parse_api_socket (cli_ch_bin c # args @ [''--api-socket'']))"
  using slot_args [OF assms] api_socket_loop_append [of args "[''--api-socket'', vm_socket_path i p]"]
    api_socket_loop_shadow [of args "''--api-socket''" "[vm_socket_path i p]"]
  by (simp add: parse_api_socket_def)

theorem demo_vm_finds_socket_witness:
  "\<exists>c p. startup demo_start_env c = Inr p
     \<and> parse_api_socket (cli_ch_bin c # h_args (pp_slots p ! 3)) = Inr (vm_socket_path 3 p)"
proof -
  from demo_startup obtain c p where c: "startup demo_start_env c = Inr p" "cli_pool_size c = 4" by blast
  have e: "parse_env_args demo_start_env = Inr []" by (simp add: parse_env_args_def demo_start_env_def)
  have "3 < pool_size p" using startup_fields(3) [OF c(1)] c(2) by simp
  from demo_vm_finds_socket [OF c(1) this e] c show ?thesis by auto
qed

section \<open>The response\<close>

definition crlf :: string where
  "crlf = [chr 13, chr 10]"

definition dquote :: string where
  "dquote = [chr 34]"

definition demo_body :: "string \<Rightarrow> string" where
  "demo_body slot =
     ''{'' @ dquote @ ''status'' @ dquote @ '':'' @ dquote @ ''ok'' @ dquote @ '','' @ dquote @ ''vm''
       @ dquote @ '':'' @ dquote @ ''demo-vm'' @ dquote @ '','' @ dquote @ ''slot'' @ dquote @ '':''
       @ dquote @ slot @ dquote @ ''}''"

definition demo_response :: "string \<Rightarrow> string" where
  "demo_response slot =
     (let body = demo_body slot in
      ''HTTP/1.1 200 OK'' @ crlf @ ''content-type: application/json'' @ crlf
        @ ''content-length: '' @ show_nat (length body) @ crlf @ ''connection: close'' @ crlf @ crlf
        @ body)"

text \<open>The answers of the stream: a read, then the write and the shutdown.\<close>

record stream_os =
  sm_read :: "string + string"
  sm_write_all :: "string \<Rightarrow> string + unit"
  sm_shutdown :: "string + unit"

definition handle_connection :: "stream_os \<Rightarrow> string \<Rightarrow> string + unit" where
  "handle_connection S slot =
     (case sm_read S of
        Inl err \<Rightarrow> Inl err
      | Inr _ \<Rightarrow>
          (case sm_write_all S (demo_response slot) of
             Inl err \<Rightarrow> Inl err
           | Inr _ \<Rightarrow> sm_shutdown S))"

text \<open>
  A reader of HTTP responses: lines end in CR LF, the first is the status line, an empty
  one ends the headers, a header is split at its first colon, and the body is as long as
  \<open>content-length\<close> says.
\<close>

fun crlf_line :: "string \<Rightarrow> (string \<times> string) option" where
  "crlf_line (a # b # s) =
     (if a = chr 13 \<and> b = chr 10 then Some ([], s)
      else map_option (\<lambda>(l, r). (a # l, r)) (crlf_line (b # s)))"
| "crlf_line s = None"

lemma crlf_line_rest: "crlf_line s = Some (l, r) \<Longrightarrow> length r < length s"
  by (induction s arbitrary: l rule: crlf_line.induct) (auto split: if_splits)

function read_headers :: "string \<Rightarrow> ((string \<times> string) list \<times> string) option" where
  "read_headers s =
     (case crlf_line s of
        None \<Rightarrow> None
      | Some (l, r) \<Rightarrow>
          if l = [] then Some ([], r)
          else Option.bind (split_once (CHR '':'') l) (\<lambda>(k, v).
            map_option (\<lambda>(hs, body). ((k, trim v) # hs, body)) (read_headers r)))"
  by pat_completeness auto
termination
  by (relation "measure length") (auto dest: crlf_line_rest)

declare read_headers.simps [simp del]

definition read_response :: "string \<Rightarrow> (string \<times> (string \<times> string) list \<times> string) option" where
  "read_response s =
     Option.bind (crlf_line s) (\<lambda>(status, r).
       Option.bind (read_headers r) (\<lambda>(hs, rest).
         Option.bind (map_of hs ''content-length'') (\<lambda>v.
           case parse_u64 v of
             Inl _ \<Rightarrow> None
           | Inr n \<Rightarrow> if unat n \<le> length rest then Some (status, hs, take (unat n) rest) else None)))"

lemma crlf_line_plain:
  "list_all (\<lambda>c. c \<noteq> chr 13) l \<Longrightarrow> crlf_line (l @ crlf @ s) = Some (l, s)"
proof (induction l)
  case (Cons c l)
  then show ?case by (cases "l @ crlf @ s") (auto simp: crlf_def)
qed (simp add: crlf_def)

definition header_line :: "string \<times> string \<Rightarrow> string" where
  "header_line h = fst h @ '': '' @ snd h"

definition header_ok :: "string \<times> string \<Rightarrow> bool" where
  "header_ok h = (plain (fst h) \<and> CHR '':'' \<notin> set (fst h) \<and> plain (snd h))"

lemma trim_space_plain: "plain v \<Longrightarrow> trim (CHR '' '' # v) = v"
proof -
  assume p: "plain v"
  have "trim_start (CHR '' '' # v) = trim_start v"
    by (subst trim_start.simps) (simp add: ws_head_space)
  then show ?thesis using trim_plain [OF p] by (simp add: trim_def)
qed

lemma plain_no_cr: "plain v \<Longrightarrow> list_all (\<lambda>c. c \<noteq> chr 13) v"
  by (auto simp: plain_def list_all_iff plain_char_def)

lemma header_line_no_cr: "header_ok h \<Longrightarrow> list_all (\<lambda>c. c \<noteq> chr 13) (header_line h)"
proof -
  assume "header_ok h"
  moreover have "CHR '':'' \<noteq> chr 13" "CHR '' '' \<noteq> chr 13"
    using line_char_byte [of "CHR '':''"] line_char_byte [of "CHR '' ''"]
    by (auto simp: line_char_def byte_def)
  ultimately show ?thesis by (simp add: header_line_def header_ok_def plain_no_cr)
qed

lemma read_headers_lines:
  "list_all header_ok hs \<Longrightarrow>
   read_headers (concat (map (\<lambda>h. header_line h @ crlf) hs) @ crlf @ body) = Some (hs, body)"
proof (induction hs)
  case Nil
  show ?case using crlf_line_plain [of "[]" body] by (simp add: read_headers.simps)
next
  case (Cons h hs)
  then have h: "header_ok h" by simp
  let ?rest = "concat (map (\<lambda>h. header_line h @ crlf) hs) @ crlf @ body"
  have "crlf_line (header_line h @ crlf @ ?rest) = Some (header_line h, ?rest)"
    by (rule crlf_line_plain [OF header_line_no_cr [OF h]])
  moreover have "split_once (CHR '':'') (header_line h) = Some (fst h, CHR '' '' # snd h)"
    using split_once_append [of "CHR '':''" "fst h"] h by (simp add: header_line_def header_ok_def)
  moreover have "header_line h \<noteq> []" by (simp add: header_line_def)
  moreover have "trim (CHR '' '' # snd h) = snd h" using h by (simp add: trim_space_plain header_ok_def)
  ultimately show ?case
    using Cons by (simp add: read_headers.simps [of "header_line h @ crlf @ ?rest"])
qed

definition demo_headers :: "nat \<Rightarrow> (string \<times> string) list" where
  "demo_headers n =
     [(''content-type'', ''application/json''), (''content-length'', show_nat n), (''connection'', ''close'')]"

lemma demo_headers_ok: "list_all header_ok (demo_headers n)"
  by (simp add: demo_headers_def header_ok_def plain_show_nat)
    (simp add: plain_def plain_char_def byte_def)

lemma demo_response_lines:
  "demo_response slot = ''HTTP/1.1 200 OK'' @ crlf
     @ concat (map (\<lambda>h. header_line h @ crlf) (demo_headers (length (demo_body slot))))
     @ crlf @ demo_body slot"
  by (simp add: demo_response_def Let_def demo_headers_def header_line_def)

lemma read_demo_response:
  assumes "length (demo_body slot) < 2 ^ 64"
  shows "read_response (demo_response slot)
    = Some (''HTTP/1.1 200 OK'', demo_headers (length (demo_body slot)), demo_body slot)"
proof -
  let ?n = "length (demo_body slot)"
  have "list_all (\<lambda>c. c \<noteq> chr 13) ''HTTP/1.1 200 OK''"
    using line_char_byte by (simp add: line_char_def byte_def)
  note st = crlf_line_plain [OF this]
  have n: "parse_u64 (show_nat ?n) = Inr (of_nat ?n)" "unat (of_nat ?n :: u64) = ?n"
    using parse_show_nat [of ?n "2 ^ 64 - 1"] assms
    by (simp_all add: parse_u64_def unat_of_nat take_bit_nat_eq_self)
  have m: "map_of (demo_headers ?n) ''content-length'' = Some (show_nat ?n)"
    by (simp add: demo_headers_def)
  show ?thesis
    unfolding demo_response_lines read_response_def st Option.bind.simps prod.case
    unfolding read_headers_lines [OF demo_headers_ok] Option.bind.simps prod.case m n(1) sum.case n(2)
    by simp
qed

text \<open>
  C40: The demo VM's response is well formed.  An HTTP reader gets back from the bytes sent
  for a slot the status line, the three headers and, since the announced length is right,
  the whole body, whatever bytes the slot's name has.
\<close>

theorem demo_response_roundtrip:
  assumes "length (demo_body slot) < 2 ^ 64"
  shows "read_response (demo_response slot)
    = Some (''HTTP/1.1 200 OK'', demo_headers (length (demo_body slot)), demo_body slot)"
  using assms by (rule read_demo_response)

theorem demo_response_roundtrip_witness:
  "read_response (demo_response ''3'')
     = Some (''HTTP/1.1 200 OK'', demo_headers (length (demo_body ''3'')), demo_body ''3'')"
proof (rule demo_response_roundtrip)
  show "length (demo_body ''3'') < 2 ^ 64" by (simp add: demo_body_def dquote_def)
qed

section \<open>The program\<close>

text \<open>
  What the system answers: creating a directory, binding the socket, the value of
  \<open>VMM_SLOT\<close> if there is one that is Unicode.  The loop sees one event per turn: a
  connection with the answers of its stream, a failed accept, or the end of
  \<open>wait_for_shutdown_signal\<close>, which every turn of the \<open>select!\<close> starts afresh.
\<close>

record demo_os =
  do_create_dir_all :: "string \<Rightarrow> string + unit"
  do_bind :: "string \<Rightarrow> string + unit"
  do_slot_var :: "string option"

datatype demo_event =
    Accepted stream_os
  | Accept_failed string
  | Signalled "string + unit" signal_event

definition demo_shutdown_signal :: "string + unit \<Rightarrow> signal_event \<Rightarrow> string + unit" where
  "demo_shutdown_signal register ev =
     (case register of
        Inl err \<Rightarrow> Inl err
      | Inr _ \<Rightarrow> (case ev of Ctrl_c result \<Rightarrow> result | Terminated \<Rightarrow> Inr ()))"

datatype demo_line = Out string | Err_out string

text \<open>
  The lines the loop prints, what the task it starts for each connection does when it runs to
  its end, and whether the loop has ended.  A task that still runs when \<open>main\<close> returns is
  dropped with the runtime.
\<close>

record demo_trace =
  dt_lines :: "demo_line list"
  dt_served :: "(string + unit) list"
  dt_ended :: bool

fun demo_loop :: "string \<Rightarrow> demo_event list \<Rightarrow> demo_trace" where
  "demo_loop slot [] = \<lparr>dt_lines = [], dt_served = [], dt_ended = False\<rparr>"
| "demo_loop slot (Accepted stream # evs) =
     (let tr = demo_loop slot evs in tr\<lparr>dt_served := handle_connection stream slot # dt_served tr\<rparr>)"
| "demo_loop slot (Accept_failed err # evs) =
     (let tr = demo_loop slot evs in
      tr\<lparr>dt_lines := Err_out (''demo-vm accept error: '' @ err) # dt_lines tr\<rparr>)"
| "demo_loop slot (Signalled register ev # evs) =
     \<lparr>dt_lines =
        (case demo_shutdown_signal register ev of
           Inl err \<Rightarrow> [Err_out (''demo-vm shutdown signal error: '' @ err)]
         | Inr _ \<Rightarrow> []),
      dt_served = [], dt_ended = True\<rparr>"

text \<open>The task of a connection prints its own error.\<close>

definition connection_line :: "string + unit \<Rightarrow> demo_line list" where
  "connection_line r =
     (case r of Inl err \<Rightarrow> [Err_out (''demo-vm connection error: '' @ err)] | Inr _ \<Rightarrow> [])"

definition demo_main :: "demo_os \<Rightarrow> string list \<Rightarrow> demo_event list \<Rightarrow> string + demo_trace" where
  "demo_main D args evs =
     (case parse_api_socket args of
        Inl err \<Rightarrow> Inl err
      | Inr api_socket \<Rightarrow>
     (case (case path_parent api_socket of Some parent \<Rightarrow> do_create_dir_all D parent | None \<Rightarrow> Inr ()) of
        Inl err \<Rightarrow> Inl err
      | Inr _ \<Rightarrow>
     (case do_bind D api_socket of
        Inl err \<Rightarrow> Inl err
      | Inr _ \<Rightarrow>
          (let slot = (case do_slot_var D of Some v \<Rightarrow> v | None \<Rightarrow> ''unknown'');
               tr = demo_loop slot evs in
           Inr (tr\<lparr>dt_lines :=
                  Out (''demo-vm started: slot='' @ slot @ '', api_socket='' @ from_utf8_lossy api_socket)
                    # dt_lines tr
                    @ (if dt_ended tr
                       then [Out (''demo-vm stopped: api_socket='' @ from_utf8_lossy api_socket)]
                       else [])\<rparr>)))))"

fun is_signal :: "demo_event \<Rightarrow> bool" where
  "is_signal (Signalled register ev) = True"
| "is_signal e = False"

fun stream_of :: "demo_event \<Rightarrow> stream_os option" where
  "stream_of (Accepted stream) = Some stream"
| "stream_of e = None"

text \<open>The loop serves the connections accepted before the first signal, in order, and no other.\<close>

lemma demo_loop_served:
  "dt_served (demo_loop slot evs)
     = map (\<lambda>stream. handle_connection stream slot)
         (List.map_filter stream_of (takeWhile (\<lambda>e. \<not> is_signal e) evs))"
  by (induction slot evs rule: demo_loop.induct) (simp_all add: Let_def map_filter_simps)

lemma demo_loop_ended: "dt_ended (demo_loop slot evs) \<longleftrightarrow> list_ex is_signal evs"
  by (induction slot evs rule: demo_loop.induct) (simp_all add: Let_def)

text \<open>
  C36: The daemon's child is a demo VM of its slot, unless \<open>CLOUD_HYPERVISOR_ARGS\<close> names a
  socket itself.  Let the runtime directory be given without a trailing separator or dot, and
  start the demo VM with the program, arguments and environment a slot's worker gives its
  process.  It gets that directory as \<open>VMM_PATH\<close>.  Without \<open>--api-socket\<close> among the
  arguments of \<open>CLOUD_HYPERVISOR_ARGS\<close> it creates the directory and binds the socket the daemon
  connects to for that slot; for every connection accepted before the first signal, whatever
  the others do, it starts the task that answers it with the number of its own slot, and no
  other; and its loop ends exactly when a signal comes, also when the handler cannot be
  registered.  With \<open>--api-socket\<close> among them, the processes of all slots take one and the
  same path from those arguments, and the demo VM fails when it cannot bind that one.
\<close>

theorem demo_vm_serves_slot:
  assumes "startup S c = Inr p" and "i < pool_size p" and "parse_env_args S = Inr args"
    and "tidy_dir (cli_runtime_dir c)" and "cmd = child_command i (pp_slots p ! i)"
    and "do_slot_var D = map_of (cc_env cmd) ''VMM_SLOT''"
  shows "map_of (cc_env cmd) ''VMM_PATH'' = Some (from_utf8_lossy (cli_runtime_dir c))
    \<and> (''--api-socket'' \<notin> set args \<longrightarrow>
        (case demo_main D (cc_program cmd # cc_args cmd) evs of
           Inl err \<Rightarrow> do_create_dir_all D (cli_runtime_dir c) = Inl err \<or> do_bind D (vm_socket_path i p) = Inl err
         | Inr tr \<Rightarrow> do_create_dir_all D (cli_runtime_dir c) = Inr () \<and> do_bind D (vm_socket_path i p) = Inr ()
             \<and> dt_served tr = map (\<lambda>stream. handle_connection stream (show_nat i))
                  (List.map_filter stream_of (takeWhile (\<lambda>e. \<not> is_signal e) evs))
             \<and> (dt_ended tr \<longleftrightarrow> list_ex is_signal evs)))
    \<and> (''--api-socket'' \<in> set args \<longrightarrow>
        (\<exists>path.
           (\<forall>j < pool_size p. parse_api_socket (cc_program (child_command j (pp_slots p ! j))
                # cc_args (child_command j (pp_slots p ! j))) = Inr path)
           \<and> (\<forall>err. do_bind D path = Inl err \<longrightarrow>
                (\<exists>e. demo_main D (cc_program cmd # cc_args cmd) evs = Inl e))))"
proof -
  note h = slot_args [OF assms(1-3)]
  have par: "path_parent (vm_socket_path i p) = Some (cli_runtime_dir c)"
    using vm_socket_parent [of p i] startup_fields(7) [OF assms(1)] assms(4) by simp
  have cmd: "cc_program cmd # cc_args cmd = cli_ch_bin c # args @ [''--api-socket'', vm_socket_path i p]"
    "map_of (cc_env cmd) ''VMM_SLOT'' = Some (show_nat i)"
    "map_of (cc_env cmd) ''VMM_PATH'' = Some (from_utf8_lossy (cli_runtime_dir c))"
    using h par by (simp_all add: assms(5) child_command_def)
  have own: "parse_api_socket (cc_program cmd # cc_args cmd) = Inr (vm_socket_path i p)"
    if "''--api-socket'' \<notin> set args"
    using api_socket_loop_append [OF that] by (simp add: cmd(1) parse_api_socket_def)
  have other: "\<exists>path. \<forall>j < pool_size p. parse_api_socket (cc_program (child_command j (pp_slots p ! j))
      # cc_args (child_command j (pp_slots p ! j))) = Inr path"
    if "''--api-socket'' \<in> set args"
  proof -
    from api_socket_loop_given [OF that] obtain path
      where "api_socket_loop (args @ ''--api-socket'' # rest) = Inr path" for rest by blast
    then show ?thesis
      using slot_args [OF assms(1) _ assms(3)] by (simp add: child_command_def parse_api_socket_def)
  qed
  have fails: "\<exists>e. demo_main D (cc_program cmd # cc_args cmd) evs = Inl e"
    if "parse_api_socket (cc_program cmd # cc_args cmd) = Inr path" "do_bind D path = Inl err" for path err
    using that by (auto simp: demo_main_def split: sum.split)
  have "\<exists>path. (\<forall>j < pool_size p. parse_api_socket (cc_program (child_command j (pp_slots p ! j))
        # cc_args (child_command j (pp_slots p ! j))) = Inr path)
      \<and> (\<forall>err. do_bind D path = Inl err \<longrightarrow> (\<exists>e. demo_main D (cc_program cmd # cc_args cmd) evs = Inl e))"
    if "''--api-socket'' \<in> set args"
    using other [OF that] fails assms(2,5) by metis
  with par cmd(2,3) assms(6) own show ?thesis
    by (simp add: demo_main_def demo_loop_served demo_loop_ended Let_def split: sum.split)
qed

definition demo_stream :: stream_os where
  "demo_stream = \<lparr>sm_read = Inr ''GET'', sm_write_all = (\<lambda>_. Inr ()), sm_shutdown = Inr ()\<rparr>"

definition demo_vm_os :: demo_os where
  "demo_vm_os = \<lparr>do_create_dir_all = (\<lambda>_. Inr ()), do_bind = (\<lambda>_. Inr ()), do_slot_var = Some (show_nat 3)\<rparr>"

theorem demo_vm_serves_slot_witness:
  "\<exists>c p tr. startup demo_start_env c = Inr p
     \<and> demo_main demo_vm_os
         (cc_program (child_command 3 (pp_slots p ! 3)) # cc_args (child_command 3 (pp_slots p ! 3)))
         [Accepted demo_stream, Accept_failed ''e'', Signalled (Inr ()) Terminated, Accepted demo_stream] = Inr tr
     \<and> dt_served tr = [Inr ()] \<and> dt_ended tr"
proof -
  from demo_startup obtain c p where c: "startup demo_start_env c = Inr p" "cli_pool_size c = 4"
    and d: "parse_cli demo_raw_cli = Inr c" by blast
  have e: "parse_env_args demo_start_env = Inr []" by (simp add: parse_env_args_def demo_start_env_def)
  have i: "3 < pool_size p" using startup_fields(3) [OF c(1)] c(2) by simp
  have t: "tidy_dir (cli_runtime_dir c)"
    using d by (auto simp: parse_cli_def demo_raw_cli_def value_or_def tidy_dir_def idle_component_def split: sum.splits)
  have v: "do_slot_var demo_vm_os = map_of (cc_env (child_command 3 (pp_slots p ! 3))) ''VMM_SLOT''"
    by (simp add: demo_vm_os_def child_command_def)
  from demo_vm_serves_slot [OF c(1) i e t refl v,
      of "[Accepted demo_stream, Accept_failed ''e'', Signalled (Inr ()) Terminated, Accepted demo_stream]"]
  show ?thesis
    using c by (auto simp: demo_vm_os_def handle_connection_def demo_stream_def map_filter_simps split: sum.splits)
qed

end
