(* ===== verification/DemoSession.thy ===== *)
theory DemoSession
  imports DemoVm
begin

text \<open>
  The repository's two programs together: the daemon's service on virtual machines that are
  demo VMs.  What the daemon's HTTP client (\<open>src/ch_client.rs\<close>) gets from a demo VM is what
  an HTTP reader makes of the bytes \<open>handle_connection\<close> writes; the session of a creation, an
  information call and a deletion follows from the service's specifications.
\<close>

section \<open>Virtual machines that accept every request\<close>

text \<open>
  With VMs that accept, a creation succeeds exactly when the configuration is valid, a slot
  can be allocated, its process runs and can be connected to, and serde prints the body.
\<close>

lemma finish_spec_ready:
  assumes "reserved_for name mac st" and "slot_st p (ss_slot st) = st"
    and "ss_slot st < length (pp_slots p)" and "all_alive p" and "slot_ready C (ss_slot st) p"
  shows "\<exists>rt q. finish_spec C (ss_slot st) p = (Inr rt, q) \<and> ss_pid st = Some (vr_pid rt)"
proof -
  have b: "ss_state (slot_st p (ss_slot st)) = Booting" using assms(1,2) by (simp add: reserved_for_def)
  obtain pid where "ss_pid st = Some pid" using assms(2,5) by (auto simp: slot_ready_def)
  with command_mark [OF b assms(3,4), of "ch_os C" "ch_now C"] assms(1,2,5) show ?thesis
    by (auto simp: finish_spec_def try_into_runtime_def reserved_for_def)
qed

lemma create_spec_accepted_iff:
  assumes "accepts (ch_transport C)" and "all_alive p" and "numbered p"
  shows "(\<exists>rt q. create_spec C c p = (Inr rt, q)) \<longleftrightarrow>
    validate_boot_config c = Inr ()
    \<and> (\<exists>st p1 body. allocate_spec (co_tap (ch_os C)) (bc_name c) (mac_for_name (ch_sha256 C) (bc_name c)) p
          = (Inr st, p1)
        \<and> slot_ready C (ss_slot st) p1 \<and> ch_to_vec C (create_body c st) = Inr body)"
    (is "?L \<longleftrightarrow> ?R")
proof
  assume ?L
  then show ?R
    by (auto simp: create_spec_def request_spec_def split: sum.splits prod.splits if_splits)
next
  assume ?R
  then obtain st p1 body where v: "validate_boot_config c = Inr ()"
    and al: "allocate_spec (co_tap (ch_os C)) (bc_name c) (mac_for_name (ch_sha256 C) (bc_name c)) p = (Inr st, p1)"
    and rd: "slot_ready C (ss_slot st) p1" and b: "ch_to_vec C (create_body c st) = Inr body"
    by blast
  note alloc = allocate_spec_Inr [OF al assms(2,3)]
  obtain rt q where "finish_spec C (ss_slot st) p1 = (Inr rt, q)"
    using finish_spec_ready [OF _ _ _ _ rd] alloc by blast
  with v al rd b show ?L
    by (simp add: create_spec_def request_spec_def boot_spec_def checked_accepts [OF assms(1)])
qed

lemma passthrough_quiet:
  assumes "calm_setting C E H" and "all_alive (pw_pool w)" and "numbered (pw_pool w)"
    and "running_spec name (pw_pool w) = Inr i"
  shows "acts_as (proxy_passthrough_by_name_for_pool (process_pool_facade E) (pool_service_env E H) name path w)
    (send_spec C i Method_GET path [] None (pw_pool w), pw_pool w)"
proof -
  obtain w1 where r: "running_slot (process_pool_facade E) name (lock_as Read_held E w)
      = (Inr (slot_st (pw_pool w) i), w1)" and p1: "pw_pool w1 = pw_pool w"
    and i: "ss_slot (slot_st (pw_pool w) i) = i"
    using running_quiet [OF assms(1-3), of name] assms(4) by auto
  obtain a w2 where q: "proxy_vm_request_with_content_type E i Method_GET path [] None w1 = (a, w2)" by fastforce
  then have "acts_as (a, w2) (map_err Backend (send_unix_http_request (ch_transport C)
      (vm_socket_path i (pw_pool w)) Method_GET path [] None), pw_pool w)"
    using request_quiet [OF assms(1), of i Method_GET path "[]" None w1] p1 by simp
  moreover have "map_err api_error_from (map_err Backend r) = map_err ApiBackend r" for r :: "string + 'r"
    by (cases r) simp_all
  ultimately show ?thesis
    using r i q by (auto simp: proxy_passthrough_by_name_for_pool_def proxy_vm_request_def acts_as_def send_spec_def)
qed

text \<open>After a creation the VM runs in its slot, and nowhere else.\<close>

lemma created_running:
  assumes "calm_setting C E H" and "all_alive (pw_pool w)" and "numbered (pw_pool w)"
    and "create_vm E H c w = Some (Inr rt, w1)"
  shows "\<exists>st p1. allocate_spec (co_tap (ch_os C)) (bc_name c) (mac_for_name (ch_sha256 C) (bc_name c)) (pw_pool w)
        = (Inr st, p1)
    \<and> running_spec (bc_name c) (pw_pool w1) = Inr (ss_slot st)
    \<and> vr_name rt = bc_name c \<and> vr_tap rt = tap_name (ss_slot st)
    \<and> all_alive (pw_pool w1) \<and> numbered (pw_pool w1) \<and> pp_vm_path (pw_pool w1) = pp_vm_path p1"
proof -
  let ?q = "pw_pool w1"
  have "create_spec C c (pw_pool w) = (Inr rt, ?q)"
    using create_quiet [OF assms(1-3), of c] assms(4) by (auto intro: prod_eqI)
  then obtain st p1 where al: "allocate_spec (co_tap (ch_os C)) (bc_name c)
        (mac_for_name (ch_sha256 C) (bc_name c)) (pw_pool w) = (Inr st, p1)"
    and fin: "finish_spec C (ss_slot st) p1 = (Inr rt, ?q)"
    by (rule create_spec_Inr)
  let ?i = "ss_slot st"
  note alloc = allocate_spec_Inr [OF al assms(2,3)]
  have f: "runtime_from_slot_status (slot_st ?q ?i) = Some rt" "vr_name rt = bc_name c"
      "vr_tap rt = tap_name ?i" "only_slot ?i p1 ?q" "all_alive ?q"
      "slot_st ?q ?i = st\<lparr>ss_state := Occupied, ss_started_at := Some (ch_now C)\<rparr>"
    using finish_spec_reserved [OF _ _ _ _ fin] alloc by auto
  then have fr: "runtime_from_slot_status (slot_st ?q ?i) = Some rt" "vr_name rt = bc_name c"
      "vr_tap rt = tap_name ?i" "ss_slot (slot_st ?q ?i) = ?i"
      "\<forall>j < length (pp_slots p1). j \<noteq> ?i \<longrightarrow> slot_st ?q j = slot_st p1 j"
      "length (pp_slots ?q) = length (pp_slots p1)" "all_alive ?q" "pp_vm_path ?q = pp_vm_path p1"
    using only_slot_st [OF f(4)] by (simp_all add: only_slot_length) (auto simp: only_slot_def)
  have "numbered ?q" using fr alloc by (auto simp: numbered_def)
  moreover have "slot_of_name (bc_name c) ?q = Some ?i"
    using runtime_from_slot_status_Some [OF fr(1)] fr alloc by (intro slot_of_name_sole) simp_all
  ultimately show ?thesis
    using al fr runtime_from_slot_status_Some(1) [OF fr(1)] by (auto simp: running_spec_def)
qed

section \<open>Demo VMs behind the sockets\<close>

text \<open>
  What the client reads from the bytes on the socket; the status line is
  \<open>HTTP/1.1 CODE TEXT\<close>.  \<open>slot_at\<close> is the slot name (\<open>VMM_SLOT\<close>) of the demo VM that listens
  on a socket.
\<close>

definition http_answer :: "string \<Rightarrow> string + raw_response" where
  "http_answer bytes =
     (case read_response bytes of
        None \<Rightarrow> Inl ''invalid HTTP response''
      | Some (status, headers, body) \<Rightarrow>
          (case parse_uint 999 (take 3 (drop 9 status)) of
             Inl _ \<Rightarrow> Inl ''invalid HTTP status''
           | Inr code \<Rightarrow> Inr \<lparr>rw_status = of_nat code, rw_content_type = map_of headers ''content-type'',
                             rw_body = Inr body\<rparr>))"

definition demo_vms :: "(string \<Rightarrow> string) \<Rightarrow> transport" where
  "demo_vms slot_at =
     \<lparr>tr_connect = (\<lambda>_. Inr ()), tr_handshake = Inr (), tr_build = (\<lambda>_. Inr ()),
      tr_send = (\<lambda>socket request. http_answer (demo_response (slot_at socket))),
      tr_header_str = Some\<rparr>"

definition demo_answer :: "string \<Rightarrow> proxy_response" where
  "demo_answer slot =
     \<lparr>pr_status = 200, pr_content_type = Some ''application/json'', pr_body = demo_body slot\<rparr>"

lemma length_demo_body: "length slot < 2 ^ 63 \<Longrightarrow> length (demo_body slot) < 2 ^ 64"
  by (simp add: demo_body_def dquote_def)

lemma ok_code: "parse_uint 999 (take 3 (drop 9 ''HTTP/1.1 200 OK'')) = Inr 200"
  by code_simp

lemma http_answer_demo:
  assumes "length slot < 2 ^ 63"
  shows "http_answer (demo_response slot)
    = Inr \<lparr>rw_status = 200, rw_content_type = Some ''application/json'', rw_body = Inr (demo_body slot)\<rparr>"
  unfolding http_answer_def read_demo_response [OF length_demo_body [OF assms]] option.case prod.case ok_code sum.case
  by (simp add: demo_headers_def)

lemma demo_vms_send:
  "length (slot_at socket) < 2 ^ 63 \<Longrightarrow>
   send_unix_http_request (demo_vms slot_at) socket m path body ct = Inr (demo_answer (slot_at socket))"
  by (simp add: send_unix_http_request_def demo_vms_def http_answer_demo response_to_proxy_response_def
      demo_answer_def Let_def)

lemma demo_vms_accept: "(\<And>socket. length (slot_at socket) < 2 ^ 63) \<Longrightarrow> accepts (demo_vms slot_at)"
  by (simp add: accepts_def demo_vms_send) (simp add: demo_answer_def)

text \<open>
  C15: A session on demo VMs.  With demo VMs behind the sockets and no other task in between,
  a creation with a valid configuration and a free name on the lowest empty slot, whose
  process runs, answers with the runtime of that slot; asking for its information returns,
  through both programs, exactly the JSON text of the demo VM of that slot with status 200;
  and deleting it succeeds and frees the name.
\<close>

theorem demo_vm_session:
  assumes "calm_setting C E H" and "all_alive (pw_pool w)" and "pool_ok (pw_pool w)"
    and "ch_transport C = demo_vms slot_at" and "\<And>socket. length (slot_at socket) < 2 ^ 63"
    and "config_ok c" and "\<not> name_used (bc_name c) (pw_pool w)"
    and "empty_slot (pw_pool w) = Some i" and "ss_pid (slot_st (pw_pool w) i) = Some pid"
    and "ensure_tap_device (co_tap (ch_os C)) (tap_name i) (h_bridge (pp_slots (pw_pool w) ! i)) = Inr ()"
    and "ch_connect C (vm_socket_path i (pw_pool w))" and "slot_at (vm_socket_path i (pw_pool w)) = show_nat i"
    and "\<And>j. ch_to_vec C j = Inr (text j)"
    and "ae_builder A 200 (Some ''application/json'') = Inr ()"
  shows "\<exists>rt w1 w2 w3.
      serve A E H (Create_vm c) w = Some (Inr (Runtime_answer rt), w1)
    \<and> vr_name rt = bc_name c \<and> vr_tap rt = tap_name i
    \<and> serve A E H (Proxy_info (bc_name c)) w1
        = Some (Inr (Proxy_answer \<lparr>ht_status = 200, ht_content_type = Some ''application/json'',
                                   ht_body = demo_body (show_nat i)\<rparr>), w2)
    \<and> serve A E H (Delete_vm (bc_name c)) w2 = Some (Inr Ok_answer, w3)
    \<and> \<not> name_used (bc_name c) (pw_pool w3)"
proof -
  let ?p = "pw_pool w" and ?F = "process_pool_facade E" and ?R = "pool_service_env E H"
  note num = pool_ok_numbered [OF assms(3)]
  have acc: "accepts (ch_transport C)" using assms(4,5) by (simp add: demo_vms_accept)
  have i: "i < length (pp_slots ?p)" using empty_slot_Some [OF assms(8)] by simp
  obtain st p1 where rs: "reserve_spec (co_tap (ch_os C)) i (bc_name c) (mac_for_name (ch_sha256 C) (bc_name c)) ?p
      = (Inr st, p1)"
    using assms(10) by (auto simp: reserve_spec_def Let_def)
  note res = reserve_spec_Inr [OF rs i assms(2) num]
  have al: "allocate_spec (co_tap (ch_os C)) (bc_name c) (mac_for_name (ch_sha256 C) (bc_name c)) ?p = (Inr st, p1)"
    using assms(7,8) rs by (simp add: allocate_spec_def empty_slot_def)
  have "slot_ready C (ss_slot st) p1"
    using res assms(9,11) by (simp add: slot_ready_def vm_socket_path_def)
  then have "\<exists>rt q. create_spec C c ?p = (Inr rt, q)"
    using create_spec_accepted_iff [OF acc assms(2) num] al assms(6,13) by (simp add: validate_config_ok)
  then obtain rt w1 where cr: "create_vm E H c w = Some (Inr rt, w1)"
    using create_quiet [OF assms(1,2) num, of c] by auto
  have run: "running_spec (bc_name c) (pw_pool w1) = Inr i" "vr_tap rt = tap_name i"
      "all_alive (pw_pool w1)" "numbered (pw_pool w1)" "pp_vm_path (pw_pool w1) = pp_vm_path ?p"
      "vr_name rt = bc_name c"
    using created_running [OF assms(1,2) num cr] al res by auto
  have "send_spec C i Method_GET ''/api/v1/vm.info'' [] None (pw_pool w1) = Inr (demo_answer (show_nat i))"
    using assms(4,12) run(5) demo_vms_send [of slot_at, OF assms(5)]
    by (simp add: send_spec_def vm_socket_path_def)
  then obtain w2 where inf: "proxy_passthrough_by_name_for_pool ?F ?R (bc_name c) ''/api/v1/vm.info'' w1
      = (Inr (demo_answer (show_nat i)), w2)" and p2: "pw_pool w2 = pw_pool w1"
    using passthrough_quiet [OF assms(1) run(3,4,1), of "''/api/v1/vm.info''"]
    by (auto simp: acts_as_def) (metis prod.collapse)
  obtain r3 w3 where d: "delete_vm E H (bc_name c) w2 = (r3, w3)" by fastforce
  obtain r w2' where d': "delete_vm E H (bc_name c) w1 = (r, w2')" by fastforce
  have "r3 = r \<and> pw_pool w3 = pw_pool w2'"
    using delete_quiet [OF assms(1), of w1 "bc_name c"] delete_quiet [OF assms(1), of w2 "bc_name c"]
      d d' p2 run(3,4) by simp
  with create_delete [OF assms(1-3) acc cr d'] have "r3 = Inr ()" "\<not> name_used (bc_name c) (pw_pool w3)"
    by simp_all
  then show ?thesis
    using cr run(2,6) inf d assms(14)
    by (simp add: serve_def answer_def create_vm_def delete_vm_def proxied_def build_proxy_response_def demo_answer_def)
qed

text \<open>The demo pool with its first process running, and a demo VM of slot 0 behind every socket.\<close>

definition session_calm :: calm_host where
  "session_calm = demo_calm\<lparr>ch_transport := demo_vms (\<lambda>_. show_nat 0)\<rparr>"

definition session_env :: pool_env where
  "session_env = demo_env\<lparr>pe_transport := (\<lambda>_. demo_vms (\<lambda>_. show_nat 0))\<rparr>"

lemma session_calm_setting: "calm_setting session_calm session_env demo_host"
  using demo_calm_setting
  by (simp add: calm_setting_def session_calm_def session_env_def quiet_env_def)

lemma show_nat_0: "show_nat 0 = ''0''"
  by code_simp

theorem demo_vm_session_witness:
  "\<exists>rt w1 w2. serve demo_api session_env demo_host (Create_vm demo_config) (demo_world Unlocked warm_pool)
      = Some (Inr (Runtime_answer rt), w1)
    \<and> serve demo_api session_env demo_host (Proxy_info ''vm-b'') w1
      = Some (Inr (Proxy_answer \<lparr>ht_status = 200, ht_content_type = Some ''application/json'',
                                 ht_body = demo_body (show_nat 0)\<rparr>), w2)"
proof -
  let ?w = "demo_world Unlocked warm_pool"
  have "empty_slot warm_pool = Some 0"
    by (simp add: empty_slot_def upt_rec [of 0 2] warm_pool_st initial_status_def)
  moreover have "ss_pid (slot_st warm_pool 0) = Some 7" by (simp add: warm_pool_st)
  moreover have "ensure_tap_device (co_tap (ch_os session_calm)) (tap_name 0) (h_bridge (pp_slots warm_pool ! 0)) = Inr ()"
    by (simp add: session_calm_def demo_calm_def demo_cmd_os_def demo_tap_ok)
  moreover have "config_ok demo_config" using demo_config_valid by (simp add: validate_config_ok)
  ultimately show ?thesis
    using demo_vm_session [OF session_calm_setting, of ?w "\<lambda>_. show_nat 0" demo_config 0 7 "\<lambda>_. ''{}''" demo_api]
      warm_pool_alive warm_pool_ok warm_pool_unused demo_config_sel
    by (fastforce simp: session_calm_def demo_to_vec show_nat_0 demo_api_def demo_calm_def)
qed

end
