(* ===== verification/GrowthRun.thy ===== *)
theory GrowthRun
  imports DaemonRun
begin

text \<open>
  A run of the daemon whose requests fill the pool, make it grow by a slot and free that
  slot again, among workers that start their processes and virtual machines that accept what
  they are asked.  Every one of these requests is served; the autoscaler's next round then
  never returns.
\<close>

section \<open>Workers that only start their processes\<close>

definition settled :: "process_pool \<Rightarrow> bool" where
  "settled p = (\<forall>i < length (pp_slots p). rt_child (slot_rt p i) \<noteq> None \<and> ss_pid (slot_st p i) \<noteq> None)"

text \<open>Every worker has its process, or starts one on its next turn.\<close>

definition startable :: "process_pool \<Rightarrow> bool" where
  "startable p = (\<forall>i < length (pp_slots p).
     if rt_child (slot_rt p i) = None then should_spawn (ss_state (slot_st p i))
     else ss_pid (slot_st p i) \<noteq> None)"

lemma settled_startable: "settled p \<Longrightarrow> startable p"
  by (auto simp: settled_def startable_def)

lemma on_slot_same: "f (slot_rt p i) = slot_rt p i \<Longrightarrow> on_slot i f p = p"
  by (simp add: on_slot_def slot_rt_def)

lemma spawn_settled: "settled p \<Longrightarrow> on_slot i (spawn_phase out) p = p"
proof (cases "i < length (pp_slots p)")
  case True
  assume "settled p"
  with True have "spawn_phase out (slot_rt p i) = slot_rt p i"
    by (auto simp: settled_def spawn_phase_def)
  then show ?thesis by (rule on_slot_same)
qed (simp add: on_slot_def)

lemma spawn_all_settled: "settled p \<Longrightarrow> apply_actions (spawn_all m) p = p"
proof -
  assume s: "settled p"
  have "apply_actions (map (\<lambda>i. Act_spawn i (Inr (Some (of_nat (Suc i))))) is) p = p" for "is"
    by (induction "is") (simp_all add: spawn_settled [OF s])
  then show ?thesis by (simp add: spawn_all_def)
qed

lemma spawn_all_permitted: "filter (permitted l) (spawn_all m) = spawn_all m"
  by (auto simp: spawn_all_def filter_id_conv)

text \<open>What one turn of every worker leaves.\<close>

lemma spawn_phase_started:
  assumes "rt_child rt = None \<Longrightarrow> should_spawn (ss_state (rt_status rt))"
    and "rt_child rt \<noteq> None \<Longrightarrow> ss_pid (rt_status rt) \<noteq> None"
  shows "rt_child (spawn_phase (Inr (Some pid)) rt) \<noteq> None"
    and "ss_pid (rt_status (spawn_phase (Inr (Some pid)) rt)) \<noteq> None"
    and "ss_state (rt_status (spawn_phase (Inr (Some pid)) rt)) = ss_state (rt_status rt)"
    and "ss_name (rt_status (spawn_phase (Inr (Some pid)) rt)) = ss_name (rt_status rt)"
    and "ss_slot (rt_status (spawn_phase (Inr (Some pid)) rt)) = ss_slot (rt_status rt)"
  using assms by (auto simp: spawn_phase_def cleanup_api_socket_def log_os_def Let_def)

text \<open>The pool with the slots \<open>vms\<close> in use, in this order, and the others empty.\<close>

definition filled :: "string list \<Rightarrow> process_pool \<Rightarrow> bool" where
  "filled vms p =
     (all_alive p \<and> numbered p \<and> length vms \<le> length (pp_slots p)
      \<and> (\<forall>i < length (pp_slots p).
           (ss_state (slot_st p i), ss_name (slot_st p i))
             = (if i < length vms then (Occupied, Some (vms ! i)) else (Empty, None))))"

lemma spawn_all_start:
  assumes "all_alive p" and "startable p" and "length (pp_slots p) \<le> m"
  shows "settled (apply_actions (spawn_all m) p)
    \<and> length (pp_slots (apply_actions (spawn_all m) p)) = length (pp_slots p)
    \<and> (filled vms p \<longrightarrow> filled vms (apply_actions (spawn_all m) p))"
proof -
  let ?n = "length (pp_slots p)" and ?q = "apply_actions (spawn_all m) p"
  have "[0..<m] = [0..<?n] @ [?n..<m]"
    using upt_add_eq_append [of 0 ?n "m - ?n"] assms(3) by simp
  then have "spawn_all m = spawn_all ?n @ map (\<lambda>i. Act_spawn i (Inr (Some (of_nat (Suc i))))) [?n..<m]"
    by (simp add: spawn_all_def del: upt_Suc)
  moreover have "apply_actions (map (\<lambda>i. Act_spawn i (Inr (Some (of_nat (Suc i))))) is) r = r"
    if "\<forall>i \<in> set is. length (pp_slots r) \<le> i" for "is" r
    using that by (induction "is") (simp_all add: on_slot_def)
  ultimately have q: "?q = apply_actions (spawn_all ?n) p"
    using spawned_slots [OF assms(1), of ?n] by simp
  note sp = spawned_slots [OF assms(1), of ?n]
  have rt: "slot_rt ?q i = spawn_phase (Inr (Some (of_nat (Suc i)))) (slot_rt p i)" if "i < ?n" for i
    using sp that q by simp
  have ph: "rt_child (slot_rt ?q i) \<noteq> None \<and> ss_pid (slot_st ?q i) \<noteq> None
      \<and> ss_state (slot_st ?q i) = ss_state (slot_st p i) \<and> ss_name (slot_st ?q i) = ss_name (slot_st p i)
      \<and> ss_slot (slot_st ?q i) = ss_slot (slot_st p i)" if "i < ?n" for i
    using assms(2) that spawn_phase_started [of "slot_rt p i" "of_nat (Suc i)"] rt [OF that]
    by (auto simp: startable_def slot_st_def split: if_splits)
  show ?thesis using ph sp by (simp add: q settled_def filled_def numbered_def)
qed

section \<open>An environment that does as it is asked\<close>

definition willing :: "calm_host \<Rightarrow> nat \<Rightarrow> pool_env \<Rightarrow> host_services \<Rightarrow> bool" where
  "willing C m E H =
     (pe_actions E = (\<lambda>_. spawn_all m) \<and> calm_setting C (E\<lparr>pe_actions := (\<lambda>_. [])\<rparr>) H
      \<and> accepts (ch_transport C) \<and> (\<forall>path. ch_connect C path)
      \<and> (\<forall>tap bridge. ensure_tap_device (co_tap (ch_os C)) tap bridge = Inr ())
      \<and> (\<forall>body. \<exists>text. ch_to_vec C body = Inr text))"

lemma willingD:
  assumes "willing C m E H"
  shows "pe_cmd_os E = (\<lambda>_. ch_os C)" and "pe_transport E t = ch_transport C"
    and "hs_connect H t path" and "hs_now H t = ch_now C" and "hs_sha256 H = ch_sha256 C"
    and "hs_to_vec H = ch_to_vec C" and "\<exists>text. ch_to_vec C body = Inr text"
    and "ensure_tap_device (co_tap (ch_os C)) tap bridge = Inr ()" and "\<not> pe_autoscales E t"
    and "pe_actions E t = spawn_all m"
  using assms by (auto simp: willing_def calm_setting_def quiet_env_def)

lemma willing_await:
  "willing C m E H \<Longrightarrow> pw_pool (await E w) = apply_actions (spawn_all m) (pw_pool w)"
  by (simp add: await_def willingD(10) spawn_all_permitted)

lemma willing_still: "willing C m E H \<Longrightarrow> settled p \<Longrightarrow> still E p"
  by (simp add: still_def willingD(10) spawn_all_permitted spawn_all_settled)

lemma willing_lock: "willing C m E H \<Longrightarrow> settled (pw_pool w) \<Longrightarrow> pw_pool (lock_as l E w) = pw_pool w"
  by (simp add: willing_await spawn_all_settled)

lemma willing_request:
  assumes "willing C m E H" and "settled (pw_pool w)"
  shows "\<exists>resp w1. proxy_vm_request_with_content_type E i method path body ct w = (Inr resp, w1)
    \<and> \<not> 400 \<le> pr_status resp \<and> pw_pool w1 = pw_pool w"
proof -
  have "accepts (ch_transport C)" using assms(1) by (simp add: willing_def)
  then obtain resp where "send_unix_http_request (ch_transport C) (vm_socket_path i (pw_pool w)) method path body ct
      = Inr resp" "\<not> 400 \<le> pr_status resp" unfolding accepts_def by blast
  then show ?thesis
    using willing_await [OF assms(1), of w] spawn_all_settled [OF assms(2)]
    by (simp add: proxy_vm_request_with_content_type_def willingD(2) [OF assms(1)] Let_def log_entry_def)
qed

section \<open>A creation in such an environment\<close>

lemma filled_slot:
  "filled vms p \<Longrightarrow> i < length (pp_slots p) \<Longrightarrow>
   ss_state (slot_st p i) = (if i < length vms then Occupied else Empty)
   \<and> ss_name (slot_st p i) = (if i < length vms then Some (vms ! i) else None)
   \<and> ss_slot (slot_st p i) = i"
  by (auto simp: filled_def numbered_def split: if_splits)

lemma filled_empty_slot:
  assumes "filled vms p"
  shows "empty_slot p = (if length vms < length (pp_slots p) then Some (length vms) else None)"
proof (cases "length vms < length (pp_slots p)")
  case True
  then have "find (\<lambda>i. ss_state (slot_st p i) = Empty) [0..<length (pp_slots p)] = Some (length vms)"
    using filled_slot [OF assms] by (auto simp: find_Some_iff intro!: exI [of _ "length vms"])
  with True show ?thesis by (simp add: empty_slot_def)
next
  case False
  then show ?thesis
    using filled_slot [OF assms] by (auto simp: empty_slot_def find_None_iff_all)
qed

lemma filled_unused:
  assumes "filled vms p" and "name \<notin> set vms"
  shows "\<not> name_used name p"
proof -
  have "ss_name (slot_st p i) \<noteq> Some name" if "i < length (pp_slots p)" for i
    using filled_slot [OF assms(1) that] assms(2) nth_mem [of i vms] by auto
  then show ?thesis by (simp add: name_used_iff)
qed

lemma filled_extend:
  assumes "filled vms p" and "length vms = length (pp_slots p)"
  shows "filled vms (extend_slots 1 p)"
proof -
  have "slot_st (extend_slots 1 p) i = (if i < length (pp_slots p) then slot_st p i else initial_status i)"
    if "i < Suc (length (pp_slots p))" for i
    using that slot_st_extend_old [of i p] slot_st_extend_new [of p] by (auto simp: less_Suc_eq)
  then show ?thesis
    using assms all_alive_extend numbered_extend [of p]
    by (auto simp: filled_def initial_status_def simp del: One_nat_def)
qed

lemma startable_extend: "startable p \<Longrightarrow> startable (extend_slots 1 p)"
  by (auto simp: startable_def slot_st_def slot_rt_extend initial_runtime_def initial_status_def
      should_spawn_def less_Suc_eq)

lemma settled_on_slot:
  assumes "settled p" and "rt_child (f (slot_rt p i)) \<noteq> None" and "ss_pid (rt_status (f (slot_rt p i))) \<noteq> None"
  shows "settled (on_slot i f p)"
  using assms by (auto simp: settled_def slot_st_def slot_rt_on_slot)

definition reserved_pool :: "nat \<Rightarrow> slot_status \<Rightarrow> process_pool \<Rightarrow> process_pool" where
  "reserved_pool i st q = on_slot i (\<lambda>rt. log_os [Os_tap (tap_name i)] (rt\<lparr>rt_status := st\<rparr>)) q"

lemma settled_reserved:
  "settled q \<Longrightarrow> i < length (pp_slots q) \<Longrightarrow>
   settled (reserved_pool i (reserve_status name mac tap (slot_st q i)) q)"
  unfolding reserved_pool_def
  by (rule settled_on_slot) (auto simp: settled_def log_os_def reserve_status_def)

lemma willing_reserve_spec:
  "willing C m E H \<Longrightarrow> reserve_spec (co_tap (ch_os C)) i name mac q
     = (let st = reserve_status name mac (tap_name i) (slot_st q i) in (Inr st, reserved_pool i st q))"
  by (simp add: reserve_spec_def willingD(8) reserved_pool_def Let_def)

lemma loop_found:
  assumes "willing C m E H" and "filled vms (pw_pool w)" and "settled (pw_pool w)"
    and "length vms < length (pp_slots (pw_pool w))"
    and "st = reserve_status name mac (tap_name (length vms)) (slot_st (pw_pool w) (length vms))"
  shows "\<exists>w1. allocate_loop E name mac w = (Inr st, w1)
    \<and> pw_pool w1 = reserved_pool (length vms) st (pw_pool w)"
proof -
  let ?i = "length vms" and ?q = "pw_pool w"
  have sp: "reserve_spec (co_tap (ch_os C)) ?i name mac ?q = (Inr st, reserved_pool ?i st ?q)"
    using willing_reserve_spec [OF assms(1)] assms(5) by (simp add: Let_def)
  have "still E (reserved_pool ?i st ?q)"
    using willing_still [OF assms(1)] settled_reserved [OF assms(3,4)] assms(5) by simp
  then have "fst (allocate_loop E name mac w) = Inr st
      \<and> pw_pool (snd (allocate_loop E name mac w)) = reserved_pool ?i st ?q"
    using allocate_round_found [OF willing_still [OF assms(1,3)] willingD(1) [OF assms(1)], of ?i name mac]
      filled_empty_slot [OF assms(2)] assms(2,4) sp by (simp add: filled_def)
  then show ?thesis by (metis prod.collapse)
qed

lemma filled_allocate:
  assumes "willing C m E H" and "filled vms (pw_pool w)" and "settled (pw_pool w)"
    and "name \<notin> set vms" and "length vms < pp_max (pw_pool w)"
    and "Suc (length vms) \<le> m" and "length (pp_slots (pw_pool w)) \<le> m"
  shows "\<exists>st w1 q. allocate_vm_slot E name mac w = (Inr st, w1) \<and> filled vms q \<and> settled q
    \<and> length (pp_slots q) = max (length (pp_slots (pw_pool w))) (Suc (length vms))
    \<and> st = reserve_status name mac (tap_name (length vms)) (slot_st q (length vms))
    \<and> pw_pool w1 = reserved_pool (length vms) st q"
proof -
  let ?p = "pw_pool w" and ?n = "length (pp_slots (pw_pool w))"
  have al: "all_alive ?p" and le: "length vms \<le> ?n" using assms(2) by (simp_all add: filled_def)
  obtain w1 where l: "list_vm_slots E w = (Inr (map (slot_st ?p) [0..<?n]), w1)" and p1: "pw_pool w1 = ?p"
    using list_still [OF willing_still [OF assms(1,3)] al] by blast
  have loop: "allocate_vm_slot E name mac w = allocate_loop E name mac w1"
    using l name_used_map [of name ?p] filled_unused [OF assms(2,4)]
    by (simp add: allocate_vm_slot_def find_vm_slot_status_by_name_def)
  show ?thesis
  proof (cases "length vms < ?n")
    case True
    with loop_found [OF assms(1), of vms w1] assms(2,3) p1 loop show ?thesis
      by (metis Suc_leI max.absorb1)
  next
    case False
    with le have n: "length vms = ?n" by simp
    obtain w2 where p2: "pw_pool w2 = ?p"
      and a: "allocate_loop E name mac w1 = allocate_loop E name mac (pool_extend E 1 w2)"
      using allocate_round_none [of E w1 name mac] willing_still [OF assms(1,3)] al p1
        filled_empty_slot [OF assms(2)] n assms(5) by auto
    let ?e = "w2\<lparr>pw_pool := extend_slots 1 ?p\<rparr>"
    define q where "q = pw_pool (await E ?e)"
    have fe: "filled vms (extend_slots 1 ?p)" using filled_extend [OF assms(2) n] .
    have "settled q \<and> length (pp_slots q) = Suc ?n \<and> filled vms q"
      using spawn_all_start [of "extend_slots 1 ?p" m vms] fe startable_extend [OF settled_startable [OF assms(3)]]
        willing_await [OF assms(1), of ?e] assms(6) n
      by (simp add: q_def filled_def)
    then have q: "settled q" "length (pp_slots q) = Suc ?n" "filled vms q" by auto
    then have qs: "still E q" "all_alive q" "length (pp_slots q) = length (pp_slots (pw_pool ?e))"
      "pp_slots q \<noteq> []"
      using willing_still [OF assms(1)] by (auto simp: filled_def)
    have "pw_pool (pool_extend E 1 w2) = q"
      using log_awaited [OF q_def qs, of "''extend''"] p2 by (simp add: pool_extend_def)
    with loop_found [OF assms(1), of vms "pool_extend E 1 w2"] q n a loop show ?thesis
      by (metis le max.absorb2 le_SucI lessI)
  qed
qed

lemma willing_wait:
  assumes "willing C m E H" and "settled (pw_pool w)" and "all_alive (pw_pool w)"
    and "i < length (pp_slots (pw_pool w))"
  shows "\<exists>w'. wait_for_slot_ready (process_pool_facade E) (pool_service_env E H) i w = Some (Inr (), w')
    \<and> pw_pool w' = pw_pool w"
proof -
  let ?p = "pw_pool w"
  obtain w1 where g: "get_vm_slot_status E i (lock_as Read_held E w) = (Inr (slot_st ?p i), w1)"
    and p1: "pw_pool w1 = ?p"
    using get_status_still [of E "lock_as Read_held E w" i] willing_lock [OF assms(1,2)]
      willing_still [OF assms(1,2)] assms(3,4) by auto
  have "ss_pid (slot_st ?p i) \<noteq> None" using assms(2,4) by (simp add: settled_def)
  then have "wait_for_slot_ready (process_pool_facade E) (pool_service_env E H) i w
      = Some (Inr (), await E (unlock w1))"
    using g willingD(3) [OF assms(1)]
    by (simp add: wait_for_slot_ready_def wait_loop.simps try_connect_def Let_def)
  moreover have "pw_pool (await E (unlock w1)) = ?p"
    using await_still [of E "unlock w1"] willing_still [OF assms(1,2)] p1 by simp
  ultimately show ?thesis by blast
qed

definition booted_pool :: "nat \<Rightarrow> string \<Rightarrow> process_pool \<Rightarrow> process_pool" where
  "booted_pool i at p = on_slot i (\<lambda>rt. rt\<lparr>rt_status :=
     (rt_status rt)\<lparr>ss_state := Occupied, ss_started_at := Some at\<rparr>\<rparr>) p"

lemma settled_booted: "settled p \<Longrightarrow> i < length (pp_slots p) \<Longrightarrow> settled (booted_pool i at p)"
  unfolding booted_pool_def by (rule settled_on_slot) (auto simp: settled_def slot_st_def)

lemma willing_finish:
  assumes "willing C m E H" and "settled (pw_pool w)" and "all_alive (pw_pool w)"
    and "i < length (pp_slots (pw_pool w))" and "ss_state (slot_st (pw_pool w) i) = Booting"
  shows "\<exists>r w'. finish_create (process_pool_facade E) (pool_service_env E H) i at w = Some (r, w')
    \<and> pw_pool w' = booted_pool i at (pw_pool w)"
proof -
  let ?p = "pw_pool w"
  obtain w1 where wt: "wait_for_slot_ready (process_pool_facade E) (pool_service_env E H) i w = Some (Inr (), w1)"
    and p1: "pw_pool w1 = ?p" using willing_wait [OF assms(1-4)] by blast
  let ?l = "lock_as Read_held E w1"
  have pl: "pw_pool ?l = ?p" "pw_pool (await E ?l) = ?p"
    using willing_lock [OF assms(1), of w1 Read_held] willing_await [OF assms(1), of ?l] p1
      spawn_all_settled [OF assms(2)] assms(2) by simp_all
  have al: "h_alive (pp_slots ?p ! i)" using assms(3,4) by (simp add: all_alive_def list_all_length)
  have b: "on_slot i (\<lambda>_. (slot_rt ?p i)\<lparr>rt_status :=
      (rt_status (slot_rt ?p i))\<lparr>ss_state := Occupied, ss_started_at := Some at\<rparr>\<rparr>) ?p = booted_pool i at ?p"
    unfolding booted_pool_def by (simp add: on_slot_def)
  obtain st w2 where s: "send_command E i (MarkVmBooted at) ?l = (Inr st, w2)"
    and p2: "pw_pool w2 = booted_pool i at ?p"
    using pl al assms(4,5) b
    by (simp add: send_command_def handle_command.simps slot_st_def Let_def log_entry_def)
  have "pw_pool (log_pool_occupancy E ''mark_vm_slot_booted'' w2) = booted_pool i at ?p"
    using log_still [of E w2] p2 willing_still [OF assms(1) settled_booted [OF assms(2,4)]] assms(3)
    by (simp add: booted_pool_def all_alive_on_slot)
  with wt s show ?thesis by (simp add: finish_create_def mark_vm_slot_booted_def logged_command_def)
qed

lemma willing_create_on_slot:
  assumes "willing C m E H" and "settled (pw_pool w)" and "all_alive (pw_pool w)"
    and "ss_slot st < length (pp_slots (pw_pool w))" and "ss_state (slot_st (pw_pool w) (ss_slot st)) = Booting"
  shows "\<exists>r w'. create_on_slot (process_pool_facade E) (pool_service_env E H) c st w = Some (r, w')
    \<and> pw_pool w' = booted_pool (ss_slot st) (ch_now C) (pw_pool w)"
proof -
  let ?i = "ss_slot st" and ?p = "pw_pool w"
  obtain body where body: "ch_to_vec C (create_body c st) = Inr body" using willingD(7) [OF assms(1)] by blast
  have lp: "pw_pool (lock_as Read_held E w) = ?p" by (rule willing_lock [OF assms(1,2)])
  obtain resp w1 where rq: "proxy_vm_request_with_content_type E ?i Method_PUT (create_path c) body
      (Some ''application/json'') (lock_as Read_held E w) = (Inr resp, w1)"
    and ok: "\<not> 400 \<le> pr_status resp" and p1: "pw_pool w1 = ?p"
    using willing_request [OF assms(1), of "lock_as Read_held E w"] lp assms(2) by metis
  obtain resp2 w2 where rq2: "proxy_vm_request_with_content_type E ?i Method_PUT ''/api/v1/vm.boot'' [] None w1
      = (Inr resp2, w2)" and ok2: "\<not> 400 \<le> pr_status resp2" and p2: "pw_pool w2 = ?p"
    using willing_request [OF assms(1), of w1] p1 assms(2) by metis
  have fin: "\<exists>r w'. finish_create (process_pool_facade E) (pool_service_env E H) ?i (ch_now C) (unlock v) = Some (r, w')
      \<and> pw_pool w' = booted_pool ?i (ch_now C) ?p" if "pw_pool v = ?p" for v
    using willing_finish [OF assms(1), of "unlock v" ?i] that assms(2-5) by simp
  show ?thesis
    using fin [OF p1] fin [OF p2] body rq ok rq2 ok2
    by (cases "bc_snapshot_path c = None")
      (auto simp: create_on_slot_def boot_created_def willingD(4,6) [OF assms(1)] Let_def)
qed

lemma booted_filled:
  assumes "filled vms q" and "length vms < length (pp_slots q)"
    and "st = reserve_status name mac tap (slot_st q (length vms))"
  shows "filled (vms @ [name]) (booted_pool (length vms) at (reserved_pool (length vms) st q))"
proof -
  let ?i = "length vms" and ?b = "booted_pool (length vms) at (reserved_pool (length vms) st q)"
  have al: "all_alive q" "all_alive (reserved_pool ?i st q)"
    using assms(1) by (simp_all add: filled_def reserved_pool_def all_alive_on_slot)
  have st: "slot_st ?b j = (if j = ?i then st\<lparr>ss_state := Occupied, ss_started_at := Some at\<rparr> else slot_st q j)"
    if "j < length (pp_slots q)" for j
    using that al assms(2)
    by (simp add: booted_pool_def slot_st_on_slot)
      (simp add: reserved_pool_def slot_rt_on_alive slot_st_on_slot log_os_def)
  have "all_alive ?b" using al(2) by (simp add: booted_pool_def all_alive_on_slot)
  moreover have "length (pp_slots ?b) = length (pp_slots q)" by (simp add: booted_pool_def reserved_pool_def)
  ultimately show ?thesis
    using st filled_slot [OF assms(1)] assms(2,3)
    by (auto simp: filled_def numbered_def reserve_status_def nth_append less_Suc_eq)
qed

lemma filled_create:
  assumes "willing C m E H" and "filled vms (pw_pool w)" and "settled (pw_pool w)"
    and "bc_name c \<notin> set vms" and "length vms < pp_max (pw_pool w)"
    and "Suc (length vms) \<le> m" and "length (pp_slots (pw_pool w)) \<le> m"
    and "validate_boot_config c = Inr ()"
  shows "\<exists>r w'. create_vm E H c w = Some (r, w') \<and> filled (vms @ [bc_name c]) (pw_pool w')
    \<and> settled (pw_pool w')
    \<and> length (pp_slots (pw_pool w')) = max (length (pp_slots (pw_pool w))) (Suc (length vms))"
proof -
  let ?i = "length vms" and ?l = "lock_as Write_held E w" and ?mac = "mac_for_name (hs_sha256 H) (bc_name c)"
  have lp: "pw_pool ?l = pw_pool w" by (rule willing_lock [OF assms(1,3)])
  obtain st w1 q where al: "allocate_vm_slot E (bc_name c) ?mac ?l = (Inr st, w1)"
    and q: "filled vms q" "settled q" "length (pp_slots q) = max (length (pp_slots (pw_pool w))) (Suc ?i)"
    and st: "st = reserve_status (bc_name c) ?mac (tap_name ?i) (slot_st q ?i)"
    and p1: "pw_pool w1 = reserved_pool ?i st q"
    using filled_allocate [OF assms(1), of vms ?l "bc_name c" ?mac] lp assms(2-7) by auto
  have i: "?i < length (pp_slots q)" using q(3) by simp
  have slot: "ss_slot st = ?i" using st filled_slot [OF q(1) i] by (simp add: reserve_status_def)
  have r: "settled (reserved_pool ?i st q)" using settled_reserved [OF q(2) i] st by simp
  have "all_alive q" using q(1) by (simp add: filled_def)
  then have ra: "all_alive (reserved_pool ?i st q)" and rs: "slot_st (reserved_pool ?i st q) ?i = st"
    and rl: "length (pp_slots (reserved_pool ?i st q)) = length (pp_slots q)"
    using i by (simp_all add: reserved_pool_def all_alive_on_slot slot_st_on_slot log_os_def)
  obtain w2 where wt: "wait_for_slot_ready (process_pool_facade E) (pool_service_env E H) ?i (unlock w1) = Some (Inr (), w2)"
    and p2: "pw_pool w2 = reserved_pool ?i st q"
    using willing_wait [OF assms(1), of "unlock w1" ?i] p1 r ra rl i by auto
  have "ss_state st = Booting" using st by (simp add: reserve_status_def)
  then obtain y w3 where cr: "create_on_slot (process_pool_facade E) (pool_service_env E H) c st w2 = Some (y, w3)"
    and p3: "pw_pool w3 = booted_pool ?i (ch_now C) (reserved_pool ?i st q)"
    using willing_create_on_slot [OF assms(1), of w2 st c] p2 r ra rs rl i slot by auto
  have "create_vm E H c w = Some (y, w3)"
    using al wt cr slot assms(8) by (simp add: create_vm_def create_vm_with_pool_def)
  moreover have "settled (pw_pool w3)" using settled_booted [OF r] rl i p3 by simp
  moreover have "filled (vms @ [bc_name c]) (pw_pool w3)" using booted_filled [OF q(1) i st] p3 by simp
  ultimately show ?thesis using q(3) rl p3 by (simp add: booted_pool_def)
qed

section \<open>A deletion in such an environment\<close>

lemma release_runtime:
  assumes "ss_state (rt_status rt) = Occupied"
  shows "\<exists>rt'. handle_command os b ReleaseVm rt = (Inr (rt_status rt'), rt')
    \<and> rt_status rt' = vacate_status (rt_status rt) \<and> rt_child rt' = None"
  using assms
  by (cases "rt_child rt")
    (simp_all add: handle_command.simps cleanup_api_socket_def stop_child_def log_os_def Let_def)

lemma released_filled:
  assumes "filled (vms @ [name]) p" and "settled p" and "length (pp_slots p) = Suc (length vms)"
    and "rt_status rt = vacate_status (slot_st p (length vms))" and "rt_child rt = None"
    and "q = on_slot (length vms) (\<lambda>_. rt) p"
  shows "filled vms q \<and> startable q \<and> length (pp_slots q) = length (pp_slots p)"
proof -
  have al: "all_alive p" using assms(1) by (simp add: filled_def)
  have rt: "slot_rt q j = (if j = length vms then rt else slot_rt p j)" if "j < length (pp_slots p)" for j
    using that al assms(3) by (simp add: assms(6) slot_rt_on_alive)
  have "all_alive q" "length (pp_slots q) = length (pp_slots p)" using al by (simp_all add: assms(6) all_alive_on_slot)
  moreover have "startable q"
    using rt assms(2-5) by (auto simp: startable_def settled_def slot_st_def vacate_status_def should_spawn_def assms(6))
  ultimately show ?thesis
    using rt filled_slot [OF assms(1)] assms(3,4)
    by (auto simp: filled_def numbered_def slot_st_def vacate_status_def nth_append less_Suc_eq)
qed

lemma filled_delete:
  assumes "willing C m E H" and "filled (vms @ [name]) (pw_pool w)" and "settled (pw_pool w)"
    and "name \<notin> set vms" and "length (pp_slots (pw_pool w)) = Suc (length vms)" and "Suc (length vms) \<le> m"
  shows "\<exists>w'. delete_vm E H name w = (Inr (), w') \<and> filled vms (pw_pool w') \<and> settled (pw_pool w')
    \<and> length (pp_slots (pw_pool w')) = Suc (length vms)"
proof -
  let ?p = "pw_pool w" and ?i = "length vms" and ?l = "lock_as Read_held E w"
  note fs = filled_slot [OF assms(2)]
  have al: "all_alive ?p" using assms(2) by (simp add: filled_def)
  have lp: "pw_pool ?l = ?p" by (rule willing_lock [OF assms(1,3)])
  obtain w1 where l: "list_vm_slots E ?l = (Inr (map (slot_st ?p) [0..<Suc ?i]), w1)" and p1: "pw_pool w1 = ?p"
    using list_still [of E ?l] willing_still [OF assms(1,3)] al lp assms(5) by (auto simp del: upt_Suc)
  have "find (\<lambda>j. ss_name (slot_st ?p j) = Some name) [0..<Suc ?i] = Some ?i"
    using fs assms(4,5) nth_mem [of _ vms]
    by (auto simp: find_Some_iff nth_append simp del: upt_Suc intro!: exI [of _ ?i])
  then have f: "find (\<lambda>st. ss_name st = Some name) (map (slot_st ?p) [0..<Suc ?i]) = Some (slot_st ?p ?i)"
    by (simp add: find_map comp_def del: upt_Suc)
  have i: "ss_slot (slot_st ?p ?i) = ?i" "ss_state (slot_st ?p ?i) = Occupied" using fs [of ?i] assms(5) by simp_all
  obtain a w2 where rq: "proxy_vm_request_with_content_type E ?i Method_PUT ''/api/v1/vm.shutdown'' [] None w1 = (Inr a, w2)"
    and ok: "\<not> 400 \<le> pr_status a" and p2: "pw_pool w2 = ?p"
    using willing_request [OF assms(1), of w1] p1 assms(3) by metis
  obtain b w3 where rq2: "proxy_vm_request_with_content_type E ?i Method_PUT ''/api/v1/vm.delete'' [] None w2 = (Inr b, w3)"
    and ok2: "\<not> 400 \<le> pr_status b" and p3: "pw_pool w3 = ?p"
    using willing_request [OF assms(1), of w2] p2 assms(3) by metis
  obtain rt where h: "handle_command (ch_os C) (h_bridge (pp_slots ?p ! ?i)) ReleaseVm (slot_rt ?p ?i) = (Inr (rt_status rt), rt)"
    and rt: "rt_status rt = vacate_status (slot_st ?p ?i)" "rt_child rt = None"
    using release_runtime [of "slot_rt ?p ?i"] i(2) unfolding slot_st_def by blast
  define q where "q = on_slot ?i (\<lambda>_. rt) ?p"
  note rf = released_filled [OF assms(2,3,5) rt q_def]
  have hal: "h_alive (pp_slots ?p ! ?i)" using al assms(5) by (simp add: all_alive_def list_all_length)
  have "pw_pool (await E w3) = ?p" using await_still [of E w3] willing_still [OF assms(1,3)] p3 by simp
  then obtain w4 where s: "send_command E ?i ReleaseVm w3 = (Inr (rt_status rt), w4)" and p4: "pw_pool w4 = q"
    using h hal p3 assms(5) by (simp add: send_command_def willingD(1) [OF assms(1)] Let_def log_entry_def q_def)
  define q' where "q' = pw_pool (await E w4)"
  have q': "settled q'" "length (pp_slots q') = Suc ?i" "filled vms q'"
    using spawn_all_start [of q m vms] rf assms(5,6) willing_await [OF assms(1), of w4] p4
    by (auto simp: q'_def filled_def)
  then have qs: "still E q'" "all_alive q'" "length (pp_slots q') = length (pp_slots (pw_pool w4))" "pp_slots q' \<noteq> []"
    using willing_still [OF assms(1)] rf p4 assms(5) by (auto simp: filled_def)
  have "pw_pool (log_pool_occupancy E ''release_vm_slot'' w4) = q'" by (rule log_awaited [OF q'_def qs])
  with s q' show ?thesis
    using l f i rq ok rq2 ok2
    by (simp add: delete_vm_def delete_vm_with_pool_def running_slot_def find_vm_slot_status_by_name_def
        delete_stopped_def release_vm_slot_def logged_command_def Let_def del: upt_Suc)
qed

section \<open>The requests, and the round after them\<close>

definition fill_and_free :: "boot_config list \<Rightarrow> daemon_event list" where
  "fill_and_free cs = map (\<lambda>c. Call (Create_vm c)) cs @ [Call (Delete_vm (bc_name (last cs)))]"

lemma willing_outcome:
  assumes "willing C m E H" and "pw_lock w = Unlocked"
  shows "\<exists>r w'. call_outcome A E H call w = Some (r, w') \<and> serve A E H call w = Some (r, w')
    \<and> pw_lock w' = Unlocked \<and> pool_steps (pw_pool w) (pw_pool w') \<and> grows (pw_pool w) (pw_pool w')"
proof -
  have "\<not> held_up E (pw_pool w)" using willingD(9) [OF assms(1)] by (simp add: held_up_def)
  with call_outcome_cases [OF assms(2), of A E H call] obtain r w'
    where "call_outcome A E H call w = Some (r, w')" "served w w'" "grows (pw_pool w) (pw_pool w')" by blast
  then show ?thesis by (auto simp: call_outcome_def served_def bind_eq_Some_conv split: if_splits)
qed

lemma creations_run:
  assumes "willing C m E H"
  shows "filled vms (pw_pool w) \<Longrightarrow> settled (pw_pool w) \<Longrightarrow> pw_lock w = Unlocked \<Longrightarrow>
    distinct (vms @ map bc_name cs) \<Longrightarrow> length vms + length cs \<le> pp_max (pw_pool w) \<Longrightarrow>
    length vms + length cs \<le> m \<Longrightarrow> length (pp_slots (pw_pool w)) \<le> m \<Longrightarrow>
    \<forall>c \<in> set cs. validate_boot_config c = Inr () \<Longrightarrow>
    \<exists>w'. daemon_events A E H (map (\<lambda>c. Call (Create_vm c)) cs @ evs) w = daemon_events A E H evs w'
      \<and> filled (vms @ map bc_name cs) (pw_pool w') \<and> settled (pw_pool w') \<and> pw_lock w' = Unlocked
      \<and> length (pp_slots (pw_pool w')) = max (length (pp_slots (pw_pool w))) (length vms + length cs)
      \<and> pool_steps (pw_pool w) (pw_pool w') \<and> grows (pw_pool w) (pw_pool w')"
proof (induction cs arbitrary: vms w)
  case Nil
  then show ?case by (intro exI [of _ w]) (auto simp: steps_refl filled_def)
next
  case (Cons c cs)
  obtain r w1 where c: "create_vm E H c w = Some (r, w1)" and f: "filled (vms @ [bc_name c]) (pw_pool w1)"
    and s: "settled (pw_pool w1)"
    and l: "length (pp_slots (pw_pool w1)) = max (length (pp_slots (pw_pool w))) (Suc (length vms))"
    using filled_create [OF assms Cons.prems(1,2), of c] Cons.prems(4-8) by auto
  obtain a w2 where "call_outcome A E H (Create_vm c) w = Some (a, w2)" "serve A E H (Create_vm c) w = Some (a, w2)"
    and w2: "pw_lock w2 = Unlocked" "pool_steps (pw_pool w) (pw_pool w2)" "grows (pw_pool w) (pw_pool w2)"
    using willing_outcome [OF assms Cons.prems(3)] by blast
  then have o: "call_outcome A E H (Create_vm c) w = Some (a, w1)" and eq: "w2 = w1"
    using c by (auto simp: serve_def create_vm_def answer_def)
  note w1 = w2 [unfolded eq]
  have mx: "pp_max (pw_pool w1) = pp_max (pw_pool w)" using w1(3) by (simp add: grows_def)
  obtain w' where w': "daemon_events A E H (map (\<lambda>c. Call (Create_vm c)) cs @ evs) w1 = daemon_events A E H evs w'"
    "filled ((vms @ [bc_name c]) @ map bc_name cs) (pw_pool w')" "settled (pw_pool w')" "pw_lock w' = Unlocked"
    "length (pp_slots (pw_pool w')) = max (length (pp_slots (pw_pool w1))) (Suc (length vms) + length cs)"
    "pool_steps (pw_pool w1) (pw_pool w')" "grows (pw_pool w1) (pw_pool w')"
    using Cons.IH [OF f s w1(1)] Cons.prems(4-8) l mx by auto
  show ?case
    using w' o l pool_steps_trans [OF w'(6) w1(2)] grows_trans [OF w1(3) w'(7)]
    by (intro exI [of _ w']) simp
qed

lemma empty_tick_hangs:
  assumes "willing C m E H" and "settled (pw_pool w)" and "serving (pw_pool w)"
    and "length (pp_slots (pw_pool w)) = Suc n" and "pp_min (pw_pool w) = n"
    and "pp_last_scale_down (pw_pool w) = None" and "ss_state (slot_st (pw_pool w) n) = Empty"
  shows "autoscale_round E turns w = None"
proof -
  let ?w = "lock_as Write_held E (await E w)"
  have p: "pw_pool ?w = pw_pool w"
    using willing_await [OF assms(1)] spawn_all_settled [OF assms(2)] by simp
  obtain w1 where "get_vm_slot_status E n ?w = (Inr (slot_st (pw_pool w) n), w1)"
    using get_status_still [of E ?w n] willing_still [OF assms(1,2)] p assms(3,4) by (auto simp: serving_def)
  then have "autoscale_tick E turns ?w = None"
    using assms(3-7) p by (intro scale_down_blocked [OF _ _ _ _ _ assms(7), of _ _ w1]) (auto simp: serving_def)
  then show ?thesis by (simp add: autoscale_round_def)
qed

lemma fill_and_free_runs:
  assumes "startup S c = Inr p" and "cli_pool_size c < max_pool_size c"
    and "willing C (Suc (cli_pool_size c)) E H"
    and "length cs = Suc (cli_pool_size c)" and "distinct (map bc_name cs)"
    and "\<forall>b \<in> set cs. validate_boot_config b = Inr ()"
  shows "\<exists>w. daemon_events A E H (fill_and_free cs @ evs) (await E (fresh_world p)) = daemon_events A E H evs w
    \<and> filled (map bc_name (butlast cs)) (pw_pool w) \<and> settled (pw_pool w)
    \<and> length (pp_slots (pw_pool w)) = Suc (cli_pool_size c)
    \<and> pool_steps p (pw_pool w) \<and> grows p (pw_pool w)"
proof -
  let ?n = "cli_pool_size c" and ?w = "await E (fresh_world p)"
  note sf = startup_fields [OF assms(1)]
  have len: "length (pp_slots p) = ?n" and mx: "pp_max p = max_pool_size c"
    using sf(3,4) by (simp_all add: pool_size_def sizes_are_def)
  have fresh: "slot_rt p i = initial_runtime i" if "i < ?n" for i
    using startup_runtimes [OF assms(1)] that len by simp
  have "filled [] p" "startable p" "all_alive p"
    using sf(2) fresh len
    by (auto simp: filled_def numbered_def serving_def startable_def slot_st_def initial_runtime_def
        initial_status_def should_spawn_def)
  then have w: "filled [] (pw_pool ?w)" "settled (pw_pool ?w)" "length (pp_slots (pw_pool ?w)) = ?n"
    using spawn_all_start [of p "Suc ?n" "[]"] willing_await [OF assms(3), of "fresh_world p"] len by simp_all
  have st: "pool_steps p (pw_pool ?w)" "grows p (pw_pool ?w)"
    using await_steps [of "fresh_world p" E] await_grows [of "fresh_world p" E] by simp_all
  obtain w1 where r1: "daemon_events A E H (map (\<lambda>c. Call (Create_vm c)) cs
        @ Call (Delete_vm (bc_name (last cs))) # evs) ?w
      = daemon_events A E H (Call (Delete_vm (bc_name (last cs))) # evs) w1"
    and f1: "filled (map bc_name cs) (pw_pool w1)" and s1: "settled (pw_pool w1)" "pw_lock w1 = Unlocked"
    and l1: "length (pp_slots (pw_pool w1)) = Suc ?n"
    and st1: "pool_steps (pw_pool ?w) (pw_pool w1)" "grows (pw_pool ?w) (pw_pool w1)"
    using creations_run [OF assms(3) w(1,2), of cs A "Call (Delete_vm (bc_name (last cs))) # evs"]
      st(2) mx assms(2,4-6) w(3) by (auto simp: frame_simps grows_def)
  have "cs \<noteq> []" using assms(4) by auto
  then have cs: "map bc_name cs = map bc_name (butlast cs) @ [bc_name (last cs)]"
    by (metis append_butlast_last_id list.simps(8,9) map_append)
  obtain w2 where d: "delete_vm E H (bc_name (last cs)) w1 = (Inr (), w2)"
    and w2: "filled (map bc_name (butlast cs)) (pw_pool w2)" "settled (pw_pool w2)"
      "length (pp_slots (pw_pool w2)) = Suc ?n"
    using filled_delete [OF assms(3), of "map bc_name (butlast cs)" "bc_name (last cs)" w1]
      f1 [unfolded cs] s1(1) l1 assms(4,5) [unfolded cs] by auto
  obtain a w3 where o: "call_outcome A E H (Delete_vm (bc_name (last cs))) w1 = Some (a, w3)"
    "serve A E H (Delete_vm (bc_name (last cs))) w1 = Some (a, w3)"
    "pool_steps (pw_pool w1) (pw_pool w3)" "grows (pw_pool w1) (pw_pool w3)"
    using willing_outcome [OF assms(3) s1(2)] by blast
  have "w3 = w2" using o(2) d by (auto simp: serve_def delete_vm_def answer_def)
  then have "daemon_events A E H (fill_and_free cs @ evs) ?w = daemon_events A E H evs w2"
    using r1 o(1) by (simp add: fill_and_free_def)
  moreover have "pool_steps p (pw_pool w2)" "grows p (pw_pool w2)"
    using st st1 o(3,4) \<open>w3 = w2\<close> by (blast intro: pool_steps_trans grows_trans)+
  ultimately show ?thesis using w2 by blast
qed

text \<open>
  C23: An elastic pool can hang the daemon.  Suppose the maximum pool size is above the
  minimum and, as in ordinary use, workers start their processes at once, every VM accepts
  what it is asked and no command line fails.  Let the requests create one VM more than the
  daemon started slots and then delete the last one.  All of them are served: the pool has
  grown by one slot, every slot but the new one is occupied by its VM, and the new one is
  empty.  The autoscaler's next round then never returns, whatever the workers do and however
  long they run, so nothing more is served and the daemon never comes to its shutdown.
\<close>

theorem elastic_daemon_hangs:
  assumes "parse_cli (ri_raw ri) = Inr c" and "startup (ri_start ri) c = Inr p"
    and "bound_listener ri c = Inr ()" and "cli_pool_size c < max_pool_size c"
    and "willing C (Suc (cli_pool_size c)) E H"
    and "length cs = Suc (cli_pool_size c)" and "distinct (map bc_name cs)"
    and "\<forall>b \<in> set cs. validate_boot_config b = Inr ()"
    and "ri_events ri = map (\<lambda>b. Call (Create_vm b)) cs @ Call (Delete_vm (bc_name (last cs))) # Tick turns # evs"
  shows "(\<exists>w. daemon_events A E H (map (\<lambda>b. Call (Create_vm b)) cs @ [Call (Delete_vm (bc_name (last cs)))])
        (await E (fresh_world p)) = Some w
      \<and> pool_size (pw_pool w) = Suc (cli_pool_size c)
      \<and> (\<forall>i < cli_pool_size c. ss_state (slot_st (pw_pool w) i) = Occupied
           \<and> ss_name (slot_st (pw_pool w) i) = Some (bc_name (cs ! i)))
      \<and> ss_state (slot_st (pw_pool w) (cli_pool_size c)) = Empty)
    \<and> daemon_main A E H ri = None"
proof -
  let ?n = "cli_pool_size c"
  note run = fill_and_free_runs [OF assms(2,4-8)]
  obtain w where w: "daemon_events A E H (fill_and_free cs) (await E (fresh_world p)) = Some w"
    and f: "filled (map bc_name (butlast cs)) (pw_pool w)" and l: "length (pp_slots (pw_pool w)) = Suc ?n"
    using run [of A "[]"] by auto
  have slots: "ss_state (slot_st (pw_pool w) i) = Occupied \<and> ss_name (slot_st (pw_pool w) i) = Some (bc_name (cs ! i))"
    if "i < ?n" for i
    using filled_slot [OF f, of i] that l assms(6) by (simp add: nth_butlast)
  have e: "ss_state (slot_st (pw_pool w) ?n) = Empty" using filled_slot [OF f, of ?n] l assms(6) by simp
  obtain v where v: "daemon_events A E H (fill_and_free cs @ Tick turns # evs) (await E (fresh_world p))
      = daemon_events A E H (Tick turns # evs) v"
    and fv: "filled (map bc_name (butlast cs)) (pw_pool v)" "settled (pw_pool v)"
      "length (pp_slots (pw_pool v)) = Suc ?n" "pool_steps p (pw_pool v)" "grows p (pw_pool v)"
    using run [of A "Tick turns # evs"] by blast
  have "ss_state (slot_st (pw_pool v) ?n) = Empty" using filled_slot [OF fv(1), of ?n] fv(3) assms(6) by simp
  moreover have "pp_min (pw_pool v) = ?n" "pp_last_scale_down (pw_pool v) = None"
    using fv(5) startup_fields(4) [OF assms(2)] startup_unscaled [OF assms(2)]
    by (simp_all add: grows_def sizes_are_def)
  ultimately have "autoscale_round E turns v = None"
    using empty_tick_hangs [OF assms(5) fv(2) duty.J_steps [OF fv(4) startup_fields(2) [OF assms(2)]] fv(3)] by blast
  with v assms(1-3,9) have "daemon_main A E H ri = None"
    by (simp add: daemon_main_def fill_and_free_def Let_def)
  with w l slots e show ?thesis by (simp add: fill_and_free_def pool_size_def)
qed

text \<open>A daemon with one slot that may grow to two.\<close>

definition elastic_cli :: raw_cli where
  "elastic_cli = demo_raw_cli\<lparr>rc_pool_size := Some (show_nat 1), rc_max_pool_size := Some (show_nat 2)\<rparr>"

definition elastic_run :: run_inputs where
  "elastic_run = demo_run\<lparr>ri_raw := elastic_cli,
     ri_events := [Call (Create_vm demo_config), Call (Create_vm (demo_config\<lparr>bc_name := ''vm-c''\<rparr>)),
       Call (Delete_vm ''vm-c''), Tick [demo_turn], Call Health]\<rparr>"

lemma spawning_willing: "willing demo_calm m (spawning_env m) demo_host"
proof -
  have "(spawning_env m)\<lparr>pe_actions := (\<lambda>_. [])\<rparr> = demo_env"
    by (simp add: spawning_env_def demo_env_def)
  then show ?thesis
    using demo_calm_setting demo_accepts demo_to_vec
    by (simp add: willing_def) (simp add: spawning_env_def demo_calm_def demo_cmd_os_def demo_tap_ok)
qed

theorem elastic_daemon_hangs_witness:
  "daemon_main demo_api (spawning_env 2) demo_host elastic_run = None"
proof -
  have "parse_pool_size (show_nat n) = Inr n" if "1 \<le> n" "n < 2 ^ 64" for n
    using that parse_show_nat [of n "2 ^ 64 - 1"] by (simp add: parse_pool_size_def parse_usize_def)
  then have "parse_pool_size (show_nat 1) = Inr 1" "parse_pool_size (show_nat 2) = Inr 2" by simp_all
  then obtain c p where c: "parse_cli (ri_raw elastic_run) = Inr c" "startup (ri_start elastic_run) c = Inr p"
    and sz: "cli_pool_size c = 1" "max_pool_size c = 2"
    by (simp add: elastic_run_def elastic_cli_def demo_run_def parse_cli_def demo_raw_cli_def value_or_def
        startup_def Let_def demo_start_env_def resolve_program_and_args_def parse_env_args_def
        pool_spawn_def max_pool_size_def)
  have b: "bound_listener elastic_run c = Inr ()"
    by (simp add: bound_listener_def elastic_run_def demo_run_def bind_listener_ok)
  have "trim ''vm-c'' = ''vm-c''" by (simp add: trim_plain ascii_texts)
  then have v: "validate_boot_config (demo_config\<lparr>bc_name := ''vm-c''\<rparr>) = Inr ()"
    by (intro demo_config_named) simp
  show ?thesis
    using elastic_daemon_hangs [OF c b, of demo_calm "spawning_env 2" demo_host
        "[demo_config, demo_config\<lparr>bc_name := ''vm-c''\<rparr>]" "[demo_turn]" "[Call Health]" demo_api]
      sz v demo_config_valid spawning_willing [of 2]
    by (simp add: elastic_run_def demo_config_def numeral_2_eq_2 del: One_nat_def)
qed

end
