(* ===== verification/FakePool.thy ===== *)
theory FakePool
  imports Service ProcText
begin

text \<open>
  The \<open>FakePool\<close> of the tests in \<open>src/service.rs\<close>, a second implementation of the facade,
  and the five tests of that file as evaluations of the modelled service on it.
\<close>

record fake_pool =
  fk_slot_by_name :: "slot_status option"
  fk_passthrough_response :: "proxy_response option"
  fk_scripted_request_responses :: "proxy_response list"
  fk_request_paths :: "string list"
  fk_released_slots :: "nat list"

fun method_name :: "http_method \<Rightarrow> string" where
  "method_name Method_GET = ''GET''"
| "method_name Method_PUT = ''PUT''"
| "method_name Method_POST = ''POST''"
| "method_name Method_DELETE = ''DELETE''"

definition vacant_status :: "nat \<Rightarrow> u64 \<Rightarrow> slot_status" where
  "vacant_status i generation =
     \<lparr>ss_slot = i, ss_generation = generation, ss_state = Empty, ss_name = None, ss_mac = None,
      ss_tap = None, ss_pid = None, ss_started_at = None, ss_last_error = None\<rparr>"

definition fake_release ::
  "nat \<Rightarrow> fake_pool \<Rightarrow> (pool_error + slot_status) \<times> fake_pool" where
  "fake_release i f =
     (Inr (vacant_status i 2), f\<lparr>fk_released_slots := fk_released_slots f @ [i]\<rparr>)"

definition fake_request_with_content_type ::
  "nat \<Rightarrow> http_method \<Rightarrow> string \<Rightarrow> string \<Rightarrow> string option \<Rightarrow> fake_pool
     \<Rightarrow> (pool_error + proxy_response) \<times> fake_pool" where
  "fake_request_with_content_type i method path body ct f =
     (let f1 = f\<lparr>fk_request_paths := fk_request_paths f @ [method_name method @ '' '' @ path]\<rparr> in
      case fk_scripted_request_responses f1 of
        [] \<Rightarrow> (Inl (Backend ''missing scripted response''), f1)
      | r # rs \<Rightarrow> (Inr r, f1\<lparr>fk_scripted_request_responses := rs\<rparr>))"

definition fake_facade :: "fake_pool pool_facade" where
  "fake_facade =
     \<lparr>pf_pool_size = (\<lambda>f. 1),
      pf_pool_usage_counts = (\<lambda>f. (Inr (1, 0), f)),
      pf_list_runtimes = (\<lambda>f. (Inr [], f)),
      pf_find_runtime_by_name = (\<lambda>name f. (Inr None, f)),
      pf_allocate_slot = (\<lambda>name mac f. (Inl (Backend ''unused in test''), f)),
      pf_find_slot_by_name = (\<lambda>name f.
        (Inr (case fk_slot_by_name f of
                None \<Rightarrow> None
              | Some st \<Rightarrow> if ss_name st = Some name then Some st else None), f)),
      pf_mark_slot_booted = (\<lambda>i at f. (Inl (Backend ''unused in test''), f)),
      pf_release_slot = fake_release,
      pf_reset_slot = (\<lambda>i f. (Inr (vacant_status 0 0), f)),
      pf_get_slot_status = (\<lambda>i f. (Inl (Backend ''unused in test''), f)),
      pf_slot_socket_path = (\<lambda>i f. ''/tmp/unused.sock''),
      pf_request = (\<lambda>i method path body f.
        (ok_or (Backend ''missing passthrough response'') (fk_passthrough_response f), f)),
      pf_request_with_content_type = fake_request_with_content_type\<rparr>"

text \<open>The tests use the lock alone, uncontended; serde prints an empty object.\<close>

definition fake_env :: "fake_pool service_env" where
  "fake_env =
     \<lparr>se_read_lock = id, se_write_lock = id, se_unlock = id,
      se_connect = (\<lambda>path f. (False, f)), se_clock = (\<lambda>f. 0), se_sleep = (\<lambda>ms f. f),
      se_now = (\<lambda>f. ''''), se_sha256 = (\<lambda>s. replicate 32 0), se_to_vec = (\<lambda>j. Inr ''{}'')\<rparr>"

definition occupied_status :: "string \<Rightarrow> nat \<Rightarrow> slot_status" where
  "occupied_status name i =
     \<lparr>ss_slot = i, ss_generation = 1, ss_state = Occupied, ss_name = Some name,
      ss_mac = Some ''02:aa:bb:cc:dd:ee'', ss_tap = Some (''tap'' @ show_nat i),
      ss_pid = Some 1234, ss_started_at = Some ''2026-05-30T00:00:00Z'', ss_last_error = None\<rparr>"

definition fake :: "slot_status option \<Rightarrow> proxy_response option \<Rightarrow> proxy_response list \<Rightarrow> fake_pool" where
  "fake by_name passthrough scripted =
     \<lparr>fk_slot_by_name = by_name, fk_passthrough_response = passthrough,
      fk_scripted_request_responses = scripted, fk_request_paths = [], fk_released_slots = []\<rparr>"

definition response :: "u16 \<Rightarrow> string option \<Rightarrow> string \<Rightarrow> proxy_response" where
  "response status content_type body =
     \<lparr>pr_status = status, pr_content_type = content_type, pr_body = body\<rparr>"

text \<open>The body \<open>{"ok":true}\<close>.\<close>

definition ok_true :: string where
  "ok_true = ''{'' @ [chr 34] @ ''ok'' @ [chr 34] @ '':true}''"

lemmas fake_defs =
  fake_facade_def fake_env_def occupied_status_def fake_def response_def fake_release_def
  fake_request_with_content_type_def vacant_status_def running_slot_def

lemma test_delete_non_running:
  "fst (delete_vm_with_pool fake_facade fake_env ''vm-a''
          (fake (Some ((occupied_status ''vm-a'' 3)\<lparr>ss_state := Booting\<rparr>)) None []))
     = Inl (Conflict (''VM '' @ quoted ''vm-a'' @ '' is not running''))"
  by (simp add: delete_vm_with_pool_def fake_defs)

lemma test_proxy_action_unknown:
  "fst (proxy_action_by_name_with_body_for_pool fake_facade fake_env ''missing'' ''/api/v1/vm.pause''
          (JObj []) (fake None None []))
     = Inl (NotFound (''VM '' @ quoted ''missing'' @ '' not found''))"
  by (simp add: proxy_action_by_name_with_body_for_pool_def fake_defs)

lemma test_passthrough:
  "fst (proxy_passthrough_by_name_for_pool fake_facade fake_env ''vm-a'' ''/api/v1/vm.info''
          (fake (Some (occupied_status ''vm-a'' 5))
             (Some (response 200 (Some ''application/json'') ok_true)) []))
     = Inr (response 200 (Some ''application/json'') ok_true)"
  by (simp add: proxy_passthrough_by_name_for_pool_def fake_defs)

lemma test_delete_success:
  "delete_vm_with_pool fake_facade fake_env ''vm-a''
      (fake (Some (occupied_status ''vm-a'' 7)) None [response 200 None [], response 200 None []])
    = (r, f) \<Longrightarrow>
   r = Inr () \<and> fk_request_paths f = [''PUT /api/v1/vm.shutdown'', ''PUT /api/v1/vm.delete'']
     \<and> fk_released_slots f = [7]"
  by (auto simp: delete_vm_with_pool_def delete_stopped_def fake_defs Let_def)

lemma format_boom:
  "format_backend_error (response 500 (Some ''text/plain'') ''boom'') = ''backend returned status 500: boom''"
  by (simp add: format_backend_error_def response_def ascii_texts trim_plain)

lemma test_proxy_action_error:
  "fst (proxy_action_by_name_with_body_for_pool fake_facade fake_env ''vm-a'' ''/api/v1/vm.pause''
          (JObj []) (fake (Some (occupied_status ''vm-a'' 2)) None
             [response 500 (Some ''text/plain'') ''boom'']))
     = Inl (ApiBackend ''backend returned status 500: boom'')"
proof -
  have "pr_status (response 500 ct b) = 500" for ct b by (simp add: response_def)
  then show ?thesis
    by (simp add: proxy_action_by_name_with_body_for_pool_def format_boom fake_facade_def fake_env_def
        occupied_status_def fake_def fake_request_with_content_type_def running_slot_def Let_def)
qed

text \<open>
  The repository's service tests, answer by answer.  On the fake pool, deleting a booting VM is a
  conflict, acting on an unknown VM is not found, an information call returns the VM's own
  response, a successful delete sends the shutdown and then the delete call and releases
  the VM's slot, and an action the VM answers with status 500 is a backend error that
  quotes the status and the body.
\<close>

theorem service_tests:
  "fst (delete_vm_with_pool fake_facade fake_env ''vm-a''
          (fake (Some ((occupied_status ''vm-a'' 3)\<lparr>ss_state := Booting\<rparr>)) None []))
     = Inl (Conflict (''VM '' @ quoted ''vm-a'' @ '' is not running''))
   \<and> fst (proxy_action_by_name_with_body_for_pool fake_facade fake_env ''missing'' ''/api/v1/vm.pause''
          (JObj []) (fake None None []))
     = Inl (NotFound (''VM '' @ quoted ''missing'' @ '' not found''))
   \<and> fst (proxy_passthrough_by_name_for_pool fake_facade fake_env ''vm-a'' ''/api/v1/vm.info''
          (fake (Some (occupied_status ''vm-a'' 5))
             (Some (response 200 (Some ''application/json'') ok_true)) []))
     = Inr (response 200 (Some ''application/json'') ok_true)
   \<and> (case delete_vm_with_pool fake_facade fake_env ''vm-a''
            (fake (Some (occupied_status ''vm-a'' 7)) None [response 200 None [], response 200 None []])
      of (r, f) \<Rightarrow> r = Inr () \<and> fk_released_slots f = [7]
           \<and> fk_request_paths f = [''PUT /api/v1/vm.shutdown'', ''PUT /api/v1/vm.delete''])
   \<and> fst (proxy_action_by_name_with_body_for_pool fake_facade fake_env ''vm-a'' ''/api/v1/vm.pause''
          (JObj []) (fake (Some (occupied_status ''vm-a'' 2)) None
             [response 500 (Some ''text/plain'') ''boom'']))
     = Inl (ApiBackend ''backend returned status 500: boom'')"
  using test_delete_non_running test_proxy_action_unknown test_passthrough test_proxy_action_error
    test_delete_success by (auto split: prod.split)


end
