(* ===== verification/RepoTests.thy ===== *)
theory RepoTests
  imports FakePool VmMetrics HostMetrics
begin

text \<open>
  The repository's unit tests, the \<open>tests\<close> modules of \<open>src/vm_validation.rs\<close>,
  \<open>src/vm_payload.rs\<close>, \<open>src/host_metrics.rs\<close>, \<open>src/vm_metrics.rs\<close> and \<open>src/service.rs\<close>.
  Each test function is a Boolean under its own name, the conjunction of its assertions on the
  modelled functions; a panic is False.
\<close>

section \<open>vm\_validation.rs\<close>

definition validation_config :: boot_config where
  "validation_config =
     \<lparr>bc_name = ''vm-a'', bc_cpus = 2, bc_memory_mb = 512, bc_boot_mode = ''linux'',
      bc_disks = [''/var/lib/vms/disk.qcow2''], bc_kernel_path = Some ''/var/lib/vms/vmlinux'',
      bc_initrd_path = Some ''/var/lib/vms/initrd'', bc_cmdline = Some ''console=ttyS0'',
      bc_firmware_path = None, bc_snapshot_path = None\<rparr>"

definition accepts_valid_linux_config :: bool where
  "accepts_valid_linux_config = is_ok (validate_boot_config validation_config)"

definition rejects_empty_name :: bool where
  "rejects_empty_name =
     (case validate_boot_config (validation_config\<lparr>bc_name := ''  ''\<rparr>) of
        Inl (Validation field err) \<Rightarrow> field = Some ''name'' \<and> err = ''name is required''
      | _ \<Rightarrow> False)"

definition rejects_linux_without_kernel_when_not_restoring :: bool where
  "rejects_linux_without_kernel_when_not_restoring =
     (case validate_boot_config (validation_config\<lparr>bc_kernel_path := None\<rparr>) of
        Inl (Validation field err) \<Rightarrow>
          field = Some ''kernelPath'' \<and> err = ''kernelPath is required when bootMode=linux''
      | _ \<Rightarrow> False)"

definition rejects_relative_disk_path :: bool where
  "rejects_relative_disk_path =
     (case validate_boot_config (validation_config\<lparr>bc_disks := [''relative/disk.raw'']\<rparr>) of
        Inl (Validation field err) \<Rightarrow> field = Some ''disks''
      | _ \<Rightarrow> False)"

definition allows_restore_without_linux_or_uefi_specific_boot_files :: bool where
  "allows_restore_without_linux_or_uefi_specific_boot_files =
     is_ok (validate_boot_config
       (validation_config\<lparr>bc_kernel_path := None,
          bc_snapshot_path := Some ''/var/lib/vms/snapshots/vm-a.snap''\<rparr>))"

section \<open>vm\_payload.rs\<close>

definition payload_config :: boot_config where
  "payload_config =
     \<lparr>bc_name = ''vm-b'', bc_cpus = 4, bc_memory_mb = 1024, bc_boot_mode = ''linux'',
      bc_disks = [''/var/lib/vms/os.qcow2'', ''/var/lib/vms/data.raw'', ''/var/lib/vms/misc.img''],
      bc_kernel_path = Some ''/var/lib/vms/vmlinux'', bc_initrd_path = Some ''/var/lib/vms/initrd'',
      bc_cmdline = Some ''console=ttyS0'', bc_firmware_path = None, bc_snapshot_path = None\<rparr>"

definition reserved_slot :: slot_status where
  "reserved_slot =
     \<lparr>ss_slot = 1, ss_generation = 10, ss_state = Booting, ss_name = Some ''vm-b'',
      ss_mac = Some ''02:aa:bb:cc:dd:ee'', ss_tap = Some ''tap1'', ss_pid = Some 42,
      ss_started_at = None, ss_last_error = None\<rparr>"

text \<open>\<open>value[key]\<close> and \<open>value[index]\<close> are \<open>null\<close> when there is no such entry.\<close>

definition at_key :: "json \<Rightarrow> string \<Rightarrow> json" where
  "at_key j k = (case jget k j of Some v \<Rightarrow> v | None \<Rightarrow> JNull)"

definition at_index :: "json \<Rightarrow> nat \<Rightarrow> json" where
  "at_index j i = (case jindex i j of Some v \<Rightarrow> v | None \<Rightarrow> JNull)"

definition linux_payload_contains_expected_fields_and_disk_types :: bool where
  "linux_payload_contains_expected_fields_and_disk_types =
     (let payload = create_vm_request_body payload_config reserved_slot;
          disks = at_key payload ''disks'' in
      at_key (at_key payload ''cpus'') ''boot_vcpus'' = JNum 4
      \<and> at_key (at_key payload ''memory'') ''size'' = JNum (unat (push_bit 20 (1024 :: u64)))
      \<and> at_key (at_index (at_key payload ''net'') 0) ''tap'' = JStr ''tap1''
      \<and> at_key (at_index (at_key payload ''net'') 0) ''mac'' = JStr ''02:aa:bb:cc:dd:ee''
      \<and> at_key (at_key payload ''payload'') ''kernel'' = JStr ''/var/lib/vms/vmlinux''
      \<and> (\<exists>ds. disks = JArr ds)
      \<and> at_key (at_index disks 0) ''image_type'' = JStr ''Qcow2''
      \<and> at_key (at_index disks 1) ''image_type'' = JStr ''Raw''
      \<and> jget ''image_type'' (at_index disks 2) = None)"

definition restore_payload_contains_file_url :: bool where
  "restore_payload_contains_file_url =
     (let config = payload_config\<lparr>bc_snapshot_path := Some ''/var/lib/vms/snaps/vm-b.snap''\<rparr> in
      at_key (create_restore_request_body config) ''source_url''
        = JStr ''file:///var/lib/vms/snaps/vm-b.snap'')"

definition backend_error_formats_status_and_trimmed_body :: bool where
  "backend_error_formats_status_and_trimmed_body =
     (format_backend_error
        \<lparr>pr_status = 500, pr_content_type = Some ''text/plain'', pr_body = ''  failure details'' @ [chr 10]\<rparr>
      = ''backend returned status 500: failure details'')"

definition backend_error_formats_status_only_for_empty_body :: bool where
  "backend_error_formats_status_only_for_empty_body =
     (format_backend_error \<lparr>pr_status = 404, pr_content_type = None, pr_body = []\<rparr>
      = ''backend returned status 404'')"

section \<open>host\_metrics.rs and vm\_metrics.rs\<close>

definition parse_meminfo_extracts_numeric_values :: bool where
  "parse_meminfo_extracts_numeric_values =
     (case parse_meminfo_kib
        (''MemTotal:       16384 kB'' @ [chr 10] @ ''MemAvailable:   8192 kB'' @ [chr 10]
          @ ''SwapTotal:      4096 kB'' @ [chr 10]) of
        Inl err \<Rightarrow> False
      | Inr parsed \<Rightarrow>
          parsed ''MemTotal'' = Some 16384 \<and> parsed ''MemAvailable'' = Some 8192
          \<and> parsed ''SwapTotal'' = Some 4096)"

definition parse_proc_stat_handles_name_with_spaces :: bool where
  "parse_proc_stat_handles_name_with_spaces =
     (case parse_proc_stat ''42 (demo vm) S 1 2 3 4 5 6 7 8 9 10 120 80 13 14 15 16 8 18 19'' of
        Inl err \<Rightarrow> False
      | Inr parsed \<Rightarrow>
          ps_state parsed = ''S'' \<and> ps_utime parsed = 120 \<and> ps_stime parsed = 80
          \<and> ps_num_threads parsed = 8)"

section \<open>service.rs\<close>

definition delete_vm_returns_conflict_for_non_running_vm :: bool where
  "delete_vm_returns_conflict_for_non_running_vm =
     (let pool = fake (Some ((occupied_status ''vm-a'' 3)\<lparr>ss_state := Booting\<rparr>)) None [] in
      case fst (delete_vm_with_pool fake_facade fake_env ''vm-a'' pool) of
        Inl (Conflict message) \<Rightarrow> contains message ''is not running''
      | _ \<Rightarrow> False)"

definition proxy_action_returns_not_found_for_unknown_vm :: bool where
  "proxy_action_returns_not_found_for_unknown_vm =
     (let pool = fake None None [] in
      case fst (proxy_action_by_name_with_body_for_pool fake_facade fake_env ''missing''
             ''/api/v1/vm.pause'' (JObj []) pool) of
        Inl (NotFound message) \<Rightarrow> contains message ''not found''
      | _ \<Rightarrow> False)"

definition proxy_passthrough_returns_backend_response_for_running_vm :: bool where
  "proxy_passthrough_returns_backend_response_for_running_vm =
     (let pool = fake (Some (occupied_status ''vm-a'' 5))
                   (Some (response 200 (Some ''application/json'') ok_true)) [] in
      case fst (proxy_passthrough_by_name_for_pool fake_facade fake_env ''vm-a'' ''/api/v1/vm.info'' pool) of
        Inl err \<Rightarrow> False
      | Inr r \<Rightarrow> pr_status r = 200 \<and> pr_content_type r = Some ''application/json'' \<and> pr_body r = ok_true)"

definition delete_vm_success_calls_shutdown_then_delete_then_release :: bool where
  "delete_vm_success_calls_shutdown_then_delete_then_release =
     (let pool = fake (Some (occupied_status ''vm-a'' 7)) None [response 200 None [], response 200 None []] in
      case delete_vm_with_pool fake_facade fake_env ''vm-a'' pool of
        (r, after) \<Rightarrow>
          is_ok r
          \<and> fk_request_paths after = [''PUT /api/v1/vm.shutdown'', ''PUT /api/v1/vm.delete'']
          \<and> fk_released_slots after = [7])"

definition proxy_action_returns_backend_error_on_unsuccessful_status :: bool where
  "proxy_action_returns_backend_error_on_unsuccessful_status =
     (let pool = fake (Some (occupied_status ''vm-a'' 2)) None [response 500 (Some ''text/plain'') ''boom''] in
      case fst (proxy_action_by_name_with_body_for_pool fake_facade fake_env ''vm-a''
             ''/api/v1/vm.pause'' (JObj []) pool) of
        Inl (ApiBackend message) \<Rightarrow> contains message ''status 500'' \<and> contains message ''boom''
      | _ \<Rightarrow> False)"

section \<open>They pass\<close>

lemma plain_texts: "plain ''vm-a''" "plain ''linux''" "plain ''boom''"
  by (simp_all add: plain_def plain_char_def byte_def)

lemma linux_text: "trim ''linux'' = ''linux''" "to_ascii_lowercase ''linux'' = ''linux''"
  "trim ''vm-a'' = ''vm-a''"
  by (simp_all add: trim_plain plain_texts to_ascii_lowercase_def to_ascii_lower_def byte_def)

lemma blank_text: "trim ''  '' = []"
  by (simp add: trim_def trim_start.simps [of "''  ''"] trim_start.simps [of "'' ''"] trim_start.simps [of "[]"]
      trim_end.simps [of "[]"] ws_head_space ws_last_def white_space_def ends_with_def)

lemma line_feed: "chr 10 = CHR 0x0A"
  by (simp add: chr_def char_of_def bit_0)

lemma failure_text: "trim (''  failure details'' @ [CHR 0x0A]) = ''failure details''"
proof -
  have l: "ws_last (''failure details'' @ [CHR 0x0A]) = 1"
    by (simp add: ws_last_def white_space_def ends_with_def line_feed [symmetric])
  have d: "trim_end ''failure details'' = ''failure details''"
    by (subst trim_end.simps) (simp add: ws_last_visible plain_char_def byte_def)
  have "trim_end (''failure details'' @ [CHR 0x0A]) = ''failure details''"
    using d by (subst trim_end.simps) (simp add: l [simplified])
  then show ?thesis
    by (simp add: trim_def trim_start.simps [of "CHR '' '' # _"] trim_start.simps [of "CHR ''f'' # _"] ws_head_space
        ws_head_plain plain_char_def byte_def)
qed

lemma memory_small: "\<not> max_memory_mb < 512"
  by (simp add: memory_too_large_iff)

lemmas validation_defs =
  validate_boot_config_def validate_boot_files_def validation_config_def config_paths_def invalid_def
  path_is_absolute_def starts_with_def Let_def linux_text blank_text memory_small

lemma validation_tests:
  "accepts_valid_linux_config" "rejects_empty_name" "rejects_linux_without_kernel_when_not_restoring"
  "rejects_relative_disk_path" "allows_restore_without_linux_or_uefi_specific_boot_files"
  by (simp_all add: validation_defs accepts_valid_linux_config_def rejects_empty_name_def
      rejects_linux_without_kernel_when_not_restoring_def rejects_relative_disk_path_def
      allows_restore_without_linux_or_uefi_specific_boot_files_def)

lemma disk_types:
  "disk_json ''/var/lib/vms/os.qcow2'' = JObj [(''path'', JStr ''/var/lib/vms/os.qcow2''), (''image_type'', JStr ''Qcow2'')]"
  "disk_json ''/var/lib/vms/data.raw'' = JObj [(''path'', JStr ''/var/lib/vms/data.raw''), (''image_type'', JStr ''Raw'')]"
  "disk_json ''/var/lib/vms/misc.img'' = JObj [(''path'', JStr ''/var/lib/vms/misc.img'')]"
  by code_simp+

lemma payload_tests:
  "linux_payload_contains_expected_fields_and_disk_types" "restore_payload_contains_file_url"
  by (simp_all add: linux_payload_contains_expected_fields_and_disk_types_def
      restore_payload_contains_file_url_def create_vm_request_body_def create_restore_request_body_def
      boot_payload_def payload_config_def reserved_slot_def at_key_def at_index_def linux_text
      disk_types Let_def)

lemma backend_error_tests:
  "backend_error_formats_status_and_trimmed_body" "backend_error_formats_status_only_for_empty_body"
  using failure_text
  by (simp_all add: ascii_texts line_feed backend_error_formats_status_and_trimmed_body_def
      backend_error_formats_status_only_for_empty_body_def format_backend_error_def)

lemma meminfo_texts: "show_nat 16384 = ''16384''" "show_nat 8192 = ''8192''" "show_nat 4096 = ''4096''"
  by (simp_all add: ascii_texts)

definition meminfo_pad :: "string \<Rightarrow> string" where
  "meminfo_pad k =
     (if k = ''MemTotal'' then ''       '' else if k = ''MemAvailable'' then ''   '' else ''      '')"

lemma meminfo_test: "parse_meminfo_extracts_numeric_values"
proof -
  let ?es = "[(''MemTotal'', 16384), (''MemAvailable'', 8192), (''SwapTotal'', 4096)]"
  have "list_all (\<lambda>e. meminfo_key meminfo_pad (fst e)) ?es"
    by (simp add: meminfo_key_def meminfo_pad_def gap_def blank_def byte_space plain_def plain_char_def byte_def)
  from parse_meminfo_lines [OF this, of "\<lambda>_. True"] show ?thesis
    by (simp add: parse_meminfo_extracts_numeric_values_def text_of_def meminfo_line_def meminfo_words_def
        meminfo_pad_def spread_def meminfo_texts)
qed

lemma proc_stat_test: "parse_proc_stat_handles_name_with_spaces"
proof -
  let ?ws = "[''S'', ''1'', ''2'', ''3'', ''4'', ''5'', ''6'', ''7'', ''8'', ''9'', ''10'', ''120'', ''80'',
    ''13'', ''14'', ''15'', ''16'', ''8'', ''18'', ''19'']"
  have ws: "split_whitespace (spaced ?ws) = ?ws"
    by (rule split_whitespace_spaced) (simp add: plain_def plain_char_def byte_def)
  have nums: "parse_u64_field ''120'' f = Inr 120" "parse_u64_field ''80'' f = Inr 80"
    "parse_u32_field ''8'' f = Inr 8" for f
    by (simp_all add: parse_u64_field_def parse_u32_field_def parse_u64_def parse_u32_def parse_uint_def
        digit_val_def byte_def)
  have "rfind (CHR '')'') ''42 (demo vm) S 1 2 3 4 5 6 7 8 9 10 120 80 13 14 15 16 8 18 19'' = Some 11"
    by (simp add: rfind_def)
  moreover have "get_from 12 ''42 (demo vm) S 1 2 3 4 5 6 7 8 9 10 120 80 13 14 15 16 8 18 19'' = Some (spaced ?ws)"
    by (simp add: get_from_def spaced_def cont_byte_def byte_def)
  ultimately show ?thesis
    using ws by (simp add: parse_proc_stat_handles_name_with_spaces_def parse_proc_stat_def nums
        first_char_plain plain_def plain_char_def byte_def Let_def)
qed

lemma contains_append: "contains (p @ q) q"
  by (induction p) (cases q; simp add: starts_with_def)+

lemma fake_service_tests:
  "delete_vm_returns_conflict_for_non_running_vm" "proxy_action_returns_not_found_for_unknown_vm"
  "proxy_passthrough_returns_backend_response_for_running_vm"
  "delete_vm_success_calls_shutdown_then_delete_then_release"
proof -
  have "contains (''VM '' @ quoted ''vm-a'' @ '' is not running'') ''is not running''"
    using contains_append [of "''VM '' @ quoted ''vm-a'' @ '' ''" "''is not running''"] by simp
  then show "delete_vm_returns_conflict_for_non_running_vm"
    by (simp add: delete_vm_returns_conflict_for_non_running_vm_def test_delete_non_running [simplified])
  have "contains (''VM '' @ quoted ''missing'' @ '' not found'') ''not found''"
    using contains_append [of "''VM '' @ quoted ''missing'' @ '' ''" "''not found''"] by simp
  then show "proxy_action_returns_not_found_for_unknown_vm"
    by (simp add: proxy_action_returns_not_found_for_unknown_vm_def test_proxy_action_unknown [simplified])
  show "proxy_passthrough_returns_backend_response_for_running_vm"
    by (simp add: proxy_passthrough_returns_backend_response_for_running_vm_def
        proxy_passthrough_by_name_for_pool_def fake_defs)
  show "delete_vm_success_calls_shutdown_then_delete_then_release"
    using test_delete_success
    by (auto simp: delete_vm_success_calls_shutdown_then_delete_then_release_def split: prod.split)
qed

lemma boom_test: "proxy_action_returns_backend_error_on_unsuccessful_status"
proof -
  have "contains ''backend returned status 500: boom'' ''status 500''"
    "contains ''backend returned status 500: boom'' ''boom''"
    by (simp_all add: starts_with_def)
  then show ?thesis
    by (simp add: proxy_action_returns_backend_error_on_unsuccessful_status_def test_proxy_action_error [simplified])
qed

text \<open>
  The repository's tests.  Every unit test of the repository passes on the model: which
  configurations are accepted and which field a refusal names, the fields of the create and
  restore requests, the text of a backend error, the two \<open>/proc\<close> readers on their sample
  texts, and on the fake pool the conflict, not-found, pass-through and backend-error answers
  and the order shutdown, delete, release of a deletion.
\<close>

theorem repository_tests_pass:
  "accepts_valid_linux_config \<and> rejects_empty_name \<and> rejects_linux_without_kernel_when_not_restoring
   \<and> rejects_relative_disk_path \<and> allows_restore_without_linux_or_uefi_specific_boot_files
   \<and> linux_payload_contains_expected_fields_and_disk_types \<and> restore_payload_contains_file_url
   \<and> backend_error_formats_status_and_trimmed_body \<and> backend_error_formats_status_only_for_empty_body
   \<and> parse_meminfo_extracts_numeric_values \<and> parse_proc_stat_handles_name_with_spaces
   \<and> delete_vm_returns_conflict_for_non_running_vm \<and> proxy_action_returns_not_found_for_unknown_vm
   \<and> proxy_passthrough_returns_backend_response_for_running_vm
   \<and> delete_vm_success_calls_shutdown_then_delete_then_release
   \<and> proxy_action_returns_backend_error_on_unsuccessful_status"
  by (intro conjI validation_tests payload_tests backend_error_tests meminfo_test proc_stat_test
      fake_service_tests boom_test)

end
