(* ===== verification/SlotAnswers.thy ===== *)
theory SlotAnswers
  imports SlotProps
begin

text \<open>
  What a worker of \<open>src/slot_supervisor.rs\<close> answers.  A command's answer is the status the
  slot has afterwards or an error; \<open>answer_typed\<close> says what an answer of the worker of slot
  \<open>n\<close> may be, and every answer of every turn is of that kind.  A status it reports as
  occupied therefore converts to a VM runtime (\<open>TryFrom\<close> in \<open>src/service.rs\<close>) unless the
  slot has no process.
\<close>

section \<open>The type of an answer\<close>

text \<open>The states in which an action is refused.\<close>

definition refused_in :: "string \<Rightarrow> slot_state \<Rightarrow> bool" where
  "refused_in action s =
     ((action = ''claim'' \<and> s \<noteq> Empty) \<or> (action = ''mark_booted'' \<and> s \<noteq> Booting)
      \<or> (action = ''release'' \<and> s \<noteq> Occupied))"

fun answer_typed :: "nat \<Rightarrow> pool_error + slot_status \<Rightarrow> bool" where
  "answer_typed n (Inr st) = (status_wf st \<and> ss_slot st = n)"
| "answer_typed n (Inl (InvalidTransition i s action)) = (i = n \<and> refused_in action s)"
| "answer_typed n (Inl (Backend e)) = True"
| "answer_typed n (Inl e) = False"

text \<open>A worker's runtime, well formed and with the worker's own slot number.\<close>

definition worker_ok :: "nat \<Rightarrow> slot_runtime \<Rightarrow> bool" where
  "worker_ok n rt = (slot_wf rt \<and> slot_numbered n rt)"

interpretation worker: slot_invariant worker_ok
  by unfold_locales
    (simp_all add: worker_ok_def wf_intros num.inv_init num.inv_spawn num.inv_poll num.inv_command num.inv_stop)

section \<open>Every answer is typed\<close>

text \<open>A command that succeeds answers with the status it leaves behind.\<close>

lemma handle_command_status:
  "handle_command os bridge cmd rt = (Inr st, rt') \<Longrightarrow> st = rt_status rt'"
  by (cases cmd) (auto simp: Let_def split: if_splits sum.splits)

lemma handle_command_error:
  "handle_command os bridge cmd rt = (Inl err, rt') \<Longrightarrow> answer_typed (ss_slot (rt_status rt)) (Inl err)"
  by (cases cmd)
    (auto simp: Let_def refused_in_def dest: ensure_tap_device_error_Backend split: if_splits sum.splits)

lemma handle_command_typed:
  assumes "worker_ok n rt" and "handle_command os bridge cmd rt = (r, rt')"
  shows "answer_typed n r"
proof (cases r)
  case (Inl err)
  with handle_command_error [of os bridge cmd rt err rt'] assms show ?thesis
    by (simp add: worker_ok_def slot_numbered_def)
next
  case (Inr st)
  have "worker_ok n rt'" using worker.inv_command [OF assms(1), of os bridge cmd] assms(2) by simp
  with Inr handle_command_status [of os bridge cmd rt st rt'] assms(2) show ?thesis
    by (simp add: worker_ok_def slot_wf_def slot_numbered_def)
qed

lemma drain_typed:
  "worker_ok n rt \<Longrightarrow> \<forall>r \<in> set (fst (drain_commands bridge cs rt)). answer_typed n r"
proof (induction cs arbitrary: rt)
  case (Cons c cs)
  obtain os cmd where c: "c = (os, cmd)" by fastforce
  obtain r rt1 where h: "handle_command os bridge cmd rt = (r, rt1)" by fastforce
  have "worker_ok n rt1" using worker.inv_command [OF Cons.prems, of os bridge cmd] h by simp
  from Cons.IH [OF this] handle_command_typed [OF Cons.prems h] c h show ?case
    by (auto simp: case_prod_beta)
qed simp

lemma iteration_typed:
  assumes "worker_ok n rt"
  shows "\<forall>r \<in> set (lr_answers (supervise_iteration bridge li rt)). answer_typed n r"
proof -
  let ?d = "drain_commands bridge (li_drained li) (spawn_phase (li_spawn li) rt)"
  have s: "worker_ok n (spawn_phase (li_spawn li) rt)" using assms by (rule worker.inv_spawn)
  have d: "\<forall>r \<in> set (fst ?d). answer_typed n r" by (rule drain_typed [OF s])
  have p: "worker_ok n (poll_phase (li_wait li) (snd ?d))"
    by (rule worker.inv_poll [OF worker.inv_drain [OF s]])
  show ?thesis
    using d handle_command_typed [OF p]
    by (auto simp: supervise_iteration_def Let_def split: prod.splits select_outcome.splits)
qed

lemma occupied_converts:
  assumes "status_wf st" and "ss_state st = Occupied"
  shows "case ss_pid st of
      None \<Rightarrow> try_into_runtime st = Inl (Backend ''missing pid'')
    | Some pid \<Rightarrow> \<exists>rt. try_into_runtime st = Inr rt \<and> vr_pid rt = pid \<and> ss_name st = Some (vr_name rt)"
  using assms by (auto simp: status_wf_def identity_set_def try_into_runtime_def split: option.split)

text \<open>
  C12: Answers are well typed.  In any turn a worker takes, after any number of turns, every
  answer it gives is a well-formed status of its own slot, a refusal that names its own slot
  and a state in which the action is not allowed, or a backend error of the TAP set-up; and
  a status answered as occupied converts to a runtime of the VM it names, with the pid it
  reports, unless it reports none.
\<close>

theorem answers_well_typed:
  assumes "r \<in> set (lr_answers (supervise_iteration bridge li
      (fst (supervise_slot bridge lis (initial_runtime n)))))"
  shows "answer_typed n r
    \<and> (\<forall>st. r = Inr st \<longrightarrow> ss_state st = Occupied \<longrightarrow>
        (case ss_pid st of
           None \<Rightarrow> try_into_runtime st = Inl (Backend ''missing pid'')
         | Some pid \<Rightarrow> \<exists>rt. try_into_runtime st = Inr rt \<and> vr_pid rt = pid
             \<and> ss_name st = Some (vr_name rt)))"
proof -
  have "worker_ok n (fst (supervise_slot bridge lis (initial_runtime n)))"
    by (rule worker.inv_supervise [OF worker.inv_init])
  from iteration_typed [OF this] assms have t: "answer_typed n r" by blast
  with occupied_converts show ?thesis by auto
qed

text \<open>A turn in which the VM is reserved, marked booted and reported.\<close>

definition busy_turn :: loop_input where
  "busy_turn =
     \<lparr>li_shutdown = False, li_spawn = Inr (Some 7),
      li_drained = [(demo_cmd_os, ReserveVm ''a'' ''m'' ''tap3''), (demo_cmd_os, MarkVmBooted ''t'')],
      li_wait = Still_running, li_select = Sel_command demo_cmd_os ReleaseVm, li_stop = Stopped\<rparr>"

definition busy_answers :: "(pool_error + slot_status) list" where
  "busy_answers = lr_answers (supervise_iteration None busy_turn
     (fst (supervise_slot None [busy_turn] (initial_runtime 3))))"

lemma busy_answers_length: "length busy_answers = 3"
  by code_simp

theorem answers_well_typed_witness:
  "1 < length busy_answers \<and> answer_typed 3 (busy_answers ! 1)"
proof
  show "1 < length busy_answers" by (simp add: busy_answers_length)
  then have "busy_answers ! 1 \<in> set busy_answers" by (rule nth_mem)
  then show "answer_typed 3 (busy_answers ! 1)"
    unfolding busy_answers_def by (rule answers_well_typed [THEN conjunct1])
qed

end
