(* ===== verification/Spec2Isabelle.thy ===== *)
theory Spec2Isabelle
  imports DemoSession GrowthRun RepoTests SlotAnswers
begin

text \<open>
  A verification development of croutond, a daemon that keeps a pool of Cloud Hypervisor
  processes and serves a REST interface for creating, deleting and controlling VMs on them.

  \<^bold>\<open>The program.\<close>  A slot is one hypervisor process with an API socket; a worker task
  (\<open>slot_supervisor.rs\<close>) owns it, starts the process again whenever it is gone, and answers
  commands over a channel.  The pool (\<open>pool.rs\<close>) holds the slots' handles behind one
  read-write lock: reading operations send a command to one worker or to all, an allocation
  reserves the first free slot or adds one, the autoscaler removes the last, the shutdown
  joins all.  The service (\<open>service.rs\<close>) creates and deletes VMs by a sequence of pool
  operations and HTTP requests to the slot's process, through the trait \<open>PoolFacade\<close>
  (\<open>pool_facade.rs\<close>); the REST handlers (\<open>api.rs\<close>) call it.  \<open>main.rs\<close> reads the command line,
  builds the pool, runs the autoscaler and the server, and shuts the pool down.

  \<^bold>\<open>Theories and files.\<close>
  \<^item> \<open>Prelude\<close>: sums, saturating words, lists, the collection \<open>frame_simps\<close>.  \<open>RustStr\<close>: the
    part of the standard library on strings, numbers and paths, over UTF-8 bytes.
  \<^item> \<open>PoolTypes\<close>: the types of \<open>pool.rs\<close>, \<open>error.rs\<close> (\<open>api_error_from\<close>, \<open>into_response\<close>), the
    conversions from a status to a runtime.  \<open>NetTap\<close>: \<open>net_tap.rs\<close>.
  \<^item> \<open>SlotSupervisor\<close>: \<open>slot_supervisor.rs\<close>, with \<open>handle_command\<close>, the phases of a turn and
    the loop \<open>supervise_slot\<close>.  \<open>SlotInvariant\<close>: the interface of a slot invariant and
    well-formedness.  \<open>SlotProps\<close>: refinement of the VM life cycle, generations.  \<open>SlotProcess\<close>:
    children, sockets, failed slots.  \<open>SlotAnswers\<close>: the types of the answers.
    \<open>ChildProcess\<close>: the command of a slot's process and \<open>Path::parent\<close>.
  \<^item> \<open>ChClient\<close>: \<open>ch_client.rs\<close>.  \<open>Pool\<close> and \<open>PoolAlloc\<close>: \<open>pool.rs\<close>.  \<open>PoolInvariant\<close>: the
    transition system \<open>pool_steps\<close>, the interface of a pool invariant and \<open>pool_ok\<close>.
    \<open>PoolProps\<close>, \<open>PoolOutcome\<close>, \<open>PoolScale\<close>: what the operations keep, return and wait for.
    \<open>PoolLog\<close>: what they add to the log, by the interface of a reader of it.
  \<^item> \<open>VmConfig\<close>: \<open>vm_validation.rs\<close>.  \<open>VmPayload\<close>: \<open>vm_payload.rs\<close>.
  \<^item> \<open>PoolFacade\<close>: \<open>pool_facade.rs\<close> and the laws of the facade as locales.  \<open>Service\<close>:
    \<open>service.rs\<close>.  \<open>ServiceQuiet\<close>: its abstract specification and the refinement.  \<open>ServiceLog\<close>:
    the order of the calls it makes.  \<open>ServiceProps\<close>, \<open>ServiceFaults\<close>: its guarantees and where
    it fails.  \<open>FakePool\<close>: the stand-in for the pool in the unit tests of \<open>service.rs\<close>;
    \<open>RepoTests\<close>: all unit tests of the repository.
  \<^item> \<open>ProcText\<close>, \<open>HostMetrics\<close>, \<open>VmMetrics\<close>: \<open>host_metrics.rs\<close> and \<open>vm_metrics.rs\<close>.
  \<^item> \<open>Api\<close>, \<open>ApiProps\<close>: \<open>api.rs\<close>.  \<open>Daemon\<close>: \<open>main.rs\<close>; \<open>DaemonRun\<close>: its
    \<open>main\<close> as a whole.  \<open>GrowthRun\<close>: a run whose requests make the pool grow.  \<open>DemoVm\<close>: \<open>bin/demo-vm.rs\<close>.  \<open>DemoSession\<close>: the daemon
    and demo VMs together.
\<close>

text \<open>
  \<^bold>\<open>State and interleaving.\<close>  A worker's state is \<open>slot_runtime\<close>, the pool's \<open>process_pool\<close>,
  each with the fields of the source's structs; ghost fields record the operating-system
  calls of a worker and the events of the pool.  An asynchronous operation is a function on
  a \<open>pool_world\<close> (pool, lock mode, clock, log) under an environment that fixes, for every
  await, which atomic actions other tasks take meanwhile (\<open>pe_actions\<close>) and what the system
  and the VMs answer.  The lock restricts them: workers always run, commands of other readers
  need that no writer holds the lock, allocations that nobody holds it.  The autoscaler
  matters to a task only where the task waits for the lock: \<open>pe_autoscales\<close> says whether the
  autoscaler gets it first, \<open>scaling_down\<close> whether its tick then removes the last slot.  Such a
  tick never returns, so the wait is denied; \<open>lock_as\<close> records that, and \<open>call_outcome\<close>,
  \<open>daemon_events\<close> and \<open>daemon_stop\<close> have no result after a denied wait.  A theorem on a
  handler alone (\<open>serve\<close>, \<open>create_vm\<close>, \<open>delete_vm\<close> and so on) takes its waits to be granted.  A theorem for all
  environments is a theorem for all interleavings; the theorems called calm or quiet are for
  environments in which no other task acts, and say what the code then does exactly.

  \<^bold>\<open>What is shown.\<close>  Slots: the reported status is always well formed, every answer is of the kind
  its command allows, commands refine the VM life cycle, generations identify tenancies, at most one child is
  held, its socket is removed before every start, none is forgotten.  Pool: unique names and TAP devices, sizes
  within bounds and consistent handles are kept by every operation under every interleaving;
  an allocation is its specification; a shutdown returns, joins every slot's worker and accounts
  for every process.  Service and REST interface: every call returns, gives the lock back and
  keeps the pool, or waits for ever behind a scale-down, which needs a pool that may grow;
  creation and deletion refine their specifications and undo each other; the calls of a delete
  come in order, each only after the one before was accepted; listings are consistent;
  look-ups answer as specified.  Daemon: exactly when it starts, how it stops, that in the
  default configuration it runs to a clean end whatever it serves, that ordinary requests to
  an elastic pool make it hang, and what a failed bind leaves behind.  Readers of \<open>/proc\<close>:
  round trips.  Demo VM: it serves the slot that started it, and a session of the service on
  demo VMs answers what both programs say.  The repository's unit tests hold.  The theorems
  named \<open>failed_slot_stuck\<close>,
  \<open>autoscale_scale_down_never_returns\<close>, \<open>elastic_daemon_hangs\<close>, \<open>create_vm_leaks_slot\<close>,
  \<open>create_answers_current_tenant\<close> and \<open>failed_bind_leaves_processes\<close> state defects of the code as it is.

  \<^bold>\<open>Loops and bounds.\<close>  A worker's loop runs over a list of turns, of any length, so a
  statement about every list is about every moment.  The wait for a slot is a partial function;
  under the clock's laws (a sleep lasts at least as long as asked) it ends by its deadline of
  5000 ms.  An allocation's loop ends because each extension shrinks the distance to the
  maximum.  The autoscaler's join of a worker is given the turns the worker takes and is
  \<open>None\<close> when none of them ends it; for a scale-down that holds for every list of turns, so
  that join never returns.  Machine integers are words; sums of ticks and the generation wrap as in a release
  build, saturating operations saturate.

  \<^bold>\<open>Parameters.\<close>  Sockets and hyper (\<open>transport\<close>), the TUN device and the ip program
  (\<open>tap_os\<close>), serde, SHA-256, the clock and connecting (\<open>host_services\<close>), the files of \<open>/proc\<close>,
  floating-point parsing and the \<open>http\<close> crate's response builder (\<open>api_env\<close>), clap, shlex and the
  environment (\<open>raw_cli\<close>, \<open>start_env\<close>).

  \<^bold>\<open>Not modelled.\<close>  Log output except where it reads the pool and the demo VM's lines; axum's routing, extraction
  and serving; the systemd unit.  They are calls into libraries or configuration without
  logic of the repository's own.  Two behaviours of the libraries lie outside the model's
  environments: a request to a VM that is never answered nor refused (no time limit is set, so
  the call would wait with the pool's read lock held), and a client that goes away, for which
  axum drops the handler at its current await.
\<close>

end
